(* ===== verification/Prelude.thy ===== *)
theory Prelude
  imports Main "HOL-Library.AList"
begin

text \<open>
  Shared vocabulary of the development: the names of the model's basic types, the
  theorem collections the component theories fill, and generic facts about lists and
  association lists that several components use.

  \<^item> \<open>ref\<close> is the address of a JavaScript object in the model's store (an index into
    a list of objects); \<open>millis\<close> is a time stamp or a duration in milliseconds, the
    unit of \<^verbatim>\<open>Date.now()\<close> and of \<^verbatim>\<open>setTimeout\<close>.
  \<^item> \<open>op_defs\<close> collects the defining equations of the operations, so that a closed
    instance evaluates with \<open>simp add: op_defs\<close>;
    \<open>frame\<close> collects the lemmas that say which fields an operation leaves alone;
    \<open>wf_keep\<close> collects the lemmas that say an operation keeps the store well formed.
\<close>

type_synonym ref = nat
type_synonym millis = nat

named_theorems op_defs "defining equations of the modelled operations"
named_theorems frame "fields an operation does not change"
named_theorems wf_keep "operations keep the store well formed"

section \<open>Updating one cell of a list\<close>

text \<open>
  \<open>modify_at r f xs\<close> applies \<open>f\<close> to the cell \<open>r\<close> of \<open>xs\<close>; an address beyond the
  list changes nothing. It is the model of a field assignment through a reference.
\<close>

definition modify_at :: "nat \<Rightarrow> ('a \<Rightarrow> 'a) \<Rightarrow> 'a list \<Rightarrow> 'a list" where
  "modify_at r f xs = (if r < length xs then xs[r := f (xs ! r)] else xs)"

lemma length_modify_at [simp]: "length (modify_at r f xs) = length xs"
  by (simp add: modify_at_def)

lemma nth_modify_at:
  "modify_at r f xs ! q = (if q = r \<and> r < length xs then f (xs ! r) else xs ! q)"
  by (simp add: modify_at_def)

lemma nth_modify_at_same [simp]: "r < length xs \<Longrightarrow> modify_at r f xs ! r = f (xs ! r)"
  by (simp add: nth_modify_at)

lemma nth_modify_at_other [simp]: "q \<noteq> r \<Longrightarrow> modify_at r f xs ! q = xs ! q"
  by (simp add: nth_modify_at)

lemma modify_at_beyond [simp]: "length xs \<le> r \<Longrightarrow> modify_at r f xs = xs"
  by (simp add: modify_at_def)

lemma modify_at_append1:
  "r < length xs \<Longrightarrow> modify_at r f (xs @ ys) = modify_at r f xs @ ys"
  by (simp add: modify_at_def list_update_append1 nth_append)

lemma nth_append_left [simp]: "r < length xs \<Longrightarrow> (xs @ ys) ! r = xs ! r"
  by (simp add: nth_append)

section \<open>Folding a state transformer over a list\<close>

text \<open>
  The source's \<^verbatim>\<open>for (const x of xs) { ... }\<close> loops become \<open>fold\<close>; a property that
  every pass of the body keeps is kept by the loop.
\<close>

lemma fold_invariant:
  assumes "P s" and "\<And>x s. x \<in> set xs \<Longrightarrow> P s \<Longrightarrow> P (f x s)"
  shows "P (fold f xs s)"
  using assms by (induction xs arbitrary: s) simp_all

lemma fold_frame:
  assumes "\<And>x s. x \<in> set xs \<Longrightarrow> g (f x s) = g s"
  shows "g (fold f xs s) = g s"
  using assms by (induction xs arbitrary: s) simp_all

section \<open>Association lists in insertion order\<close>

text \<open>
  A JavaScript \<^verbatim>\<open>Map\<close> iterates in insertion order and \<^verbatim>\<open>set\<close> on a key that is
  present replaces the value where it stands. \<open>AList.update\<close> has exactly this
  behaviour; the facts below are the ones the registry needs beyond the library's.
\<close>

lemma length_update_present:
  "k \<in> fst ` set al \<Longrightarrow> length (AList.update k v al) = length al"
  by (induction al) auto

lemma length_update_absent:
  "k \<notin> fst ` set al \<Longrightarrow> length (AList.update k v al) = Suc (length al)"
  by (induction al) auto

lemma update_absent_append:
  "k \<notin> fst ` set al \<Longrightarrow> AList.update k v al = al @ [(k, v)]"
  by (induction al) auto

lemma set_update_subset:
  "set (AList.update k v al) \<subseteq> insert (k, v) (set al)"
  by (induction al) auto

lemma update_mem: "(k, v) \<in> set (AList.update k v al)"
  by (induction al) auto

lemma set_update_distinct:
  "distinct (map fst al) \<Longrightarrow>
   set (AList.update k v al) = insert (k, v) {p \<in> set al. fst p \<noteq> k}"
  by (induction al) (auto simp: image_iff)

lemma map_of_distinct_mem:
  "distinct (map fst al) \<Longrightarrow> (k, v) \<in> set al \<longleftrightarrow> map_of al k = Some v"
  by (auto dest: map_of_SomeD)

lemma update_present_keys:
  "k \<in> fst ` set al \<Longrightarrow> map fst (AList.update k v al) = map fst al"
  by (simp add: update_keys)

lemma map_update_distinct:
  assumes "distinct (map fst al)"
  shows "map f (AList.update k v al) =
     (if k \<in> fst ` set al then map (\<lambda>p. if fst p = k then f (k, v) else f p) al
      else map f al @ [f (k, v)])"
  using assms
proof (induction al)
  case Nil
  show ?case by simp
next
  case (Cons p al)
  show ?case
  proof (cases "fst p = k")
    case True
    with Cons.prems have "k \<notin> fst ` set al" by auto
    then have "map (\<lambda>p. if fst p = k then f (k, v) else f p) al = map f al"
      by (intro map_cong) auto
    with True show ?thesis by (cases p) simp
  next
    case False
    with Cons show ?thesis by (cases p) auto
  qed
qed

lemma remove1_ref_gone:
  assumes "distinct (map snd ts)" and "(t, r) \<in> set ts"
  shows "(t', r) \<notin> set (remove1 (t, r) ts)"
proof
  assume a: "(t', r) \<in> set (remove1 (t, r) ts)"
  then have m: "(t', r) \<in> set ts" by (rule set_remove1_subset [THEN subsetD])
  from assms(1) have inj: "inj_on snd (set ts)" and d: "distinct ts"
    by (simp_all add: distinct_map)
  from inj_onD [OF inj _ m assms(2)] have "(t', r) = (t, r)" by simp
  with d a show False by simp
qed

end
