(* ===== verification/JsLib.thy ===== *)
theory JsLib
  imports Prelude "HOL-Library.Signed_Division"
begin

text \<open>
  The JavaScript built-ins that \<^verbatim>\<open>router-ha.js\<close> calls and whose exact behaviour the
  properties depend on, each as an executable HOL function:
  \<^item> numbers that may be \<^verbatim>\<open>NaN\<close> (\<open>jsnum\<close>), their addition and \<^verbatim>\<open>toString\<close>;
  \<^item> \<^verbatim>\<open>Array.prototype.findIndex\<close> with its \<open>-1\<close> sentinel, array indexing that yields
    \<^verbatim>\<open>undefined\<close> out of range, the operator \<^verbatim>\<open>||\<close> on numbers and the remainder \<^verbatim>\<open>%\<close>
    (\<open>smod\<close> of \<open>HOL-Library.Signed_Division\<close>: the sign follows the dividend);
  \<^item> truthiness of strings and of optional strings.
  Integers are exact: the model does not round at \<open>2^53\<close>.
\<close>

section \<open>Numbers\<close>

datatype jsnum = Num int | NaN

fun js_plus :: "jsnum \<Rightarrow> jsnum \<Rightarrow> jsnum" where
  "js_plus (Num a) (Num b) = Num (a + b)"
| "js_plus _ _ = NaN"

definition digit_char :: "nat \<Rightarrow> char" where
  "digit_char d = char_of (48 + d)"

fun decimal :: "nat \<Rightarrow> nat list" where
  "decimal n = (if n < 10 then [n] else decimal (n div 10) @ [n mod 10])"

declare decimal.simps [simp del]

definition undecimal :: "nat list \<Rightarrow> nat" where
  "undecimal ds = foldl (\<lambda>a d. 10 * a + d) 0 ds"

definition nat_toString :: "nat \<Rightarrow> string" where
  "nat_toString n = map digit_char (decimal n)"

definition int_toString :: "int \<Rightarrow> string" where
  "int_toString i = (if i < 0 then CHR ''-'' # nat_toString (nat (- i)) else nat_toString (nat i))"

fun num_toString :: "jsnum \<Rightarrow> string" where
  "num_toString (Num i) = int_toString i"
| "num_toString NaN = ''NaN''"

section \<open>Arrays and operators\<close>

primrec findIndexFrom :: "nat \<Rightarrow> ('a \<Rightarrow> bool) \<Rightarrow> 'a list \<Rightarrow> int" where
  "findIndexFrom k p [] = - 1"
| "findIndexFrom k p (x # xs) = (if p x then int k else findIndexFrom (Suc k) p xs)"

definition findIndex :: "('a \<Rightarrow> bool) \<Rightarrow> 'a list \<Rightarrow> int" where
  "findIndex p xs = findIndexFrom 0 p xs"

definition js_or :: "int \<Rightarrow> int \<Rightarrow> int" where
  "js_or a b = (if a = 0 then b else a)"

definition at_index :: "'a list \<Rightarrow> int \<Rightarrow> 'a option" where
  "at_index xs i = (if 0 \<le> i \<and> nat i < length xs then Some (xs ! nat i) else None)"

definition truthy :: "string \<Rightarrow> bool" where
  "truthy s \<longleftrightarrow> s \<noteq> []"

definition truthy_opt :: "string option \<Rightarrow> bool" where
  "truthy_opt v = (case v of None \<Rightarrow> False | Some s \<Rightarrow> truthy s)"

section \<open>Facts about printing numbers\<close>

lemma decimal_digits: "d \<in> set (decimal n) \<Longrightarrow> d < 10"
proof (induction n rule: decimal.induct)
  case (1 n)
  then show ?case
    by (cases "n < 10") (auto simp: decimal.simps [of n])
qed

lemma decimal_nonempty [simp]: "decimal n \<noteq> []"
  by (subst decimal.simps) simp

lemma undecimal_snoc [simp]: "undecimal (ds @ [d]) = 10 * undecimal ds + d"
  by (simp add: undecimal_def)

lemma undecimal_single [simp]: "undecimal [d] = d"
  by (simp add: undecimal_def)

lemma undecimal_decimal [simp]: "undecimal (decimal n) = n"
proof (induction n rule: decimal.induct)
  case (1 n)
  then show ?case
    by (cases "n < 10") (simp_all add: decimal.simps [of n])
qed

lemma decimal_inj: "decimal m = decimal n \<Longrightarrow> m = n"
  by (metis undecimal_decimal)

lemma digit_char_inj: "a < 10 \<Longrightarrow> b < 10 \<Longrightarrow> digit_char a = digit_char b \<Longrightarrow> a = b"
proof -
  assume a: "a < 10" and b: "b < 10" and eq: "digit_char a = digit_char b"
  from eq have "of_char (char_of (48 + a) :: char) = (of_char (char_of (48 + b) :: char) :: nat)"
    by (simp add: digit_char_def)
  with a b show ?thesis by (simp add: of_char_of)
qed

lemma map_digit_char_inj:
  "\<forall>d\<in>set xs. d < 10 \<Longrightarrow> \<forall>d\<in>set ys. d < 10 \<Longrightarrow>
   map digit_char xs = map digit_char ys \<Longrightarrow> xs = ys"
proof (induction xs arbitrary: ys)
  case Nil
  then show ?case by simp
next
  case (Cons x xs)
  then obtain y ys' where ys: "ys = y # ys'" by (cases ys) auto
  with Cons.prems have "digit_char x = digit_char y" and "map digit_char xs = map digit_char ys'"
    by simp_all
  with Cons ys show ?case by (auto dest: digit_char_inj)
qed

lemma nat_toString_inj: "nat_toString m = nat_toString n \<Longrightarrow> m = n"
  unfolding nat_toString_def
  by (rule decimal_inj, rule map_digit_char_inj) (auto dest: decimal_digits)

lemma nat_toString_nonempty [simp]: "nat_toString n \<noteq> []"
  by (simp add: nat_toString_def)

lemma digit_char_not_minus: "d < 10 \<Longrightarrow> digit_char d \<noteq> CHR ''-''"
proof
  assume d: "d < 10" and "digit_char d = CHR ''-''"
  then have "(of_char (char_of (48 + d) :: char) :: nat) = of_char CHR ''-''"
    by (simp add: digit_char_def)
  with d show False by (simp add: of_char_of)
qed

lemma nat_toString_no_minus: "hd (nat_toString n) \<noteq> CHR ''-''"
proof -
  have "hd (decimal n) \<in> set (decimal n)" by simp
  then have "hd (decimal n) < 10" by (rule decimal_digits)
  then show ?thesis
    by (simp add: nat_toString_def hd_map digit_char_not_minus)
qed

lemma int_toString_inj: "int_toString i = int_toString j \<Longrightarrow> i = j"
proof -
  assume eq: "int_toString i = int_toString j"
  have neg: "CHR ''-'' # nat_toString a \<noteq> nat_toString b" for a b
    using nat_toString_no_minus [of b] by (metis list.sel(1))
  show ?thesis
  proof (cases "i < 0"; cases "j < 0")
    assume "i < 0" "j < 0"
    with eq have "nat (- i) = nat (- j)"
      by (auto simp: int_toString_def dest: nat_toString_inj)
    with \<open>i < 0\<close> \<open>j < 0\<close> show ?thesis by simp
  next
    assume "\<not> i < 0" "\<not> j < 0"
    with eq have "nat i = nat j"
      by (auto simp: int_toString_def dest: nat_toString_inj)
    with \<open>\<not> i < 0\<close> \<open>\<not> j < 0\<close> show ?thesis by simp
  next
    assume "i < 0" "\<not> j < 0"
    with eq neg show ?thesis by (simp add: int_toString_def)
  next
    assume "\<not> i < 0" "j < 0"
    with eq neg [of "nat (- j)" "nat i"] show ?thesis by (simp add: int_toString_def)
  qed
qed

section \<open>Facts about \<open>findIndex\<close>, \<open>||\<close> and indexing\<close>

lemma findIndexFrom_none: "\<forall>x\<in>set xs. \<not> p x \<Longrightarrow> findIndexFrom k p xs = - 1"
  by (induction xs arbitrary: k) simp_all

lemma findIndexFrom_bounds:
  "\<exists>x\<in>set xs. p x \<Longrightarrow> int k \<le> findIndexFrom k p xs \<and> findIndexFrom k p xs < int k + int (length xs)"
proof (induction xs arbitrary: k)
  case Nil
  then show ?case by simp
next
  case (Cons x xs)
  show ?case
  proof (cases "p x")
    case True
    then show ?thesis by simp
  next
    case False
    with Cons.prems have "\<exists>x\<in>set xs. p x" by simp
    from Cons.IH [OF this, of "Suc k"] False show ?thesis by simp
  qed
qed

lemma findIndexFrom_first:
  "i < length xs \<Longrightarrow> p (xs ! i) \<Longrightarrow> \<forall>j<i. \<not> p (xs ! j) \<Longrightarrow>
   findIndexFrom k p xs = int k + int i"
proof (induction xs arbitrary: k i)
  case Nil
  then show ?case by simp
next
  case (Cons x xs)
  show ?case
  proof (cases i)
    case 0
    with Cons.prems show ?thesis by simp
  next
    case (Suc i')
    with Cons.prems have "\<not> p x" by auto
    moreover from Suc Cons.prems have "i' < length xs" "p (xs ! i')" "\<forall>j<i'. \<not> p (xs ! j)"
      by auto
    ultimately show ?thesis
      using Cons.IH [of i' "Suc k"] Suc by simp
  qed
qed

lemma findIndex_none: "\<forall>x\<in>set xs. \<not> p x \<Longrightarrow> findIndex p xs = - 1"
  by (simp add: findIndex_def findIndexFrom_none)

lemma findIndex_bounds:
  "\<exists>x\<in>set xs. p x \<Longrightarrow> 0 \<le> findIndex p xs \<and> findIndex p xs < int (length xs)"
  using findIndexFrom_bounds [of xs p 0] by (simp add: findIndex_def)

lemma findIndex_none_iff: "findIndex p xs = - 1 \<longleftrightarrow> (\<forall>x\<in>set xs. \<not> p x)"
proof
  assume none: "findIndex p xs = - 1"
  show "\<forall>x\<in>set xs. \<not> p x"
  proof (rule ccontr)
    assume "\<not> (\<forall>x\<in>set xs. \<not> p x)"
    then have "\<exists>x\<in>set xs. p x" by blast
    then have "0 \<le> findIndex p xs" by (simp add: findIndex_bounds)
    with none show False by simp
  qed
next
  assume "\<forall>x\<in>set xs. \<not> p x"
  then show "findIndex p xs = - 1" by (rule findIndex_none)
qed

lemma findIndex_ge: "- 1 \<le> findIndex p xs"
  using findIndex_bounds [of xs p] findIndex_none [of xs p] by fastforce

lemma findIndex_first:
  "i < length xs \<Longrightarrow> p (xs ! i) \<Longrightarrow> \<forall>j<i. \<not> p (xs ! j) \<Longrightarrow> findIndex p xs = int i"
  using findIndexFrom_first [of i xs p 0] by (simp add: findIndex_def)

lemma findIndex_distinct:
  assumes "distinct (map f xs)" and "i < length xs"
  shows "findIndex (\<lambda>x. f x = f (xs ! i)) xs = int i"
proof (rule findIndex_first [OF assms(2)])
  show "f (xs ! i) = f (xs ! i)" ..
  show "\<forall>j<i. f (xs ! j) \<noteq> f (xs ! i)"
  proof (intro allI impI)
    fix j assume "j < i"
    with assms(2) have "j < length (map f xs)" "i < length (map f xs)" "j \<noteq> i"
      by simp_all
    with nth_eq_iff_index_eq [OF assms(1), of j i] have "map f xs ! j \<noteq> map f xs ! i"
      by blast
    with \<open>j < i\<close> assms(2) show "f (xs ! j) \<noteq> f (xs ! i)" by simp
  qed
qed

lemma js_or_zero [simp]: "js_or a 0 = a"
  by (simp add: js_or_def)

lemma at_index_nat [simp]: "n < length xs \<Longrightarrow> at_index xs (int n) = Some (xs ! n)"
  by (simp add: at_index_def)

lemma at_index_Some_mem: "at_index xs i = Some x \<Longrightarrow> x \<in> set xs"
  by (auto simp: at_index_def split: if_splits)

lemma smod_nonneg [simp]: "0 \<le> a \<Longrightarrow> 0 < b \<Longrightarrow> (a::int) smod b = a mod b"
  by (simp add: signed_modulo_int_def sgn_if)

end
