(* ===== verification/Registry.thy ===== *)
theory Registry
  imports JsLib
begin

text \<open>
  The instance registry of \<^verbatim>\<open>router-ha.js\<close>: the objects that \<^verbatim>\<open>startInstance\<close> builds
  (record \<open>inst\<close>), the fields of \<^verbatim>\<open>class RouterManager\<close> (record \<open>manager\<close>) and the
  accessors the other components use.

  JavaScript objects have identity: the \<^verbatim>\<open>close\<close> handler, the restart timer and the
  proxy error handler keep a reference to the instance object they were created with,
  while \<^verbatim>\<open>this.instances\<close> may by then hold a newer object under the same id. The model
  therefore keeps the objects in a store (\<open>heap\<close>, a list indexed by \<open>ref\<close>) and the
  \<^verbatim>\<open>Map\<close> as an association list from ids to references, in insertion order.
  \<open>wf\<close> is the well-formedness of this store: the keys are distinct, every registered
  reference is allocated and its object carries the key as its id, and the cursor and
  the pending timers refer to allocated objects.

  The record \<open>manager\<close> holds, after the five fields of the class, the part of the
  runtime that the callbacks read or write: the clock (\<^verbatim>\<open>Date.now()\<close>), the pending
  restart timers, the health transitions written to the console, the exit status of
  the supervisor process, and whether the signal handlers and the listener are set up.
\<close>

section \<open>Data\<close>

datatype signal = SIGTERM | SIGKILL

record child =
  argv :: "string list"
  killed :: bool
  running :: bool
  received :: "signal list"

record inst =
  instanceId :: string
  process :: child
  port :: jsnum
  key :: "string option"
  healthy :: bool
  lastHealthCheck :: "millis option"
  startTime :: millis
  restartCount :: nat

datatype log_entry = BecameUnhealthy string | Recovered string

record manager =
  heap :: "inst list"
  instances :: "(string \<times> ref) list"
  currentActiveInstance :: "ref option"
  isShuttingDown :: bool
  healthCheckInterval :: "bool option"
  now :: millis
  timers :: "(millis \<times> ref) list"
  console :: "log_entry list"
  exitCode :: "int option"
  handlers :: bool
  listening :: bool

definition new_manager :: "millis \<Rightarrow> manager" where
  "new_manager t =
     \<lparr>heap = [], instances = [], currentActiveInstance = None, isShuttingDown = False,
      healthCheckInterval = None, now = t, timers = [], console = [], exitCode = None,
      handlers = False, listening = False\<rparr>"

section \<open>Accessors\<close>

definition deref :: "manager \<Rightarrow> ref \<Rightarrow> inst" where
  "deref s r = heap s ! r"

definition update_inst :: "ref \<Rightarrow> (inst \<Rightarrow> inst) \<Rightarrow> manager \<Rightarrow> manager" where
  "update_inst r f s = s\<lparr>heap := modify_at r f (heap s)\<rparr>"

definition alloc :: "inst \<Rightarrow> manager \<Rightarrow> ref \<times> manager" where
  "alloc i s = (length (heap s), s\<lparr>heap := heap s @ [i]\<rparr>)"

definition map_set :: "string \<Rightarrow> ref \<Rightarrow> manager \<Rightarrow> manager" where
  "map_set k r s = s\<lparr>instances := AList.update k r (instances s)\<rparr>"

definition map_get :: "manager \<Rightarrow> string \<Rightarrow> ref option" where
  "map_get s k = map_of (instances s) k"

definition value_refs :: "manager \<Rightarrow> ref list" where
  "value_refs s = map snd (instances s)"

definition healthy_refs :: "manager \<Rightarrow> ref list" where
  "healthy_refs s = filter (\<lambda>r. healthy (deref s r)) (value_refs s)"

definition new_child :: "string list \<Rightarrow> bool \<Rightarrow> child" where
  "new_child args spawned = \<lparr>argv = args, killed = False, running = spawned, received = []\<rparr>"

definition new_instance :: "string \<Rightarrow> string option \<Rightarrow> jsnum \<Rightarrow> child \<Rightarrow> millis \<Rightarrow> inst" where
  "new_instance instanceId' key' port' child' t =
     \<lparr>instanceId = instanceId', process = child', port = port', key = key',
      healthy = False, lastHealthCheck = None, startTime = t, restartCount = 0\<rparr>"

definition register :: "inst \<Rightarrow> manager \<Rightarrow> ref \<times> manager" where
  "register i s = (case alloc i s of (r, s') \<Rightarrow> (r, map_set (instanceId i) r s'))"

definition set_healthy :: "bool \<Rightarrow> inst \<Rightarrow> inst" where
  "set_healthy b i = i\<lparr>healthy := b\<rparr>"

definition wf :: "manager \<Rightarrow> bool" where
  "wf s \<longleftrightarrow>
     distinct (map fst (instances s)) \<and>
     (\<forall>(k, r) \<in> set (instances s). r < length (heap s) \<and> instanceId (heap s ! r) = k) \<and>
     (case currentActiveInstance s of None \<Rightarrow> True | Some r \<Rightarrow> r < length (heap s)) \<and>
     (\<forall>(t, r) \<in> set (timers s). r < length (heap s))"

lemmas registry_defs [op_defs] =
  new_manager_def deref_def update_inst_def alloc_def map_set_def map_get_def
  value_refs_def healthy_refs_def set_healthy_def modify_at_def
  new_child_def new_instance_def register_def

section \<open>Frame lemmas\<close>

lemma update_inst_frame [simp, frame]:
  "instances (update_inst r f s) = instances s"
  "currentActiveInstance (update_inst r f s) = currentActiveInstance s"
  "isShuttingDown (update_inst r f s) = isShuttingDown s"
  "healthCheckInterval (update_inst r f s) = healthCheckInterval s"
  "now (update_inst r f s) = now s"
  "timers (update_inst r f s) = timers s"
  "console (update_inst r f s) = console s"
  "exitCode (update_inst r f s) = exitCode s"
  "handlers (update_inst r f s) = handlers s"
  "listening (update_inst r f s) = listening s"
  "length (heap (update_inst r f s)) = length (heap s)"
  "value_refs (update_inst r f s) = value_refs s"
  by (simp_all add: update_inst_def value_refs_def)

lemma deref_update_inst:
  "deref (update_inst r f s) q =
     (if q = r \<and> r < length (heap s) then f (deref s r) else deref s q)"
  by (simp add: deref_def update_inst_def nth_modify_at)

lemma deref_update_inst_same [simp]:
  "r < length (heap s) \<Longrightarrow> deref (update_inst r f s) r = f (deref s r)"
  by (simp add: deref_update_inst)

lemma deref_update_inst_other [simp]:
  "q \<noteq> r \<Longrightarrow> deref (update_inst r f s) q = deref s q"
  by (simp add: deref_update_inst)

lemma map_set_frame [simp, frame]:
  "heap (map_set k r s) = heap s"
  "currentActiveInstance (map_set k r s) = currentActiveInstance s"
  "isShuttingDown (map_set k r s) = isShuttingDown s"
  "healthCheckInterval (map_set k r s) = healthCheckInterval s"
  "now (map_set k r s) = now s"
  "timers (map_set k r s) = timers s"
  "console (map_set k r s) = console s"
  "exitCode (map_set k r s) = exitCode s"
  "handlers (map_set k r s) = handlers s"
  "listening (map_set k r s) = listening s"
  "deref (map_set k r s) q = deref s q"
  by (simp_all add: map_set_def deref_def)

lemma set_healthy_simps [simp]:
  "healthy (set_healthy b i) = b"
  "instanceId (set_healthy b i) = instanceId i"
  "port (set_healthy b i) = port i"
  "key (set_healthy b i) = key i"
  "process (set_healthy b i) = process i"
  "restartCount (set_healthy b i) = restartCount i"
  "startTime (set_healthy b i) = startTime i"
  "lastHealthCheck (set_healthy b i) = lastHealthCheck i"
  by (simp_all add: set_healthy_def)

lemma deref_field_updates [simp]:
  "deref (s\<lparr>now := t\<rparr>) = deref s"
  "deref (s\<lparr>console := c\<rparr>) = deref s"
  "deref (s\<lparr>exitCode := x\<rparr>) = deref s"
  "deref (s\<lparr>isShuttingDown := b\<rparr>) = deref s"
  "deref (s\<lparr>healthCheckInterval := h\<rparr>) = deref s"
  "deref (s\<lparr>timers := ts\<rparr>) = deref s"
  "deref (s\<lparr>handlers := b\<rparr>) = deref s"
  "deref (s\<lparr>listening := b\<rparr>) = deref s"
  "deref (s\<lparr>currentActiveInstance := c'\<rparr>) = deref s"
  by (simp_all add: fun_eq_iff deref_def)

lemma map_get_field_updates [simp]:
  "map_get (s\<lparr>now := t\<rparr>) = map_get s"
  "map_get (s\<lparr>console := c\<rparr>) = map_get s"
  "map_get (s\<lparr>exitCode := x\<rparr>) = map_get s"
  "map_get (s\<lparr>isShuttingDown := b\<rparr>) = map_get s"
  "map_get (s\<lparr>healthCheckInterval := h\<rparr>) = map_get s"
  "map_get (s\<lparr>timers := ts\<rparr>) = map_get s"
  "map_get (s\<lparr>handlers := b\<rparr>) = map_get s"
  "map_get (s\<lparr>listening := b\<rparr>) = map_get s"
  "map_get (s\<lparr>currentActiveInstance := c'\<rparr>) = map_get s"
  by (simp_all add: fun_eq_iff map_get_def)

lemma value_refs_field_updates [simp]:
  "value_refs (s\<lparr>now := t\<rparr>) = value_refs s"
  "value_refs (s\<lparr>console := c\<rparr>) = value_refs s"
  "value_refs (s\<lparr>exitCode := x\<rparr>) = value_refs s"
  "value_refs (s\<lparr>isShuttingDown := b\<rparr>) = value_refs s"
  "value_refs (s\<lparr>healthCheckInterval := h\<rparr>) = value_refs s"
  "value_refs (s\<lparr>timers := ts\<rparr>) = value_refs s"
  "value_refs (s\<lparr>handlers := b\<rparr>) = value_refs s"
  "value_refs (s\<lparr>listening := b\<rparr>) = value_refs s"
  "value_refs (s\<lparr>currentActiveInstance := c'\<rparr>) = value_refs s"
  by (simp_all add: value_refs_def)

lemma healthy_refs_field_updates [simp]:
  "healthy_refs (s\<lparr>now := t\<rparr>) = healthy_refs s"
  "healthy_refs (s\<lparr>console := c\<rparr>) = healthy_refs s"
  "healthy_refs (s\<lparr>exitCode := x\<rparr>) = healthy_refs s"
  "healthy_refs (s\<lparr>isShuttingDown := b\<rparr>) = healthy_refs s"
  "healthy_refs (s\<lparr>healthCheckInterval := h\<rparr>) = healthy_refs s"
  "healthy_refs (s\<lparr>timers := ts\<rparr>) = healthy_refs s"
  "healthy_refs (s\<lparr>handlers := b\<rparr>) = healthy_refs s"
  "healthy_refs (s\<lparr>listening := b\<rparr>) = healthy_refs s"
  "healthy_refs (s\<lparr>currentActiveInstance := c'\<rparr>) = healthy_refs s"
  by (simp_all add: healthy_refs_def)

section \<open>The \<^verbatim>\<open>Map\<close> operations\<close>

lemma map_get_map_set: "map_get (map_set k r s) k' = (if k' = k then Some r else map_get s k')"
  by (simp add: map_get_def map_set_def update_conv')

lemma keys_map_set:
  "map fst (instances (map_set k r s)) =
     (if k \<in> set (map fst (instances s)) then map fst (instances s)
      else map fst (instances s) @ [k])"
  by (simp add: map_set_def update_keys)

lemma size_map_set:
  "length (instances (map_set k r s)) =
     (if k \<in> fst ` set (instances s) then length (instances s) else Suc (length (instances s)))"
  by (simp add: map_set_def length_update_present length_update_absent)

section \<open>Well-formedness\<close>

lemma new_manager_simps [simp]:
  "heap (new_manager t) = []" "instances (new_manager t) = []"
  "currentActiveInstance (new_manager t) = None" "isShuttingDown (new_manager t) = False"
  "healthCheckInterval (new_manager t) = None" "now (new_manager t) = t"
  "timers (new_manager t) = []" "console (new_manager t) = []"
  "exitCode (new_manager t) = None" "handlers (new_manager t) = False"
  "listening (new_manager t) = False"
  by (simp_all add: new_manager_def)

lemma wf_new_manager [simp, wf_keep]: "wf (new_manager t)"
  by (simp add: wf_def new_manager_def)

lemma wf_cong:
  assumes "instances t = instances s" and "currentActiveInstance t = currentActiveInstance s"
    and "timers t = timers s" and "length (heap t) = length (heap s)"
    and "\<And>r. r < length (heap s) \<Longrightarrow> instanceId (heap t ! r) = instanceId (heap s ! r)"
  shows "wf t \<longleftrightarrow> wf s"
  using assms by (auto simp: wf_def split: option.splits)

lemma wf_field_updates [simp]:
  "wf (s\<lparr>now := t\<rparr>) = wf s"
  "wf (s\<lparr>console := c\<rparr>) = wf s"
  "wf (s\<lparr>exitCode := x\<rparr>) = wf s"
  "wf (s\<lparr>handlers := b\<rparr>) = wf s"
  "wf (s\<lparr>listening := b\<rparr>) = wf s"
  "wf (s\<lparr>isShuttingDown := b\<rparr>) = wf s"
  "wf (s\<lparr>healthCheckInterval := h\<rparr>) = wf s"
  by (rule wf_cong; simp)+

lemma wfD_ref: "wf s \<Longrightarrow> (k, r) \<in> set (instances s) \<Longrightarrow> r < length (heap s)"
  by (auto simp: wf_def)

lemma wfD_id: "wf s \<Longrightarrow> (k, r) \<in> set (instances s) \<Longrightarrow> instanceId (deref s r) = k"
  by (auto simp: wf_def deref_def)

lemma wfD_keys: "wf s \<Longrightarrow> distinct (map fst (instances s))"
  by (simp add: wf_def)

lemma wf_ref_key:
  "wf s \<Longrightarrow> (k, r) \<in> set (instances s) \<Longrightarrow> (k', r) \<in> set (instances s) \<Longrightarrow> k' = k"
  using wfD_id [of s k r] wfD_id [of s k' r] by simp

lemma value_refs_valid: "wf s \<Longrightarrow> r \<in> set (value_refs s) \<Longrightarrow> r < length (heap s)"
  by (auto simp: value_refs_def dest: wfD_ref)

lemma healthy_refs_subset: "set (healthy_refs s) \<subseteq> set (value_refs s)"
  by (auto simp: healthy_refs_def)

lemma healthy_refs_valid: "wf s \<Longrightarrow> r \<in> set (healthy_refs s) \<Longrightarrow> r < length (heap s)"
  using healthy_refs_subset value_refs_valid by blast

lemma healthy_refs_healthy: "r \<in> set (healthy_refs s) \<Longrightarrow> healthy (deref s r)"
  by (simp add: healthy_refs_def)

lemma ids_of_value_refs:
  "wf s \<Longrightarrow> map (\<lambda>r. instanceId (deref s r)) (value_refs s) = map fst (instances s)"
  by (auto simp: value_refs_def dest: wfD_id)

lemma distinct_ids: "wf s \<Longrightarrow> distinct (map (\<lambda>r. instanceId (deref s r)) (value_refs s))"
  by (simp add: ids_of_value_refs wfD_keys)

lemma distinct_value_refs: "wf s \<Longrightarrow> distinct (value_refs s)"
  using distinct_ids distinct_map by blast

lemma distinct_healthy_ids:
  "wf s \<Longrightarrow> distinct (map (\<lambda>r. instanceId (deref s r)) (healthy_refs s))"
  unfolding healthy_refs_def by (rule distinct_map_filter) (rule distinct_ids)

lemma distinct_healthy_refs: "wf s \<Longrightarrow> distinct (healthy_refs s)"
  by (simp add: healthy_refs_def distinct_value_refs)

lemma wf_update_inst [wf_keep]:
  assumes "wf s" and "instanceId (f (deref s r)) = instanceId (deref s r)"
  shows "wf (update_inst r f s)"
  using assms
  by (auto simp: wf_def update_inst_def deref_def nth_modify_at split: option.splits)

lemma wf_set_healthy [simp, wf_keep]: "wf s \<Longrightarrow> wf (update_inst r (set_healthy b) s)"
  by (rule wf_update_inst) simp_all

lemma wf_cursor [wf_keep]:
  "wf s \<Longrightarrow> (case c of None \<Rightarrow> True | Some r \<Rightarrow> r < length (heap s)) \<Longrightarrow>
   wf (s\<lparr>currentActiveInstance := c\<rparr>)"
  by (auto simp: wf_def split: option.splits)

lemma wf_register [wf_keep]:
  assumes "wf s" and "instanceId i = k"
  shows "wf (map_set k (fst (alloc i s)) (snd (alloc i s)))"
proof -
  let ?t = "map_set k (length (heap s)) (s\<lparr>heap := heap s @ [i]\<rparr>)"
  have keys: "distinct (map fst (instances ?t))"
    using assms(1) by (simp add: map_set_def distinct_update wf_def)
  have "set (instances ?t) \<subseteq> insert (k, length (heap s)) (set (instances s))"
    by (simp add: map_set_def set_update_subset)
  then have "\<forall>(k', r) \<in> set (instances ?t).
      r < length (heap ?t) \<and> instanceId (heap ?t ! r) = k'"
    using assms by (auto simp: wf_def nth_append map_set_def)
  with keys assms(1) show ?thesis
    by (auto simp: wf_def alloc_def map_set_def split: option.splits)
qed

lemma register_eq:
  "register i s =
     (length (heap s), s\<lparr>heap := heap s @ [i],
                           instances := AList.update (instanceId i) (length (heap s)) (instances s)\<rparr>)"
  by (simp add: register_def alloc_def map_set_def)

lemma register_frame [simp, frame]:
  "fst (register i s) = length (heap s)"
  "heap (snd (register i s)) = heap s @ [i]"
  "instances (snd (register i s)) = AList.update (instanceId i) (length (heap s)) (instances s)"
  "currentActiveInstance (snd (register i s)) = currentActiveInstance s"
  "isShuttingDown (snd (register i s)) = isShuttingDown s"
  "healthCheckInterval (snd (register i s)) = healthCheckInterval s"
  "now (snd (register i s)) = now s"
  "timers (snd (register i s)) = timers s"
  "console (snd (register i s)) = console s"
  "exitCode (snd (register i s)) = exitCode s"
  "handlers (snd (register i s)) = handlers s"
  "listening (snd (register i s)) = listening s"
  by (simp_all add: register_eq)

lemma wf_register' [simp, wf_keep]: "wf s \<Longrightarrow> wf (snd (register i s))"
  using wf_register [of s i "instanceId i"] by (simp add: register_def alloc_def)

lemma deref_register_old [simp]:
  "r < length (heap s) \<Longrightarrow> deref (snd (register i s)) r = deref s r"
  by (simp add: deref_def)

lemma deref_register_new [simp]: "deref (snd (register i s)) (length (heap s)) = i"
  by (simp add: deref_def)

section \<open>Replacing a registered object\<close>

lemma unregistered_others:
  assumes "wf s" and "(k, r) \<in> set (instances s)"
  shows "snd ` {p \<in> set (instances s). fst p \<noteq> k} = set (value_refs s) - {r}"
proof (intro equalityI subsetI)
  fix q assume "q \<in> snd ` {p \<in> set (instances s). fst p \<noteq> k}"
  then obtain k' where p: "(k', q) \<in> set (instances s)" "k' \<noteq> k" by auto
  have "q \<noteq> r"
  proof
    assume "q = r"
    with p(1) assms have "k' = k" by (auto dest: wf_ref_key)
    with p(2) show False by simp
  qed
  moreover from p(1) have "q \<in> set (value_refs s)" by (force simp: value_refs_def)
  ultimately show "q \<in> set (value_refs s) - {r}" by simp
next
  fix q assume "q \<in> set (value_refs s) - {r}"
  then obtain k' where p: "(k', q) \<in> set (instances s)" and q: "q \<noteq> r"
    by (auto simp: value_refs_def)
  have "k' \<noteq> k"
  proof
    assume "k' = k"
    with p assms(2) wfD_keys [OF assms(1)] have "q = r" by (auto dest: eq_key_imp_eq_value)
    with q show False by simp
  qed
  with p have "(k', q) \<in> {p \<in> set (instances s). fst p \<noteq> k}" by simp
  then show "q \<in> snd ` {p \<in> set (instances s). fst p \<noteq> k}" by (rule image_eqI [rotated]) simp
qed

lemma value_refs_restart:
  assumes "wf s" and "(k, r) \<in> set (instances s)"
  shows "set (map snd (AList.update k n (instances s))) = insert n (set (value_refs s) - {r})"
  by (simp add: set_update_distinct [OF wfD_keys [OF assms(1)]] unregistered_others [OF assms])

section \<open>Health of registered instances under an update\<close>

lemma healthy_refs_update_inst:
  assumes "r < length (heap s)"
  shows "healthy_refs (update_inst r f s) =
    filter (\<lambda>q. if q = r then healthy (f (deref s r)) else healthy (deref s q)) (value_refs s)"
  using assms by (auto simp: healthy_refs_def deref_update_inst intro: filter_cong)

lemma healthy_refs_mark_unhealthy:
  assumes "r < length (heap s)"
  shows "healthy_refs (update_inst r (set_healthy False) s) = removeAll r (healthy_refs s)"
proof -
  have "healthy_refs (update_inst r (set_healthy False) s) =
      filter (\<lambda>q. q \<noteq> r \<and> healthy (deref s q)) (value_refs s)"
    using assms by (auto simp: healthy_refs_update_inst intro: filter_cong)
  also have "\<dots> = removeAll r (healthy_refs s)"
    by (auto simp: healthy_refs_def removeAll_filter_not_eq intro: filter_cong)
  finally show ?thesis .
qed

lemma healthy_refs_mark_healthy:
  assumes "r < length (heap s)"
  shows "healthy_refs (update_inst r (set_healthy True) s) =
    filter (\<lambda>q. q = r \<or> healthy (deref s q)) (value_refs s)"
  using assms by (auto simp: healthy_refs_update_inst intro: filter_cong)

section \<open>An example registry\<close>

text \<open>
  Three workers as \<^verbatim>\<open>start()\<close> registers them for three keys and the default port, all
  of them marked healthy; the closed instances of the theorems are stated over it.
\<close>

definition demo3 :: manager where
  "demo3 =
     update_inst 2 (set_healthy True) (update_inst 1 (set_healthy True)
       (update_inst 0 (set_healthy True)
       (snd (register (new_instance ''router-2'' (Some ''k2'') (Num 3102) (new_child [] True) 0)
       (snd (register (new_instance ''router-1'' (Some ''k1'') (Num 3101) (new_child [] True) 0)
       (snd (register (new_instance ''router-0'' (Some ''k0'') (Num 3100) (new_child [] True) 0)
          (new_manager 0)))))))))"

lemma demo3_wf: "wf demo3"
  by code_simp

lemma demo3_healthy: "healthy_refs demo3 = [0, 1, 2]"
  by code_simp

lemma demo3_heap: "length (heap demo3) = 3"
  by code_simp

end
