(* ===== verification/RoundRobinSpec.thy ===== *)
theory RoundRobinSpec
  imports Prelude
begin

text \<open>
  The abstract contract of the selection, as section 4.4 of the specification words it:
  a pool of candidates in registration order and the previously selected one, if any.
  The lookup of the previous selection has an explicit optional result (\<open>position\<close>);
  when it is absent the first candidate is taken, otherwise the one after it, wrapping
  at the end. \<open>rr_picks n\<close> is the sequence of \<open>n\<close> consecutive selections from a
  pool that does not change.

  The lemmas give the selection in closed form for a pool without duplicates, and
  from it the rotation properties: \<open>n\<close> consecutive selections are the \<open>n\<close> candidates
  that follow the cursor, and every window of as many selections as the pool has
  members selects each member. The theory \<open>LoadBalancer\<close> proves that the code refines
  this contract.
\<close>

section \<open>The contract\<close>

fun position :: "'a \<Rightarrow> 'a list \<Rightarrow> nat option" where
  "position x [] = None"
| "position x (y # ys) = (if x = y then Some 0 else map_option Suc (position x ys))"

definition rr_next :: "'a list \<Rightarrow> 'a option \<Rightarrow> 'a option" where
  "rr_next pool prev =
     (if pool = [] then None
      else case Option.bind prev (\<lambda>p. position p pool) of
             None \<Rightarrow> Some (hd pool)
           | Some i \<Rightarrow> Some (pool ! (Suc i mod length pool)))"

definition rr_step :: "'a list \<times> 'a option \<Rightarrow> 'a option \<times> ('a list \<times> 'a option)" where
  "rr_step st =
     (case rr_next (fst st) (snd st) of
        None \<Rightarrow> (None, st)
      | Some x \<Rightarrow> (Some x, (fst st, Some x)))"

fun rr_picks :: "nat \<Rightarrow> 'a list \<Rightarrow> 'a option \<Rightarrow> 'a list" where
  "rr_picks 0 pool prev = []"
| "rr_picks (Suc n) pool prev =
     (case rr_next pool prev of None \<Rightarrow> [] | Some x \<Rightarrow> x # rr_picks n pool (Some x))"

section \<open>Looking up the previous selection\<close>

lemma position_None_iff [simp]: "position x xs = None \<longleftrightarrow> x \<notin> set xs"
  by (induction xs) auto

lemma position_absent: "x \<notin> set xs \<Longrightarrow> position x xs = None"
  by simp

lemma position_SomeD: "position x xs = Some i \<Longrightarrow> i < length xs \<and> xs ! i = x"
  by (induction xs arbitrary: i) (auto split: if_splits)

lemma position_Some_mem: "position x xs = Some i \<Longrightarrow> x \<in> set xs"
  by (metis position_None_iff option.distinct(1))

lemma position_nth: "distinct xs \<Longrightarrow> i < length xs \<Longrightarrow> position (xs ! i) xs = Some i"
proof (induction xs arbitrary: i)
  case Nil
  then show ?case by simp
next
  case (Cons x xs)
  show ?case
  proof (cases i)
    case 0
    then show ?thesis by simp
  next
    case (Suc j)
    with Cons.prems have "xs ! j \<in> set xs" "x \<notin> set xs" by simp_all
    then have "xs ! j \<noteq> x" by blast
    with Cons Suc show ?thesis by simp
  qed
qed

section \<open>One selection\<close>

lemma rr_next_empty [simp]: "rr_next [] prev = None"
  by (simp add: rr_next_def)

lemma rr_next_first:
  "pool \<noteq> [] \<Longrightarrow> prev = None \<or> the prev \<notin> set pool \<Longrightarrow> rr_next pool prev = Some (hd pool)"
  by (cases prev) (auto simp: rr_next_def position_absent)

lemma rr_next_nth:
  "distinct pool \<Longrightarrow> i < length pool \<Longrightarrow>
   rr_next pool (Some (pool ! i)) = Some (pool ! (Suc i mod length pool))"
  by (auto simp: rr_next_def position_nth)

lemma rr_next_index:
  assumes "pool \<noteq> []"
  obtains i where "i < length pool" and "rr_next pool prev = Some (pool ! i)"
proof (cases "Option.bind prev (\<lambda>p. position p pool)")
  case None
  with assms have "rr_next pool prev = Some (pool ! 0)"
    by (simp add: rr_next_def hd_conv_nth)
  with assms that [of 0] show ?thesis by simp
next
  case (Some i)
  with assms have "rr_next pool prev = Some (pool ! (Suc i mod length pool))"
    by (simp add: rr_next_def)
  with assms that [of "Suc i mod length pool"] show ?thesis by simp
qed

lemma rr_next_mem: "pool \<noteq> [] \<Longrightarrow> \<exists>x\<in>set pool. rr_next pool prev = Some x"
  by (erule rr_next_index [of pool prev]) auto

lemma rr_next_SomeD: "rr_next pool prev = Some x \<Longrightarrow> x \<in> set pool"
  using rr_next_mem [of pool prev] by (cases "pool = []") auto

section \<open>Consecutive selections\<close>

lemma rr_picks_empty [simp]: "rr_picks n [] prev = []"
  by (cases n) simp_all

lemma length_rr_picks [simp]: "pool \<noteq> [] \<Longrightarrow> length (rr_picks n pool prev) = n"
proof (induction n arbitrary: prev)
  case 0
  then show ?case by simp
next
  case (Suc n)
  from rr_next_mem [OF Suc.prems] obtain x where "rr_next pool prev = Some x" by blast
  with Suc show ?case by simp
qed

lemma rr_picks_subset: "set (rr_picks n pool prev) \<subseteq> set pool"
  by (induction n arbitrary: prev) (auto split: option.splits dest!: rr_next_SomeD [OF sym])

lemma rr_picks_from:
  assumes "distinct pool" and "i < length pool"
  shows "rr_picks n pool (Some (pool ! i)) =
         map (\<lambda>j. pool ! ((i + Suc j) mod length pool)) [0..<n]"
  using assms(2)
proof (induction n arbitrary: i)
  case 0
  then show ?case by simp
next
  case (Suc n)
  let ?K = "length pool"
  let ?i' = "Suc i mod ?K"
  from Suc.prems have "0 < ?K" by arith
  then have i': "?i' < ?K" by simp
  have shift: "Suc (?i' + j) mod ?K = Suc (Suc (i + j)) mod ?K" for j
    using mod_add_left_eq [of "Suc i" ?K "Suc j"] by simp
  have "rr_picks (Suc n) pool (Some (pool ! i)) = pool ! ?i' # rr_picks n pool (Some (pool ! ?i'))"
    using assms(1) Suc.prems by (simp add: rr_next_nth)
  also have "\<dots> = pool ! ?i' # map (\<lambda>j. pool ! ((i + Suc (Suc j)) mod ?K)) [0..<n]"
    by (simp add: Suc.IH [OF i'] shift)
  also have "\<dots> = map (\<lambda>j. pool ! ((i + Suc j) mod ?K)) (0 # map Suc [0..<n])"
    by (simp add: comp_def)
  also have "0 # map Suc [0..<n] = [0..<Suc n]"
    by (simp add: map_Suc_upt upt_conv_Cons)
  finally show ?case .
qed

lemma rr_picks_rotation:
  assumes "distinct pool" and "i < length pool" and "rr_next pool prev = Some (pool ! i)"
  shows "rr_picks n pool prev = map (\<lambda>j. pool ! ((i + j) mod length pool)) [0..<n]"
proof (cases n)
  case 0
  then show ?thesis by simp
next
  case (Suc m)
  have "rr_picks n pool prev = pool ! i # map (\<lambda>j. pool ! ((i + Suc j) mod length pool)) [0..<m]"
    using Suc assms(3) by (simp add: rr_picks_from [OF assms(1,2)])
  also have "\<dots> = map (\<lambda>j. pool ! ((i + j) mod length pool)) (0 # map Suc [0..<m])"
    using assms(2) by (simp add: comp_def)
  also have "0 # map Suc [0..<m] = [0..<n]"
    by (simp add: Suc map_Suc_upt upt_conv_Cons)
  finally show ?thesis .
qed

lemma residues_cover:
  assumes "i < K" and "m < (K::nat)"
  shows "\<exists>j<K. (i + j) mod K = m"
proof (intro exI conjI)
  show "(m + K - i) mod K < K" using assms by simp
  have "(i + (m + K - i) mod K) mod K = (i + (m + K - i)) mod K"
    by (simp add: mod_add_right_eq)
  also have "\<dots> = (m + K) mod K" using assms by simp
  also have "\<dots> = m" using assms by simp
  finally show "(i + (m + K - i) mod K) mod K = m" .
qed

lemma rr_picks_cover:
  assumes "distinct pool" and "pool \<noteq> []"
  shows "set (rr_picks (length pool) pool prev) = set pool"
proof
  show "set (rr_picks (length pool) pool prev) \<subseteq> set pool" by (rule rr_picks_subset)
next
  let ?K = "length pool"
  from assms(2) obtain i where i: "i < ?K" and nx: "rr_next pool prev = Some (pool ! i)"
    by (rule rr_next_index)
  have cf: "rr_picks n pool prev = map (\<lambda>j. pool ! ((i + j) mod ?K)) [0..<n]" for n
    by (rule rr_picks_rotation [OF assms(1) i nx])
  show "set pool \<subseteq> set (rr_picks ?K pool prev)"
  proof
    fix x assume "x \<in> set pool"
    then obtain m where m: "m < ?K" "pool ! m = x" by (auto simp: in_set_conv_nth)
    from residues_cover [OF i m(1)] obtain j where "j < ?K" "(i + j) mod ?K = m" by blast
    with m have "x \<in> (\<lambda>j. pool ! ((i + j) mod ?K)) ` {0..<?K}" by force
    then show "x \<in> set (rr_picks ?K pool prev)" by (simp add: cf)
  qed
qed

lemma rr_picks_add:
  "rr_picks (m + n) pool prev =
   rr_picks m pool prev @
   rr_picks n pool (if rr_picks m pool prev = [] then prev else Some (last (rr_picks m pool prev)))"
proof (induction m arbitrary: prev)
  case 0
  then show ?case by simp
next
  case (Suc m)
  show ?case
  proof (cases "rr_next pool prev")
    case None
    then have "pool = []" using rr_next_mem [of pool prev] by auto
    then show ?thesis by simp
  next
    case (Some x)
    then have "pool \<noteq> []" by auto
    then have "rr_picks m pool (Some x) = [] \<longleftrightarrow> m = 0"
      using length_rr_picks [of pool m "Some x"] by (metis length_0_conv)
    with Some Suc.IH [of "Some x"] show ?thesis by (cases m) auto
  qed
qed

lemma rr_picks_window:
  assumes "distinct pool" and "pool \<noteq> []"
  shows "set (take (length pool) (drop n (rr_picks (n + length pool) pool prev))) = set pool"
proof -
  let ?c = "if rr_picks n pool prev = [] then prev else Some (last (rr_picks n pool prev))"
  have "drop n (rr_picks (n + length pool) pool prev) = rr_picks (length pool) pool ?c"
    using assms(2) by (simp add: rr_picks_add [of n "length pool"])
  then show ?thesis
    using assms by (simp add: rr_picks_cover)
qed

end
