(* ===== verification/LoadBalancer.thy ===== *)
theory LoadBalancer
  imports Registry RoundRobinSpec
begin

text \<open>
  The front door of \<^verbatim>\<open>router-ha.js\<close>: \<^verbatim>\<open>getHealthyInstance\<close> (the round-robin selection
  over the healthy instances) and the request handler that \<^verbatim>\<open>startLoadBalancer\<close>
  installs, with its two completion callbacks.

  \<^item> \<open>getHealthyInstance\<close> follows the source line by line: the filtered list, the
    early return, \<^verbatim>\<open>findIndex(...) || 0\<close>, the remainder and the indexing. It returns
    the selected reference and the manager with the cursor updated.
  \<^item> \<open>handle_request\<close> is the synchronous part of the handler: it selects first, then
    answers 503, \<^verbatim>\<open>/health\<close> or \<^verbatim>\<open>/status\<close> itself or forwards the request
    (\<open>Forward\<close>); \<open>on_proxy_response\<close> and \<open>on_proxy_error\<close> are the callbacks of a
    forwarded request.
  \<^item> \<open>select_n\<close> runs \<open>n\<close> selections in a row with nothing else in between.

  The lemmas show that the selection refines \<open>rr_next\<close> of \<open>RoundRobinSpec\<close> (with the
  ids of the healthy instances as the pool), that it only returns healthy registered
  instances, the rotation over a stable healthy set, and what each branch of the
  handler answers.
\<close>

section \<open>Selection\<close>

definition id_of :: "manager \<Rightarrow> ref \<Rightarrow> string" where
  "id_of s r = instanceId (deref s r)"

definition cursor_id :: "manager \<Rightarrow> string option" where
  "cursor_id s = map_option (id_of s) (currentActiveInstance s)"

definition getHealthyInstance :: "manager \<Rightarrow> ref option \<times> manager" where
  "getHealthyInstance s =
     (let healthyInstances = healthy_refs s in
      if length healthyInstances = 0 then (None, s)
      else
        let currentIndex =
              js_or (findIndex (\<lambda>i. Some (id_of s i) = cursor_id s) healthyInstances) 0;
            nextIndex = (currentIndex + 1) smod int (length healthyInstances);
            chosen = at_index healthyInstances nextIndex
        in (chosen, s\<lparr>currentActiveInstance := chosen\<rparr>))"

fun select_n :: "nat \<Rightarrow> manager \<Rightarrow> ref list" where
  "select_n 0 s = []"
| "select_n (Suc n) s =
     (case getHealthyInstance s of
        (None, s') \<Rightarrow> []
      | (Some r, s') \<Rightarrow> r # select_n n s')"

section \<open>The request handler\<close>

record summary =
  s_id :: string
  s_healthy :: bool
  s_port :: jsnum
  s_restartCount :: nat

record detail = summary +
  d_uptime :: int
  d_lastHealthCheck :: "millis option"

datatype body =
    NoHealthyInstances "summary list"
  | HealthBody string nat nat
  | StatusBody string nat nat "detail list"
  | BadGateway string
  | Upstream

datatype reply =
    Reply nat body "string option"
  | Forward ref

definition summary_of :: "manager \<Rightarrow> ref \<Rightarrow> summary" where
  "summary_of s r =
     \<lparr>s_id = instanceId (deref s r), s_healthy = healthy (deref s r),
      s_port = port (deref s r), s_restartCount = restartCount (deref s r)\<rparr>"

definition detail_of :: "manager \<Rightarrow> ref \<Rightarrow> detail" where
  "detail_of s r =
     \<lparr>s_id = instanceId (deref s r), s_healthy = healthy (deref s r),
      s_port = port (deref s r), s_restartCount = restartCount (deref s r),
      d_uptime = int (now s) - int (startTime (deref s r)),
      d_lastHealthCheck = lastHealthCheck (deref s r)\<rparr>"

definition handle_request :: "string \<Rightarrow> manager \<Rightarrow> reply \<times> manager" where
  "handle_request url s =
     (case getHealthyInstance s of
        (None, s') \<Rightarrow>
          (Reply 503 (NoHealthyInstances (map (summary_of s') (value_refs s'))) None, s')
      | (Some inst, s') \<Rightarrow>
          if url = ''/health'' then
            (let healthyInstances = healthy_refs s';
                 isHealthy = (length healthyInstances > 0)
             in (Reply (if isHealthy then 200 else 503)
                   (HealthBody (if isHealthy then ''healthy'' else ''unhealthy'')
                      (length healthyInstances) (length (instances s'))) None, s'))
          else if url = ''/status'' then
            (let healthyInstances = healthy_refs s';
                 isHealthy = (length healthyInstances > 0)
             in (Reply 200
                   (StatusBody (if isHealthy then ''healthy'' else ''unhealthy'')
                      (length healthyInstances) (length (instances s'))
                      (map (detail_of s') (value_refs s'))) None, s'))
          else (Forward inst, s'))"

definition on_proxy_response :: "ref \<Rightarrow> nat \<Rightarrow> manager \<Rightarrow> reply \<times> manager" where
  "on_proxy_response inst statusCode s = (Reply statusCode Upstream (Some (id_of s inst)), s)"

definition on_proxy_error :: "ref \<Rightarrow> manager \<Rightarrow> reply \<times> manager" where
  "on_proxy_error inst s =
     (Reply 502 (BadGateway (id_of s inst)) None, update_inst inst (set_healthy False) s)"

lemmas lb_defs [op_defs] =
  id_of_def cursor_id_def getHealthyInstance_def summary_of_def detail_of_def
  handle_request_def on_proxy_response_def on_proxy_error_def
  findIndex_def js_or_def at_index_def signed_modulo_int_def

section \<open>The index arithmetic of the selection\<close>

lemma findIndexFrom_position:
  "findIndexFrom k (\<lambda>x. f x = c) xs =
     (case position c (map f xs) of None \<Rightarrow> - 1 | Some i \<Rightarrow> int k + int i)"
  by (induction xs arbitrary: k) (auto split: option.splits dest: position_Some_mem)

lemma findIndex_position:
  "findIndex (\<lambda>x. f x = c) xs = (case position c (map f xs) of None \<Rightarrow> - 1 | Some i \<Rightarrow> int i)"
  by (auto simp: findIndex_def findIndexFrom_position split: option.splits
        dest: position_Some_mem)

lemma findIndex_cursor:
  "findIndex (\<lambda>x. Some (f x) = cur) xs =
     (case Option.bind cur (\<lambda>c. position c (map f xs)) of None \<Rightarrow> - 1 | Some i \<Rightarrow> int i)"
proof (cases cur)
  case None
  then show ?thesis by (simp add: findIndex_none)
next
  case (Some c)
  then show ?thesis by (simp add: findIndex_position)
qed

lemma next_index_absent: "0 < K \<Longrightarrow> (js_or (- 1) 0 + 1) smod int K = 0"
  by simp

lemma next_index_found: "0 < K \<Longrightarrow> (js_or (int i) 0 + 1) smod int K = int (Suc i mod K)"
  by (simp add: zmod_int add.commute)

lemma chosen_by_index:
  assumes "hs \<noteq> []"
  shows "at_index hs ((js_or (findIndex (\<lambda>x. Some (f x) = cur) hs) 0 + 1) smod int (length hs)) =
     (case Option.bind cur (\<lambda>c. position c (map f hs)) of
        None \<Rightarrow> Some (hd hs)
      | Some i \<Rightarrow> Some (hs ! (Suc i mod length hs)))"
proof (cases "Option.bind cur (\<lambda>c. position c (map f hs))")
  case None
  with assms show ?thesis
    using next_index_absent [of "length hs"] at_index_nat [of 0 hs]
    by (simp add: findIndex_cursor hd_conv_nth del: js_or_zero)
next
  case (Some i)
  from assms have "Suc i mod length hs < length hs" by simp
  with Some assms show ?thesis
    using next_index_found [of "length hs" i]
    by (simp add: findIndex_cursor del: js_or_zero)
qed

section \<open>What one selection returns\<close>

lemma getHealthyInstance_none:
  "healthy_refs s = [] \<Longrightarrow> getHealthyInstance s = (None, s)"
  by (simp add: getHealthyInstance_def)

lemma getHealthyInstance_some:
  assumes "healthy_refs s \<noteq> []"
  shows "getHealthyInstance s =
     (let chosen = (case Option.bind (cursor_id s)
                           (\<lambda>c. position c (map (id_of s) (healthy_refs s))) of
                      None \<Rightarrow> Some (hd (healthy_refs s))
                    | Some i \<Rightarrow> Some (healthy_refs s ! (Suc i mod length (healthy_refs s))))
      in (chosen, s\<lparr>currentActiveInstance := chosen\<rparr>))"
  using assms by (simp add: getHealthyInstance_def Let_def chosen_by_index del: js_or_zero)

lemma getHealthyInstance_index:
  assumes "healthy_refs s \<noteq> []"
  obtains i where "i < length (healthy_refs s)"
    and "getHealthyInstance s =
           (Some (healthy_refs s ! i), s\<lparr>currentActiveInstance := Some (healthy_refs s ! i)\<rparr>)"
proof (cases "Option.bind (cursor_id s) (\<lambda>c. position c (map (id_of s) (healthy_refs s)))")
  case None
  with assms that [of 0] show ?thesis
    by (simp add: getHealthyInstance_some hd_conv_nth Let_def)
next
  case (Some j)
  with assms that [of "Suc j mod length (healthy_refs s)"] show ?thesis
    by (simp add: getHealthyInstance_some Let_def)
qed

lemma getHealthyInstance_None_iff:
  "fst (getHealthyInstance s) = None \<longleftrightarrow> healthy_refs s = []"
proof
  assume none: "fst (getHealthyInstance s) = None"
  show "healthy_refs s = []"
  proof (rule ccontr)
    assume "healthy_refs s \<noteq> []"
    then obtain i where "fst (getHealthyInstance s) = Some (healthy_refs s ! i)"
      by (rule getHealthyInstance_index) simp
    with none show False by simp
  qed
next
  assume "healthy_refs s = []"
  then show "fst (getHealthyInstance s) = None" by (simp add: getHealthyInstance_none)
qed

lemma getHealthyInstance_state:
  "snd (getHealthyInstance s) =
     (if healthy_refs s = [] then s
      else s\<lparr>currentActiveInstance := fst (getHealthyInstance s)\<rparr>)"
  by (simp add: getHealthyInstance_def Let_def)

lemma getHealthyInstance_mem:
  assumes "fst (getHealthyInstance s) = Some r"
  shows "r \<in> set (healthy_refs s)"
proof (cases "healthy_refs s = []")
  case True
  with assms show ?thesis by (simp add: getHealthyInstance_none)
next
  case False
  then obtain i where "i < length (healthy_refs s)"
    and "fst (getHealthyInstance s) = Some (healthy_refs s ! i)"
    by (rule getHealthyInstance_index) simp
  with assms show ?thesis by auto
qed

lemma getHealthyInstance_frame [simp, frame]:
  "heap (snd (getHealthyInstance s)) = heap s"
  "instances (snd (getHealthyInstance s)) = instances s"
  "isShuttingDown (snd (getHealthyInstance s)) = isShuttingDown s"
  "healthCheckInterval (snd (getHealthyInstance s)) = healthCheckInterval s"
  "now (snd (getHealthyInstance s)) = now s"
  "timers (snd (getHealthyInstance s)) = timers s"
  "console (snd (getHealthyInstance s)) = console s"
  "exitCode (snd (getHealthyInstance s)) = exitCode s"
  "handlers (snd (getHealthyInstance s)) = handlers s"
  "listening (snd (getHealthyInstance s)) = listening s"
  by (simp_all add: getHealthyInstance_state)

lemma getHealthyInstance_views [simp, frame]:
  "deref (snd (getHealthyInstance s)) = deref s"
  "id_of (snd (getHealthyInstance s)) = id_of s"
  "value_refs (snd (getHealthyInstance s)) = value_refs s"
  "healthy_refs (snd (getHealthyInstance s)) = healthy_refs s"
  by (simp_all add: fun_eq_iff deref_def id_of_def value_refs_def healthy_refs_def)

lemma cursor_after_selection:
  "healthy_refs s \<noteq> [] \<Longrightarrow>
   currentActiveInstance (snd (getHealthyInstance s)) = fst (getHealthyInstance s)"
  by (simp add: getHealthyInstance_state)

lemma wf_getHealthyInstance [wf_keep]:
  assumes "wf s"
  shows "wf (snd (getHealthyInstance s))"
proof (cases "healthy_refs s = []")
  case True
  with assms show ?thesis by (simp add: getHealthyInstance_none)
next
  case False
  then obtain i where i: "i < length (healthy_refs s)"
    and eq: "getHealthyInstance s =
      (Some (healthy_refs s ! i), s\<lparr>currentActiveInstance := Some (healthy_refs s ! i)\<rparr>)"
    by (rule getHealthyInstance_index)
  from i assms have "healthy_refs s ! i < length (heap s)"
    by (simp add: healthy_refs_valid)
  with assms eq show ?thesis by (simp add: wf_cursor)
qed

section \<open>Refinement of the round-robin contract\<close>

definition rr_abs :: "manager \<Rightarrow> string list \<times> string option" where
  "rr_abs s = (map (id_of s) (healthy_refs s), cursor_id s)"

lemma selection_refines_rr_next:
  "map_option (id_of s) (fst (getHealthyInstance s)) =
   rr_next (map (id_of s) (healthy_refs s)) (cursor_id s)"
proof (cases "healthy_refs s = []")
  case True
  then show ?thesis by (simp add: getHealthyInstance_none)
next
  case False
  show ?thesis
  proof (cases "Option.bind (cursor_id s) (\<lambda>c. position c (map (id_of s) (healthy_refs s)))")
    case None
    with False show ?thesis
      by (simp add: getHealthyInstance_some rr_next_def Let_def hd_map)
  next
    case (Some i)
    from False have "Suc i mod length (healthy_refs s) < length (healthy_refs s)" by simp
    with False Some show ?thesis
      by (simp add: getHealthyInstance_some rr_next_def Let_def)
  qed
qed

lemma cursor_id_after_selection:
  "cursor_id (snd (getHealthyInstance s)) =
     (if healthy_refs s = [] then cursor_id s
      else map_option (id_of s) (fst (getHealthyInstance s)))"
proof (cases "healthy_refs s = []")
  case True
  then show ?thesis by (simp add: getHealthyInstance_none)
next
  case False
  then show ?thesis by (simp add: cursor_id_def cursor_after_selection)
qed

lemma select_n_Suc:
  "select_n (Suc n) s =
     (case fst (getHealthyInstance s) of
        None \<Rightarrow> []
      | Some r \<Rightarrow> r # select_n n (snd (getHealthyInstance s)))"
  by (cases "getHealthyInstance s") (simp split: option.splits)

lemma select_n_refines_rr_picks:
  "map (id_of s) (select_n n s) = rr_picks n (map (id_of s) (healthy_refs s)) (cursor_id s)"
proof (induction n arbitrary: s)
  case 0
  then show ?case by simp
next
  case (Suc n)
  let ?t = "snd (getHealthyInstance s)"
  show ?case
  proof (cases "fst (getHealthyInstance s)")
    case None
    with selection_refines_rr_next [of s] show ?thesis
      by (simp add: select_n_Suc del: select_n.simps)
  next
    case (Some r)
    then have ne: "healthy_refs s \<noteq> []"
      by (auto simp: getHealthyInstance_none)
    from Some selection_refines_rr_next [of s]
    have nx: "rr_next (map (id_of s) (healthy_refs s)) (cursor_id s) = Some (id_of s r)"
      by simp
    from ne Some have cur: "cursor_id ?t = Some (id_of s r)"
      by (simp add: cursor_id_after_selection)
    from Suc.IH [of ?t] cur
    have "map (id_of s) (select_n n ?t) =
        rr_picks n (map (id_of s) (healthy_refs s)) (Some (id_of s r))"
      by simp
    with Some nx show ?thesis
      by (simp add: select_n_Suc del: select_n.simps)
  qed
qed

lemma select_n_subset: "set (select_n n s) \<subseteq> set (healthy_refs s)"
proof (induction n arbitrary: s)
  case 0
  then show ?case by simp
next
  case (Suc n)
  from Suc.IH [of "snd (getHealthyInstance s)"] show ?case
    by (auto simp: select_n_Suc simp del: select_n.simps split: option.splits
        dest: getHealthyInstance_mem [OF sym])
qed

lemma id_of_inj_on_healthy: "wf s \<Longrightarrow> inj_on (id_of s) (set (healthy_refs s))"
proof -
  assume "wf s"
  then have "inj_on (\<lambda>r. instanceId (deref s r)) (set (healthy_refs s))"
    using distinct_healthy_ids [of s] by (simp add: distinct_map)
  moreover have "id_of s = (\<lambda>r. instanceId (deref s r))"
    by (simp add: fun_eq_iff id_of_def)
  ultimately show ?thesis by simp
qed

text \<open>
  The selections from a stable healthy set, in closed form: when the abstract round
  robin starts at the \<open>i\<close>-th healthy instance, \<open>n\<close> consecutive selections return the
  healthy instances from the \<open>i\<close>-th on, cyclically.
\<close>

lemma select_n_rotation:
  assumes "wf s" and "i < length (healthy_refs s)"
    and "rr_next (map (id_of s) (healthy_refs s)) (cursor_id s) = Some (id_of s (healthy_refs s ! i))"
  shows "select_n n s = map (\<lambda>j. healthy_refs s ! ((i + j) mod length (healthy_refs s))) [0..<n]"
proof (rule inj_on_map_eq_map [THEN iffD1])
  let ?hs = "healthy_refs s" and ?f = "id_of s"
  let ?ids = "map ?f ?hs"
  have dist: "distinct ?ids"
    using assms(1) distinct_healthy_ids [of s] by (simp add: id_of_def [abs_def])
  from assms(2) have "0 < length ?hs" by (cases ?hs) simp_all
  then have lt: "(i + j) mod length ?hs < length ?hs" for j by (rule mod_less_divisor)
  then have mem: "?hs ! ((i + j) mod length ?hs) \<in> set ?hs" for j by simp
  show "inj_on ?f (set (select_n n s) \<union> set (map (\<lambda>j. ?hs ! ((i + j) mod length ?hs)) [0..<n]))"
  proof (rule inj_on_subset [OF id_of_inj_on_healthy [OF assms(1)]])
    from mem select_n_subset [of n s]
    show "set (select_n n s) \<union> set (map (\<lambda>j. ?hs ! ((i + j) mod length ?hs)) [0..<n])
        \<subseteq> set ?hs"
      by auto
  qed
  have "map ?f (select_n n s) = rr_picks n ?ids (cursor_id s)"
    by (rule select_n_refines_rr_picks)
  also have "\<dots> = map (\<lambda>j. ?ids ! ((i + j) mod length ?ids)) [0..<n]"
    using assms(2,3) by (intro rr_picks_rotation [OF dist]) simp_all
  also have "\<dots> = map ?f (map (\<lambda>j. ?hs ! ((i + j) mod length ?hs)) [0..<n])"
    using lt by (simp add: comp_def)
  finally show "map ?f (select_n n s) =
      map ?f (map (\<lambda>j. ?hs ! ((i + j) mod length ?hs)) [0..<n])" .
qed

section \<open>Properties of the selection\<close>

text \<open>
  \<^bold>\<open>C1\<close> (refinement). One call of \<^verbatim>\<open>getHealthyInstance\<close> is one step of the abstract
  round robin of section 4.4 of the specification: under the abstraction \<open>rr_abs\<close>
  (the ids of the healthy instances in registration order, and the id of the cursor
  object) the id of the returned instance and the new abstract state are those of
  \<open>rr_step\<close>. The code's \<^verbatim>\<open>findIndex(...) || 0\<close> therefore behaves as the explicit
  optional lookup the specification asks for; no well-formedness is needed.
\<close>

theorem selection_simulates_rr_step:
  "(map_option (id_of s) (fst (getHealthyInstance s)), rr_abs (snd (getHealthyInstance s))) =
   rr_step (rr_abs s)"
proof (cases "fst (getHealthyInstance s)")
  case None
  then have "healthy_refs s = []" by (simp add: getHealthyInstance_None_iff)
  then show ?thesis
    by (simp add: rr_step_def rr_abs_def getHealthyInstance_none)
next
  case (Some r)
  then have ne: "healthy_refs s \<noteq> []" by (auto simp: getHealthyInstance_none)
  from Some selection_refines_rr_next [of s]
  have "rr_next (map (id_of s) (healthy_refs s)) (cursor_id s) = Some (id_of s r)"
    by simp
  with Some ne show ?thesis
    by (simp add: rr_step_def rr_abs_def cursor_id_after_selection)
qed

theorem selection_simulates_rr_step_witness:
  "(map_option (id_of demo3) (fst (getHealthyInstance demo3)),
    rr_abs (snd (getHealthyInstance demo3))) =
   (Some ''router-0'', ([''router-0'', ''router-1'', ''router-2''], Some ''router-0''))"
proof -
  have "rr_step (rr_abs demo3) =
      (Some ''router-0'', ([''router-0'', ''router-1'', ''router-2''], Some ''router-0''))"
    by code_simp
  with selection_simulates_rr_step [of demo3] show ?thesis by simp
qed

text \<open>
  \<^bold>\<open>C2\<close> (functional). Rotation over a stable healthy set: in a well-formed registry
  with \<open>K \<ge> 1\<close> healthy instances, \<open>n\<close> consecutive selections return the healthy
  instances in registration order, cyclically, starting at one position \<open>i\<close> that
  does not depend on \<open>n\<close>. Hence no healthy instance is passed over and none is
  returned twice before all others have been returned.
\<close>

theorem rotation_closed_form:
  assumes "wf s" and "healthy_refs s \<noteq> []"
  shows "\<exists>i<length (healthy_refs s). \<forall>n.
     select_n n s = map (\<lambda>j. healthy_refs s ! ((i + j) mod length (healthy_refs s))) [0..<n]"
proof -
  let ?ids = "map (id_of s) (healthy_refs s)"
  from assms(2) have "?ids \<noteq> []" by simp
  then obtain i where i: "i < length ?ids" and nx: "rr_next ?ids (cursor_id s) = Some (?ids ! i)"
    by (rule rr_next_index)
  from i have "i < length (healthy_refs s)" by simp
  moreover from i nx have "\<forall>n. select_n n s =
      map (\<lambda>j. healthy_refs s ! ((i + j) mod length (healthy_refs s))) [0..<n]"
    by (intro allI select_n_rotation [OF assms(1)]) simp_all
  ultimately show ?thesis by blast
qed

theorem rotation_closed_form_witness:
  "wf demo3 \<and> healthy_refs demo3 \<noteq> [] \<and>
   (\<exists>i<length (healthy_refs demo3). \<forall>n.
      select_n n demo3 =
      map (\<lambda>j. healthy_refs demo3 ! ((i + j) mod length (healthy_refs demo3))) [0..<n])"
proof (intro conjI)
  show "wf demo3" by (rule demo3_wf)
  show ne: "healthy_refs demo3 \<noteq> []" by (simp add: demo3_healthy)
  show "\<exists>i<length (healthy_refs demo3). \<forall>n.
      select_n n demo3 =
      map (\<lambda>j. healthy_refs demo3 ! ((i + j) mod length (healthy_refs demo3))) [0..<n]"
    by (rule rotation_closed_form [OF demo3_wf ne])
qed

lemma demo3_seven_selections: "select_n 7 demo3 = [0, 1, 2, 0, 1, 2, 0]"
  by code_simp

text \<open>
  \<^bold>\<open>C10\<close> (functional). Both branches of \<^verbatim>\<open>getHealthyInstance\<close>: with no healthy
  instance it returns \<^verbatim>\<open>null\<close> and leaves the manager as it is (the cursor is not
  reset); otherwise it returns exactly one instance, which is registered and healthy,
  and stores it as the cursor.
\<close>

theorem selection_sound_total:
  "(healthy_refs s = [] \<longrightarrow> getHealthyInstance s = (None, s)) \<and>
   (healthy_refs s \<noteq> [] \<longrightarrow>
      (\<exists>r. getHealthyInstance s = (Some r, s\<lparr>currentActiveInstance := Some r\<rparr>) \<and>
           r \<in> set (value_refs s) \<and> healthy (deref s r)))"
proof (intro conjI impI)
  assume "healthy_refs s = []"
  then show "getHealthyInstance s = (None, s)" by (rule getHealthyInstance_none)
next
  assume "healthy_refs s \<noteq> []"
  then obtain i where i: "i < length (healthy_refs s)"
    and eq: "getHealthyInstance s =
      (Some (healthy_refs s ! i), s\<lparr>currentActiveInstance := Some (healthy_refs s ! i)\<rparr>)"
    by (rule getHealthyInstance_index)
  from i have "healthy_refs s ! i \<in> set (healthy_refs s)" by simp
  with eq healthy_refs_subset [of s] healthy_refs_healthy [of "healthy_refs s ! i" s]
  show "\<exists>r. getHealthyInstance s = (Some r, s\<lparr>currentActiveInstance := Some r\<rparr>) \<and>
           r \<in> set (value_refs s) \<and> healthy (deref s r)"
    by blast
qed

theorem selection_sound_total_witness:
  "healthy_refs demo3 \<noteq> [] \<and>
   (\<exists>r. getHealthyInstance demo3 = (Some r, demo3\<lparr>currentActiveInstance := Some r\<rparr>) \<and>
        r \<in> set (value_refs demo3) \<and> healthy (deref demo3 r)) \<and>
   healthy_refs (new_manager 0) = [] \<and>
   getHealthyInstance (new_manager 0) = (None, new_manager 0)"
proof -
  have a: "healthy_refs demo3 \<noteq> []" by (simp add: demo3_healthy)
  have b: "healthy_refs (new_manager 0) = []" by code_simp
  from selection_sound_total [of demo3] selection_sound_total [of "new_manager 0"] a b
  show ?thesis by blast
qed

text \<open>
  \<^bold>\<open>C35\<close> (safety). An instance whose health flag has just been cleared is not
  returned by the very next selection, whether or not it is the cursor: the selection
  reads the flags at the time of the call.
\<close>

theorem unhealthy_not_selected:
  assumes "r < length (heap s)"
  shows "fst (getHealthyInstance (update_inst r (set_healthy False) s)) \<noteq> Some r"
proof
  let ?t = "update_inst r (set_healthy False) s"
  assume "fst (getHealthyInstance ?t) = Some r"
  then have "r \<in> set (healthy_refs ?t)" by (rule getHealthyInstance_mem)
  then have "healthy (deref ?t r)" by (rule healthy_refs_healthy)
  with assms show False by simp
qed

theorem unhealthy_not_selected_witness:
  "(0::nat) < length (heap demo3) \<and>
   fst (getHealthyInstance demo3) = Some 0 \<and>
   fst (getHealthyInstance (update_inst 0 (set_healthy False) demo3)) \<noteq> Some 0"
proof -
  have a: "(0::nat) < length (heap demo3)" by (simp add: demo3_heap)
  have b: "fst (getHealthyInstance demo3) = Some 0" by code_simp
  from unhealthy_not_selected [OF a] a b show ?thesis by simp
qed

text \<open>
  \<^bold>\<open>C16\<close> (error). Fast failure: the \<^verbatim>\<open>error\<close> handler of a forwarded request answers
  502 naming the instance and clears its health flag at once, so that the healthy list
  is the previous one without it and the next selection cannot return it.
\<close>

theorem proxy_error_fast_fail:
  assumes "r < length (heap s)"
  shows "fst (on_proxy_error r s) = Reply 502 (BadGateway (id_of s r)) None \<and>
         \<not> healthy (deref (snd (on_proxy_error r s)) r) \<and>
         healthy_refs (snd (on_proxy_error r s)) = removeAll r (healthy_refs s) \<and>
         fst (getHealthyInstance (snd (on_proxy_error r s))) \<noteq> Some r"
proof -
  have "snd (on_proxy_error r s) = update_inst r (set_healthy False) s"
    by (simp add: on_proxy_error_def)
  moreover have "fst (getHealthyInstance (update_inst r (set_healthy False) s)) \<noteq> Some r"
  proof
    assume "fst (getHealthyInstance (update_inst r (set_healthy False) s)) = Some r"
    then have "healthy (deref (update_inst r (set_healthy False) s) r)"
      by (blast dest: getHealthyInstance_mem healthy_refs_healthy)
    with assms show False by simp
  qed
  ultimately show ?thesis
    using assms by (simp add: on_proxy_error_def healthy_refs_mark_unhealthy)
qed

theorem proxy_error_fast_fail_witness:
  "(1::nat) < length (heap demo3) \<and>
   fst (on_proxy_error 1 demo3) = Reply 502 (BadGateway ''router-1'') None \<and>
   healthy_refs (snd (on_proxy_error 1 demo3)) = [0, 2] \<and>
   fst (getHealthyInstance (snd (on_proxy_error 1 demo3))) \<noteq> Some 1"
proof -
  have a: "(1::nat) < length (heap demo3)" by (simp add: demo3_heap)
  have b: "id_of demo3 1 = ''router-1''" by code_simp
  from proxy_error_fast_fail [OF a] a b show ?thesis by (simp add: demo3_healthy)
qed

section \<open>Properties of the request handler\<close>

lemma handle_request_cases:
  "handle_request url s =
     (case fst (getHealthyInstance s) of
        None \<Rightarrow> (Reply 503
                  (NoHealthyInstances (map (summary_of s) (value_refs s))) None, s)
      | Some inst \<Rightarrow>
          (if url = ''/health'' then
             Reply 200 (HealthBody ''healthy'' (length (healthy_refs s)) (length (instances s))) None
           else if url = ''/status'' then
             Reply 200 (StatusBody ''healthy'' (length (healthy_refs s)) (length (instances s))
                (map (detail_of (snd (getHealthyInstance s))) (value_refs s))) None
           else Forward inst,
           snd (getHealthyInstance s)))"
proof (cases "fst (getHealthyInstance s)")
  case None
  then have "healthy_refs s = []" by (simp add: getHealthyInstance_None_iff)
  then show ?thesis
    by (simp add: handle_request_def getHealthyInstance_none)
next
  case (Some r)
  then have "healthy_refs s \<noteq> []" by (auto simp: getHealthyInstance_none)
  with Some show ?thesis
    by (simp add: handle_request_def case_prod_unfold Let_def)
qed

lemma snd_handle_request: "snd (handle_request url s) = snd (getHealthyInstance s)"
  by (cases "fst (getHealthyInstance s)")
     (auto simp: handle_request_cases getHealthyInstance_None_iff getHealthyInstance_none)

lemma wf_handle_request [simp, wf_keep]: "wf s \<Longrightarrow> wf (snd (handle_request url s))"
  by (simp add: snd_handle_request wf_getHealthyInstance)

lemma wf_on_proxy_error [simp, wf_keep]: "wf s \<Longrightarrow> wf (snd (on_proxy_error r s))"
  by (simp add: on_proxy_error_def)

text \<open>
  \<^bold>\<open>C33\<close> (error). With no healthy instance every request, whatever its path, is
  answered 503 with one entry per registered instance, in registration order, each
  carrying the id, health flag, port and restart count of that instance; the manager is
  unchanged.
\<close>

theorem no_healthy_instance_503:
  assumes "healthy_refs s = []"
  shows "\<exists>listing. handle_request url s = (Reply 503 (NoHealthyInstances listing) None, s) \<and>
           length listing = length (instances s) \<and>
           map s_id listing = map (id_of s) (value_refs s) \<and>
           (\<forall>e\<in>set listing. \<not> s_healthy e)"
proof -
  let ?l = "map (summary_of s) (value_refs s)"
  from assms have none: "fst (getHealthyInstance s) = None"
    by (simp add: getHealthyInstance_none)
  then have "handle_request url s = (Reply 503 (NoHealthyInstances ?l) None, s)"
    by (simp add: handle_request_cases)
  moreover have "length ?l = length (instances s)"
    by (simp add: value_refs_def)
  moreover have "map s_id ?l = map (id_of s) (value_refs s)"
    by (simp add: summary_of_def id_of_def)
  moreover from assms have "\<forall>e\<in>set ?l. \<not> s_healthy e"
    by (auto simp: healthy_refs_def filter_empty_conv summary_of_def)
  ultimately show ?thesis by blast
qed

theorem no_healthy_instance_503_witness:
  "healthy_refs (update_inst 0 (set_healthy False)
      (snd (register (new_instance ''router-0'' None (Num 3100) (new_child [] True) 0) (new_manager 0)))) = [] \<and>
   handle_request ''/v1/chat/completions'' (update_inst 0 (set_healthy False)
      (snd (register (new_instance ''router-0'' None (Num 3100) (new_child [] True) 0) (new_manager 0)))) =
   (Reply 503 (NoHealthyInstances
      [\<lparr>s_id = ''router-0'', s_healthy = False, s_port = Num 3100, s_restartCount = 0\<rparr>]) None,
    update_inst 0 (set_healthy False)
      (snd (register (new_instance ''router-0'' None (Num 3100) (new_child [] True) 0) (new_manager 0))))"
proof -
  let ?s = "update_inst 0 (set_healthy False)
      (snd (register (new_instance ''router-0'' None (Num 3100) (new_child [] True) 0) (new_manager 0)))"
  have a: "healthy_refs ?s = []" by code_simp
  have b: "map (summary_of ?s) (value_refs ?s) =
      [\<lparr>s_id = ''router-0'', s_healthy = False, s_port = Num 3100, s_restartCount = 0\<rparr>]"
    by code_simp
  from no_healthy_instance_503 [OF a, of "''/v1/chat/completions''"]
  obtain listing where
    "handle_request ''/v1/chat/completions'' ?s = (Reply 503 (NoHealthyInstances listing) None, ?s)"
    by blast
  moreover have "handle_request ''/v1/chat/completions'' ?s =
      (Reply 503 (NoHealthyInstances (map (summary_of ?s) (value_refs ?s))) None, ?s)"
    using a by (simp add: handle_request_cases getHealthyInstance_none)
  ultimately show ?thesis using a b by simp
qed

text \<open>
  \<^bold>\<open>C34\<close> (functional). A request for any path other than \<^verbatim>\<open>/health\<close> and
  \<^verbatim>\<open>/status\<close> is forwarded, when some instance is healthy, to the instance the
  selection returns: a healthy registered instance, which becomes the cursor. Nothing
  else in the manager changes.
\<close>

theorem forward_to_selected:
  assumes "url \<noteq> ''/health''" and "url \<noteq> ''/status''" and "healthy_refs s \<noteq> []"
  shows "\<exists>r\<in>set (healthy_refs s).
           handle_request url s = (Forward r, s\<lparr>currentActiveInstance := Some r\<rparr>)"
proof -
  from assms(3) obtain i where i: "i < length (healthy_refs s)"
    and eq: "getHealthyInstance s =
      (Some (healthy_refs s ! i), s\<lparr>currentActiveInstance := Some (healthy_refs s ! i)\<rparr>)"
    by (rule getHealthyInstance_index)
  from eq assms(1,2) have "handle_request url s =
      (Forward (healthy_refs s ! i), s\<lparr>currentActiveInstance := Some (healthy_refs s ! i)\<rparr>)"
    by (simp add: handle_request_cases)
  with i show ?thesis by auto
qed

theorem forward_to_selected_witness:
  "''/v1/models'' \<noteq> ''/health'' \<and> ''/v1/models'' \<noteq> ''/status'' \<and> healthy_refs demo3 \<noteq> [] \<and>
   (\<exists>r\<in>set (healthy_refs demo3).
      handle_request ''/v1/models'' demo3 = (Forward r, demo3\<lparr>currentActiveInstance := Some r\<rparr>))"
proof -
  have a: "''/v1/models'' \<noteq> ''/health''" and b: "''/v1/models'' \<noteq> ''/status''" by simp_all
  have c: "healthy_refs demo3 \<noteq> []" by (simp add: demo3_healthy)
  from forward_to_selected [OF a b c] a b c show ?thesis by blast
qed

text \<open>
  \<^bold>\<open>C17\<close> (functional). The introspection paths go through the selection first, as the
  source is written: a \<^verbatim>\<open>/health\<close> request moves the round-robin cursor exactly as a
  forwarded request does; when no instance is healthy it is answered by the generic
  503 listing; and in no state does it produce the body with status \<^verbatim>\<open>unhealthy\<close>.
  When some instance is healthy the answer is 200 with the number of healthy and of
  registered instances.
\<close>

theorem health_endpoint_after_selection:
  "snd (handle_request ''/health'' s) = snd (getHealthyInstance s) \<and>
   (healthy_refs s = [] \<longrightarrow>
      fst (handle_request ''/health'' s) =
        Reply 503 (NoHealthyInstances (map (summary_of s) (value_refs s))) None) \<and>
   (healthy_refs s \<noteq> [] \<longrightarrow>
      fst (handle_request ''/health'' s) =
        Reply 200 (HealthBody ''healthy'' (length (healthy_refs s)) (length (instances s))) None) \<and>
   fst (handle_request ''/health'' s) \<noteq> Reply c (HealthBody ''unhealthy'' a t) h"
proof (cases "fst (getHealthyInstance s)")
  case None
  then have "healthy_refs s = []" by (simp add: getHealthyInstance_None_iff)
  with None show ?thesis
    by (simp add: handle_request_cases getHealthyInstance_none)
next
  case (Some r)
  then have "healthy_refs s \<noteq> []" by (auto simp: getHealthyInstance_none)
  with Some show ?thesis by (simp add: handle_request_cases)
qed

theorem health_endpoint_after_selection_witness:
  "handle_request ''/health'' demo3 =
     (Reply 200 (HealthBody ''healthy'' 3 3) None, demo3\<lparr>currentActiveInstance := Some 0\<rparr>) \<and>
   currentActiveInstance demo3 = None"
proof -
  have a: "healthy_refs demo3 \<noteq> []" by (simp add: demo3_healthy)
  have b: "snd (getHealthyInstance demo3) = demo3\<lparr>currentActiveInstance := Some 0\<rparr>"
    by code_simp
  have c: "length (instances demo3) = 3" and d: "currentActiveInstance demo3 = None"
    by code_simp+
  from health_endpoint_after_selection [of demo3] a b c d show ?thesis
    by (cases "handle_request ''/health'' demo3") (simp add: demo3_healthy)
qed

end
