(* ===== verification/HealthMonitor.thy ===== *)
theory HealthMonitor
  imports Registry
begin

text \<open>
  The health monitor of \<^verbatim>\<open>router-ha.js\<close>: \<^verbatim>\<open>checkInstanceHealth\<close>, the periodic pass
  of \<^verbatim>\<open>startHealthCheck\<close> and the readiness gate \<^verbatim>\<open>waitForInstanceReady\<close>.

  A probe is an HTTP request to the worker; what comes back is decided outside the
  program. The model takes it as an input: a \<open>probe_outcome\<close> (a response with its
  status code, a transport error, or the 5 s timeout) together with the time the probe
  took. \<open>checkInstanceHealth\<close> is the source's mapping of the outcome to a boolean.

  \<^item> \<open>health_pass\<close> is one pass of the \<^verbatim>\<open>for\<close> loop of the interval callback, for one
    entry of the \<^verbatim>\<open>Map\<close>; \<open>healthCheckTick\<close> is the whole callback run without
    interleaving, a fold over the entries in insertion order.
  \<^item> \<open>waitLoop\<close> is the \<^verbatim>\<open>while\<close> loop of \<^verbatim>\<open>waitForInstanceReady\<close>. The clock advances by
    the duration of each probe and by the 1000 ms sleep, so the distance to the
    deadline is a measure and the loop is a total function. The assignment
    \<^verbatim>\<open>this.instances.get(instanceId).healthy = true\<close> raises a \<^verbatim>\<open>TypeError\<close> when the id is
    not registered; the result type has this case.
\<close>

section \<open>Probes\<close>

datatype probe_outcome = Response nat | RequestError | RequestTimeout

definition checkInstanceHealth :: "probe_outcome \<Rightarrow> bool" where
  "checkInstanceHealth out =
     (case out of Response statusCode \<Rightarrow> statusCode = 200
      | RequestError \<Rightarrow> False
      | RequestTimeout \<Rightarrow> False)"

definition HEALTH_CHECK_INTERVAL :: millis where
  "HEALTH_CHECK_INTERVAL = 30000"

definition PROBE_TIMEOUT :: millis where
  "PROBE_TIMEOUT = 5000"

section \<open>The periodic health check\<close>

type_synonym network = "jsnum \<Rightarrow> probe_outcome \<times> millis"

definition startHealthCheck :: "manager \<Rightarrow> manager" where
  "startHealthCheck s = s\<lparr>healthCheckInterval := Some True\<rparr>"

definition record_probe :: "bool \<Rightarrow> millis \<Rightarrow> inst \<Rightarrow> inst" where
  "record_probe h t i = i\<lparr>healthy := h, lastHealthCheck := Some t\<rparr>"

definition health_pass :: "network \<Rightarrow> string \<times> ref \<Rightarrow> manager \<Rightarrow> manager" where
  "health_pass net e s =
     (let instanceId' = fst e; r = snd e;
          wasHealthy = healthy (deref s r);
          (out, d) = net (port (deref s r));
          s1 = s\<lparr>now := now s + d\<rparr>;
          s2 = update_inst r (record_probe (checkInstanceHealth out) (now s1)) s1
      in if wasHealthy \<and> \<not> healthy (deref s2 r)
         then s2\<lparr>console := console s2 @ [BecameUnhealthy instanceId']\<rparr>
         else if \<not> wasHealthy \<and> healthy (deref s2 r)
         then s2\<lparr>console := console s2 @ [Recovered instanceId']\<rparr>
         else s2)"

definition healthCheckTick :: "network \<Rightarrow> manager \<Rightarrow> manager" where
  "healthCheckTick net s = fold (health_pass net) (instances s) s"

section \<open>The readiness gate\<close>

datatype wait_result = Returned bool | TypeError

type_synonym probes = "nat \<Rightarrow> probe_outcome \<times> millis"

definition mark_ready :: "string \<Rightarrow> manager \<Rightarrow> manager option" where
  "mark_ready instanceId' s =
     (case map_get s instanceId' of
        None \<Rightarrow> None
      | Some r \<Rightarrow> Some (update_inst r (set_healthy True) s))"

function waitLoop ::
  "probes \<Rightarrow> nat \<Rightarrow> string \<Rightarrow> millis \<Rightarrow> millis \<Rightarrow> manager \<Rightarrow> wait_result \<times> nat \<times> manager" where
  "waitLoop net k instanceId' startTime' maxWait s =
     (if int (now s) - int startTime' < int maxWait then
        (let (out, d) = net k; s1 = s\<lparr>now := now s + d\<rparr> in
         if checkInstanceHealth out then
           (case mark_ready instanceId' s1 of
              None \<Rightarrow> (TypeError, Suc k, s1)
            | Some s2 \<Rightarrow> (Returned True, Suc k, s2))
         else waitLoop net (Suc k) instanceId' startTime' maxWait (s1\<lparr>now := now s1 + 1000\<rparr>))
      else (Returned False, k, s))"
  by pat_completeness auto
termination
  by (relation "measure (\<lambda>(net, k, i, startTime', maxWait, s). startTime' + maxWait - now s)")
     auto

declare waitLoop.simps [simp del]

definition waitForInstanceReady ::
  "probes \<Rightarrow> string \<Rightarrow> millis \<Rightarrow> manager \<Rightarrow> wait_result \<times> manager" where
  "waitForInstanceReady net instanceId' maxWait s =
     (case waitLoop net 0 instanceId' (now s) maxWait s of (res, k, s') \<Rightarrow> (res, s'))"

text \<open>
  What the readiness gate promises, as a function of the probe outcomes alone:
  \<open>ready_within net k elapsed maxWait\<close> says whether some probe from the \<open>k\<close>-th on
  answers 200 and is sent while less than \<open>maxWait\<close> milliseconds have elapsed, when
  each failed probe costs its own duration and the sleep of 1000 ms.
\<close>

function ready_within :: "probes \<Rightarrow> nat \<Rightarrow> millis \<Rightarrow> millis \<Rightarrow> bool" where
  "ready_within net k elapsed maxWait =
     (if elapsed < maxWait then
        (if checkInstanceHealth (fst (net k)) then True
         else ready_within net (Suc k) (elapsed + snd (net k) + 1000) maxWait)
      else False)"
  by pat_completeness auto
termination
  by (relation "measure (\<lambda>(net, k, elapsed, maxWait). maxWait - elapsed)") auto

declare ready_within.simps [simp del]

lemmas hm_defs [op_defs] =
  checkInstanceHealth_def startHealthCheck_def record_probe_def health_pass_def
  healthCheckTick_def mark_ready_def waitForInstanceReady_def
  HEALTH_CHECK_INTERVAL_def PROBE_TIMEOUT_def

section \<open>One pass of the periodic check\<close>

definition transition_log :: "string \<Rightarrow> bool \<Rightarrow> bool \<Rightarrow> log_entry list" where
  "transition_log k was is =
     (if was \<and> \<not> is then [BecameUnhealthy k] else if \<not> was \<and> is then [Recovered k] else [])"

lemma record_probe_simps [simp]:
  "healthy (record_probe h t i) = h"
  "lastHealthCheck (record_probe h t i) = Some t"
  "instanceId (record_probe h t i) = instanceId i"
  "port (record_probe h t i) = port i"
  "key (record_probe h t i) = key i"
  "process (record_probe h t i) = process i"
  "restartCount (record_probe h t i) = restartCount i"
  "startTime (record_probe h t i) = startTime i"
  by (simp_all add: record_probe_def)

lemma health_pass_eq:
  "health_pass net (k, r) s =
     (let out = fst (net (port (deref s r))); t = now s + snd (net (port (deref s r)));
          s2 = update_inst r (record_probe (checkInstanceHealth out) t) (s\<lparr>now := t\<rparr>)
      in s2\<lparr>console := console s @ transition_log k (healthy (deref s r)) (healthy (deref s2 r))\<rparr>)"
  by (simp add: health_pass_def Let_def case_prod_unfold transition_log_def)

lemma health_pass_frame [simp, frame]:
  "instances (health_pass net e s) = instances s"
  "currentActiveInstance (health_pass net e s) = currentActiveInstance s"
  "isShuttingDown (health_pass net e s) = isShuttingDown s"
  "healthCheckInterval (health_pass net e s) = healthCheckInterval s"
  "timers (health_pass net e s) = timers s"
  "exitCode (health_pass net e s) = exitCode s"
  "handlers (health_pass net e s) = handlers s"
  "listening (health_pass net e s) = listening s"
  "length (heap (health_pass net e s)) = length (heap s)"
  "now (health_pass net e s) = now s + snd (net (port (deref s (snd e))))"
  by (cases e; simp add: health_pass_eq Let_def)+

lemma heap_health_pass:
  "heap (health_pass net (k, r) s) =
     modify_at r (record_probe (checkInstanceHealth (fst (net (port (deref s r)))))
                    (now s + snd (net (port (deref s r))))) (heap s)"
  by (simp add: health_pass_eq Let_def update_inst_def)

lemma deref_health_pass:
  "deref (health_pass net (k, r) s) q =
     (if q = r \<and> r < length (heap s)
      then record_probe (checkInstanceHealth (fst (net (port (deref s r)))))
             (now s + snd (net (port (deref s r)))) (deref s r)
      else deref s q)"
  by (simp add: deref_def heap_health_pass nth_modify_at)

lemma health_pass_keeps [simp]:
  "instanceId (deref (health_pass net e s) q) = instanceId (deref s q)"
  "port (deref (health_pass net e s) q) = port (deref s q)"
  "key (deref (health_pass net e s) q) = key (deref s q)"
  "process (deref (health_pass net e s) q) = process (deref s q)"
  "restartCount (deref (health_pass net e s) q) = restartCount (deref s q)"
  "startTime (deref (health_pass net e s) q) = startTime (deref s q)"
  by (cases e; simp add: deref_health_pass)+

lemma console_health_pass:
  "r < length (heap s) \<Longrightarrow>
   console (health_pass net (k, r) s) =
     console s @ transition_log k (healthy (deref s r))
                  (checkInstanceHealth (fst (net (port (deref s r)))))"
  by (simp add: health_pass_eq Let_def)

lemma wf_health_pass [simp, wf_keep]: "wf s \<Longrightarrow> wf (health_pass net e s)"
proof (cases e)
  case (Pair k r)
  assume "wf s"
  then have "wf (s\<lparr>now := now s + snd (net (port (deref s r)))\<rparr>)"
    by simp
  then have "wf (update_inst r (record_probe (checkInstanceHealth (fst (net (port (deref s r)))))
      (now s + snd (net (port (deref s r))))) (s\<lparr>now := now s + snd (net (port (deref s r)))\<rparr>))"
    by (rule wf_update_inst) simp
  then show ?thesis
    by (simp add: Pair health_pass_eq Let_def)
qed

section \<open>The whole tick\<close>

lemma healthCheckTick_frame [simp, frame]:
  "instances (healthCheckTick net s) = instances s"
  "currentActiveInstance (healthCheckTick net s) = currentActiveInstance s"
  "isShuttingDown (healthCheckTick net s) = isShuttingDown s"
  "healthCheckInterval (healthCheckTick net s) = healthCheckInterval s"
  "timers (healthCheckTick net s) = timers s"
  "exitCode (healthCheckTick net s) = exitCode s"
  "handlers (healthCheckTick net s) = handlers s"
  "listening (healthCheckTick net s) = listening s"
  "length (heap (healthCheckTick net s)) = length (heap s)"
  unfolding healthCheckTick_def by (rule fold_frame, simp)+

lemma fold_health_keeps [simp]:
  "instanceId (deref (fold (health_pass net) es s) q) = instanceId (deref s q)"
  "port (deref (fold (health_pass net) es s) q) = port (deref s q)"
  "key (deref (fold (health_pass net) es s) q) = key (deref s q)"
  "process (deref (fold (health_pass net) es s) q) = process (deref s q)"
  "restartCount (deref (fold (health_pass net) es s) q) = restartCount (deref s q)"
  "startTime (deref (fold (health_pass net) es s) q) = startTime (deref s q)"
  by (rule fold_frame [where g = "\<lambda>s. instanceId (deref s q)"], simp,
      rule fold_frame [where g = "\<lambda>s. port (deref s q)"], simp,
      rule fold_frame [where g = "\<lambda>s. key (deref s q)"], simp,
      rule fold_frame [where g = "\<lambda>s. process (deref s q)"], simp,
      rule fold_frame [where g = "\<lambda>s. restartCount (deref s q)"], simp,
      rule fold_frame [where g = "\<lambda>s. startTime (deref s q)"], simp)

lemma healthCheckTick_keeps [simp]:
  "instanceId (deref (healthCheckTick net s) q) = instanceId (deref s q)"
  "port (deref (healthCheckTick net s) q) = port (deref s q)"
  "key (deref (healthCheckTick net s) q) = key (deref s q)"
  "process (deref (healthCheckTick net s) q) = process (deref s q)"
  "restartCount (deref (healthCheckTick net s) q) = restartCount (deref s q)"
  "startTime (deref (healthCheckTick net s) q) = startTime (deref s q)"
  by (simp_all add: healthCheckTick_def)

lemma wf_fold_health: "wf s \<Longrightarrow> wf (fold (health_pass net) es s)"
  by (rule fold_invariant) simp_all

lemma wf_healthCheckTick [simp, wf_keep]: "wf s \<Longrightarrow> wf (healthCheckTick net s)"
  by (simp add: healthCheckTick_def wf_fold_health)

lemma fold_health_other:
  "q \<notin> snd ` set es \<Longrightarrow> deref (fold (health_pass net) es s) q = deref s q"
proof (induction es arbitrary: s)
  case Nil
  then show ?case by simp
next
  case (Cons e es)
  then show ?case by (cases e) (auto simp: deref_health_pass)
qed

lemma now_fold_health_mono: "now s \<le> now (fold (health_pass net) es s)"
proof (induction es arbitrary: s)
  case Nil
  then show ?case by simp
next
  case (Cons e es)
  have "now s \<le> now (health_pass net e s)" by simp
  also have "\<dots> \<le> now (fold (health_pass net) es (health_pass net e s))" by (rule Cons.IH)
  finally show ?case by simp
qed

lemma fold_health_hit:
  assumes "distinct (map snd es)" and "(k, r) \<in> set es" and "r < length (heap s)"
  shows "\<exists>t. now s \<le> t \<and> t \<le> now (fold (health_pass net) es s) \<and>
           deref (fold (health_pass net) es s) r =
           record_probe (checkInstanceHealth (fst (net (port (deref s r))))) t (deref s r)"
  using assms
proof (induction es arbitrary: s)
  case Nil
  then show ?case by simp
next
  case (Cons e es)
  let ?s1 = "health_pass net e s"
  show ?case
  proof (cases "e = (k, r)")
    case True
    with Cons.prems have "r \<notin> snd ` set es" by auto
    then have "deref (fold (health_pass net) es ?s1) r = deref ?s1 r"
      by (rule fold_health_other)
    moreover have "now ?s1 \<le> now (fold (health_pass net) es ?s1)"
      by (rule now_fold_health_mono)
    ultimately show ?thesis
      using True Cons.prems(3)
      by (intro exI [of _ "now ?s1"]) (simp add: deref_health_pass)
  next
    case False
    with Cons.prems have mem: "(k, r) \<in> set es" and dist: "distinct (map snd es)"
      and len: "r < length (heap ?s1)" by auto
    from mem Cons.prems(1) have "snd e \<noteq> r" by (cases e) force
    then have same: "deref ?s1 r = deref s r"
      by (cases e) (simp add: deref_health_pass)
    from Cons.IH [OF dist mem len] obtain t where "now ?s1 \<le> t"
      and "t \<le> now (fold (health_pass net) es ?s1)"
      and "deref (fold (health_pass net) es ?s1) r =
        record_probe (checkInstanceHealth (fst (net (port (deref ?s1 r))))) t (deref ?s1 r)"
      by blast
    moreover have "now s \<le> now ?s1" by simp
    ultimately show ?thesis
      by (intro exI [of _ t]) (simp add: same)
  qed
qed

lemma console_fold_health:
  assumes "distinct (map snd es)" and "\<forall>(k, r) \<in> set es. r < length (heap s)"
  shows "console (fold (health_pass net) es s) =
     console s @ concat (map (\<lambda>(k, r). transition_log k (healthy (deref s r))
        (checkInstanceHealth (fst (net (port (deref s r)))))) es)"
  using assms
proof (induction es arbitrary: s)
  case Nil
  then show ?case by simp
next
  case (Cons e es)
  obtain k r where e: "e = (k, r)" by (cases e)
  let ?s1 = "health_pass net (k, r) s"
  let ?g = "\<lambda>s (k, r). transition_log k (healthy (deref s r))
        (checkInstanceHealth (fst (net (port (deref s r)))))"
  from Cons.prems e have r: "r < length (heap s)" "r \<notin> snd ` set es" by auto
  from Cons.prems e have "distinct (map snd es)"
    and "\<forall>(k, r) \<in> set es. r < length (heap ?s1)" by auto
  from Cons.IH [OF this]
  have A: "console (fold (health_pass net) es ?s1) = console ?s1 @ concat (map (?g ?s1) es)" .
  have B: "map (?g ?s1) es = map (?g s) es"
  proof (rule map_cong [OF refl])
    fix x assume x: "x \<in> set es"
    obtain k' r' where x': "x = (k', r')" by (cases x)
    with x r(2) have "r' \<noteq> r" by force
    then show "?g ?s1 x = ?g s x" by (simp add: x' deref_health_pass)
  qed
  have C: "console ?s1 = console s @ ?g s (k, r)"
    using r(1) by (simp add: console_health_pass)
  have "console (fold (health_pass net) (e # es) s) = console (fold (health_pass net) es ?s1)"
    by (simp add: e)
  also have "\<dots> = console ?s1 @ concat (map (?g ?s1) es)" by (rule A)
  also have "\<dots> = (console s @ ?g s (k, r)) @ concat (map (?g s) es)" by (simp only: B C)
  also have "\<dots> = console s @ concat (map (?g s) (e # es))" by (simp add: e)
  finally show ?case .
qed

section \<open>Properties of the periodic check\<close>

text \<open>
  \<^bold>\<open>C21\<close> (functional). One run of the interval callback over a well-formed registry
  sets the health flag of every registered instance to the result of its own probe
  (status 200 or not) and stamps it with the time at which that probe completed, which
  lies within the run; id, port, key and restart count of the instance are untouched.
\<close>

theorem tick_sets_health:
  assumes "wf s" and "(k, r) \<in> set (instances s)"
  shows "\<exists>t. now s \<le> t \<and> t \<le> now (healthCheckTick net s) \<and>
     deref (healthCheckTick net s) r =
       (deref s r)\<lparr>healthy := checkInstanceHealth (fst (net (port (deref s r)))),
                     lastHealthCheck := Some t\<rparr>"
proof -
  from assms(1) have "distinct (map snd (instances s))"
    using distinct_value_refs [of s] by (simp add: value_refs_def)
  moreover from assms have "r < length (heap s)" by (rule wfD_ref)
  ultimately show ?thesis
    using fold_health_hit [of "instances s" k r s net] assms(2)
    by (simp add: healthCheckTick_def record_probe_def)
qed

theorem tick_sets_health_witness:
  "wf demo3 \<and> (''router-1'', 1) \<in> set (instances demo3) \<and>
   \<not> healthy (deref (healthCheckTick
      (\<lambda>p. if p = Num 3101 then (Response 503, 12) else (Response 200, 7)) demo3) 1)"
proof -
  let ?net = "\<lambda>p. if p = Num 3101 then (Response 503, 12) else (Response 200, 7 :: nat)"
  have m: "(''router-1'', 1) \<in> set (instances demo3)" by code_simp
  have p: "port (deref demo3 1) = Num 3101" by code_simp
  from tick_sets_health [OF demo3_wf m, of ?net] p
  have "\<not> healthy (deref (healthCheckTick ?net demo3) 1)"
    by (auto simp: checkInstanceHealth_def)
  with demo3_wf m show ?thesis by simp
qed

text \<open>
  Only transitions are logged: the console output of one run of
  the interval callback is, per registered instance in registration order, one line
  when its health flag changes (became unhealthy, or recovered) and nothing when the
  probe confirms the flag.
\<close>

lemma tick_logs_transitions:
  assumes "wf s"
  shows "console (healthCheckTick net s) =
     console s @ concat (map (\<lambda>(k, r). transition_log k (healthy (deref s r))
        (checkInstanceHealth (fst (net (port (deref s r)))))) (instances s))"
proof -
  from assms have "distinct (map snd (instances s))"
    using distinct_value_refs [of s] by (simp add: value_refs_def)
  moreover from assms have "\<forall>(k, r) \<in> set (instances s). r < length (heap s)"
    by (auto dest: wfD_ref)
  ultimately show ?thesis
    unfolding healthCheckTick_def by (rule console_fold_health)
qed

lemma tick_logs_transitions_example:
  "wf demo3 \<and>
   console (healthCheckTick
      (\<lambda>p. if p = Num 3101 then (RequestTimeout, 5000) else (Response 200, 7)) demo3) =
   [BecameUnhealthy ''router-1'']"
proof -
  let ?net = "\<lambda>p. if p = Num 3101 then (RequestTimeout, 5000) else (Response 200, 7 :: nat)"
  have "console demo3 @ concat (map (\<lambda>(k, r). transition_log k (healthy (deref demo3 r))
        (checkInstanceHealth (fst (?net (port (deref demo3 r)))))) (instances demo3)) =
      [BecameUnhealthy ''router-1'']"
    by code_simp
  with tick_logs_transitions [OF demo3_wf, of ?net] demo3_wf show ?thesis by simp
qed

section \<open>The readiness loop\<close>

lemma waitLoop_unfold:
  "waitLoop net k i st mw s =
     (if int (now s) - int st < int mw then
        (if checkInstanceHealth (fst (net k)) then
           (case mark_ready i (s\<lparr>now := now s + snd (net k)\<rparr>) of
              None \<Rightarrow> (TypeError, Suc k, s\<lparr>now := now s + snd (net k)\<rparr>)
            | Some s2 \<Rightarrow> (Returned True, Suc k, s2))
         else waitLoop net (Suc k) i st mw (s\<lparr>now := now s + snd (net k) + 1000\<rparr>))
      else (Returned False, k, s))"
  by (subst waitLoop.simps) (simp add: Let_def case_prod_unfold)

lemma waitLoop_induct [case_names step]:
  assumes step: "\<And>k s.
     (int (now s) - int st < int mw \<Longrightarrow> \<not> checkInstanceHealth (fst (net k)) \<Longrightarrow>
        P (Suc k) (s\<lparr>now := now s + snd (net k) + 1000\<rparr>)) \<Longrightarrow> P k s"
  shows "P k (s::manager)"
proof (induction "st + mw - now s" arbitrary: k s rule: less_induct)
  case less
  show ?case
  proof (rule step)
    assume "int (now s) - int st < int mw"
    then have "st + mw - now (s\<lparr>now := now s + snd (net k) + 1000\<rparr>) < st + mw - now s"
      by simp
    then show "P (Suc k) (s\<lparr>now := now s + snd (net k) + 1000\<rparr>)" by (rule less)
  qed
qed

lemma mark_ready_Some:
  "mark_ready i s = Some s' \<longleftrightarrow>
     (\<exists>r. map_get s i = Some r \<and> s' = update_inst r (set_healthy True) s)"
  by (auto simp: mark_ready_def split: option.splits)

lemma mark_ready_None [simp]: "mark_ready i s = None \<longleftrightarrow> map_get s i = None"
  by (simp add: mark_ready_def split: option.splits)

lemma waitLoop_frame:
  "instances (snd (snd (waitLoop net k i st mw s))) = instances s \<and>
   currentActiveInstance (snd (snd (waitLoop net k i st mw s))) = currentActiveInstance s \<and>
   isShuttingDown (snd (snd (waitLoop net k i st mw s))) = isShuttingDown s \<and>
   healthCheckInterval (snd (snd (waitLoop net k i st mw s))) = healthCheckInterval s \<and>
   timers (snd (snd (waitLoop net k i st mw s))) = timers s \<and>
   console (snd (snd (waitLoop net k i st mw s))) = console s \<and>
   exitCode (snd (snd (waitLoop net k i st mw s))) = exitCode s \<and>
   length (heap (snd (snd (waitLoop net k i st mw s)))) = length (heap s) \<and>
   now s \<le> now (snd (snd (waitLoop net k i st mw s))) \<and>
   handlers (snd (snd (waitLoop net k i st mw s))) = handlers s \<and>
   listening (snd (snd (waitLoop net k i st mw s))) = listening s"
proof (induction k s rule: waitLoop_induct [where st = st and mw = mw and net = net])
  case (step k s)
  show ?case
  proof (cases "int (now s) - int st < int mw \<and> \<not> checkInstanceHealth (fst (net k))")
    case True
    with step show ?thesis by (subst (1 2 3 4 5 6 7 8 9 10 11) waitLoop_unfold) simp
  next
    case False
    then show ?thesis
      by (subst (1 2 3 4 5 6 7 8 9 10 11) waitLoop_unfold)
         (auto simp: mark_ready_def split: option.splits)
  qed
qed

lemma waitLoop_wf: "wf s \<Longrightarrow> wf (snd (snd (waitLoop net k i st mw s)))"
proof (induction k s rule: waitLoop_induct [where st = st and mw = mw and net = net])
  case (step k s)
  show ?case
  proof (cases "int (now s) - int st < int mw \<and> \<not> checkInstanceHealth (fst (net k))")
    case True
    with step show ?thesis by (subst waitLoop_unfold) simp
  next
    case False
    with step.prems show ?thesis
      by (subst waitLoop_unfold) (auto simp: mark_ready_def split: option.splits)
  qed
qed

lemma waitLoop_result:
  assumes "map_get s i = Some r" and "r < length (heap s)"
  shows "case waitLoop net k i st mw s of
           (Returned True, k', s') \<Rightarrow>
              k < k' \<and> checkInstanceHealth (fst (net (k' - 1))) \<and>
              (\<forall>j. k \<le> j \<and> j < k' - 1 \<longrightarrow> \<not> checkInstanceHealth (fst (net j))) \<and>
              heap s' = modify_at r (set_healthy True) (heap s)
         | (Returned False, k', s') \<Rightarrow>
              (\<forall>j. k \<le> j \<and> j < k' \<longrightarrow> \<not> checkInstanceHealth (fst (net j))) \<and>
              heap s' = heap s \<and> int mw \<le> int (now s') - int st
         | (TypeError, k', s') \<Rightarrow> False"
  using assms
proof (induction k s rule: waitLoop_induct [where st = st and mw = mw and net = net])
  case (step k s)
  show ?case
  proof (cases "int (now s) - int st < int mw")
    case False
    then show ?thesis by (subst waitLoop_unfold) auto
  next
    case live: True
    show ?thesis
    proof (cases "checkInstanceHealth (fst (net k))")
      case True
      with live step.prems show ?thesis
        by (subst waitLoop_unfold) (auto simp: mark_ready_def update_inst_def)
    next
      case False
      let ?s' = "s\<lparr>now := now s + snd (net k) + 1000\<rparr>"
      from step.prems have "map_get ?s' i = Some r" "r < length (heap ?s')" by simp_all
      note IH = step.IH [OF live False this]
      obtain res k' s' where w: "waitLoop net (Suc k) i st mw ?s' = (res, k', s')"
        by (cases "waitLoop net (Suc k) i st mw ?s'")
      from live False w have u: "waitLoop net k i st mw s = (res, k', s')"
        by (subst waitLoop_unfold) simp
      have pre: "\<not> checkInstanceHealth (fst (net j))"
        if "k \<le> j" and "j = k \<or> (Suc k \<le> j \<longrightarrow> \<not> checkInstanceHealth (fst (net j)))" for j
        using that False by (cases "j = k") auto
      show ?thesis
      proof (cases res)
        case TypeError
        with IH w show ?thesis by simp
      next
        case (Returned b)
        show ?thesis
        proof (cases b)
          case True
          with IH w Returned have "Suc k < k'" "checkInstanceHealth (fst (net (k' - 1)))"
            "\<And>j. Suc k \<le> j \<Longrightarrow> j < k' - 1 \<Longrightarrow> \<not> checkInstanceHealth (fst (net j))"
            "heap s' = modify_at r (set_healthy True) (heap s)"
            by simp_all
          with pre show ?thesis by (auto simp: u Returned True)
        next
          case b: False
          with IH w Returned
          have "\<And>j. Suc k \<le> j \<Longrightarrow> j < k' \<Longrightarrow> \<not> checkInstanceHealth (fst (net j))"
            "heap s' = heap s" "int mw \<le> int (now s') - int st"
            by simp_all
          with pre show ?thesis by (auto simp: u Returned b)
        qed
      qed
    qed
  qed
qed

lemma probe_budget_step:
  fixes x a t d :: nat
  assumes "t < a" and "1000 * x \<le> a - (t + d + 1000) + 999"
  shows "1000 * Suc x \<le> a - t + 999"
proof (cases "a \<le> t + d + 1000")
  case True
  with assms(2) have "x = 0" by simp
  with assms(1) show ?thesis by simp
next
  case False
  with assms show ?thesis by simp
qed

lemma waitLoop_count:
  "k \<le> fst (snd (waitLoop net k i st mw s)) \<and>
   1000 * (fst (snd (waitLoop net k i st mw s)) - k) \<le> (st + mw - now s) + 999"
proof (induction k s rule: waitLoop_induct [where st = st and mw = mw and net = net])
  case (step k s)
  show ?case
  proof (cases "int (now s) - int st < int mw")
    case False
    then show ?thesis by (subst (1 2) waitLoop_unfold) simp
  next
    case live: True
    show ?thesis
    proof (cases "checkInstanceHealth (fst (net k))")
      case True
      with live show ?thesis
        by (subst (1 2) waitLoop_unfold) (auto split: option.splits)
    next
      case False
      let ?k' = "fst (snd (waitLoop net (Suc k) i st mw (s\<lparr>now := now s + snd (net k) + 1000\<rparr>)))"
      from live False have u: "fst (snd (waitLoop net k i st mw s)) = ?k'"
        by (subst waitLoop_unfold) simp
      from live have l: "now s < st + mw" by arith
      from step [OF live False]
      have le: "Suc k \<le> ?k'"
        and b: "1000 * (?k' - Suc k) \<le> st + mw - (now s + snd (net k) + 1000) + 999"
        by simp_all
      from le have "?k' - k = Suc (?k' - Suc k)" by simp
      moreover from l b have "1000 * Suc (?k' - Suc k) \<le> st + mw - now s + 999"
        by (rule probe_budget_step)
      ultimately show ?thesis unfolding u using le by simp
    qed
  qed
qed

lemma waitLoop_clock:
  assumes "\<forall>k. snd (net k) \<le> D"
  shows "now (snd (snd (waitLoop net k i st mw s))) \<le> max (now s) (st + mw + D + 999)"
proof (induction k s rule: waitLoop_induct [where st = st and mw = mw and net = net])
  case (step k s)
  from assms have d: "snd (net k) \<le> D" by simp
  show ?case
  proof (cases "int (now s) - int st < int mw")
    case False
    then show ?thesis by (subst waitLoop_unfold) simp
  next
    case live: True
    show ?thesis
    proof (cases "checkInstanceHealth (fst (net k))")
      case True
      with live d show ?thesis
        by (subst waitLoop_unfold) (auto simp: mark_ready_def split: option.splits)
    next
      case False
      let ?s' = "s\<lparr>now := now s + snd (net k) + 1000\<rparr>"
      from live False have u: "waitLoop net k i st mw s = waitLoop net (Suc k) i st mw ?s'"
        by (subst waitLoop_unfold) simp
      from live have l: "now s < st + mw" by arith
      from step [OF live False]
      have "now (snd (snd (waitLoop net (Suc k) i st mw ?s')))
              \<le> max (now s + snd (net k) + 1000) (st + mw + D + 999)"
        by simp
      with l d show ?thesis unfolding u by arith
    qed
  qed
qed

lemma waitLoop_verdict:
  assumes "st \<le> now s"
  shows "fst (waitLoop net k i st mw s) =
     (if ready_within net k (now s - st) mw
      then (if map_get s i = None then TypeError else Returned True)
      else Returned False)"
  using assms
proof (induction k s rule: waitLoop_induct [where st = st and mw = mw and net = net])
  case (step k s)
  let ?e = "now s - st"
  let ?s' = "s\<lparr>now := now s + snd (net k) + 1000\<rparr>"
  from step.prems have live: "(int (now s) - int st < int mw) = (?e < mw)" by arith
  note r = ready_within.simps [of net k ?e mw]
  show ?case
  proof (cases "?e < mw")
    case False
    then have "waitLoop net k i st mw s = (Returned False, k, s)"
      by (subst waitLoop_unfold) (simp only: live if_False)
    with False show ?thesis by (simp add: r)
  next
    case e: True
    then have l: "int (now s) - int st < int mw" by (simp only: live)
    show ?thesis
    proof (cases "checkInstanceHealth (fst (net k))")
      case True
      with l have "fst (waitLoop net k i st mw s) =
          (if map_get s i = None then TypeError else Returned True)"
        by (subst waitLoop_unfold) (simp add: mark_ready_def split: option.splits)
      with e True show ?thesis by (simp add: r)
    next
      case False
      from step.prems have m: "st \<le> now ?s'" by simp
      from step.prems have t: "now ?s' - st = ?e + snd (net k) + 1000" by simp
      have "fst (waitLoop net (Suc k) i st mw ?s') =
          (if ready_within net (Suc k) (now ?s' - st) mw
           then (if map_get ?s' i = None then TypeError else Returned True)
           else Returned False)"
        by (rule step.IH [OF l False m])
      then have ih: "fst (waitLoop net (Suc k) i st mw ?s') =
          (if ready_within net (Suc k) (?e + snd (net k) + 1000) mw
           then (if map_get s i = None then TypeError else Returned True)
           else Returned False)"
        by (simp only: t map_get_field_updates)
      from l False have u: "waitLoop net k i st mw s = waitLoop net (Suc k) i st mw ?s'"
        by (subst waitLoop_unfold) simp
      from e False have rr: "ready_within net k ?e mw =
          ready_within net (Suc k) (?e + snd (net k) + 1000) mw"
        by (simp add: r)
      show ?thesis by (simp only: u ih rr)
    qed
  qed
qed

lemma wait_ready_verdict:
  "fst (waitForInstanceReady net i mw s) =
     (if ready_within net 0 0 mw
      then (if map_get s i = None then TypeError else Returned True)
      else Returned False)"
  using waitLoop_verdict [of "now s" s net 0 i mw]
  by (simp add: waitForInstanceReady_def case_prod_unfold)

lemma waitForInstanceReady_frame [simp, frame]:
  "instances (snd (waitForInstanceReady net i mw s)) = instances s"
  "currentActiveInstance (snd (waitForInstanceReady net i mw s)) = currentActiveInstance s"
  "isShuttingDown (snd (waitForInstanceReady net i mw s)) = isShuttingDown s"
  "healthCheckInterval (snd (waitForInstanceReady net i mw s)) = healthCheckInterval s"
  "timers (snd (waitForInstanceReady net i mw s)) = timers s"
  "console (snd (waitForInstanceReady net i mw s)) = console s"
  "exitCode (snd (waitForInstanceReady net i mw s)) = exitCode s"
  "length (heap (snd (waitForInstanceReady net i mw s))) = length (heap s)"
  "handlers (snd (waitForInstanceReady net i mw s)) = handlers s"
  "listening (snd (waitForInstanceReady net i mw s)) = listening s"
  using waitLoop_frame [of net 0 i "now s" mw s]
  by (simp_all add: waitForInstanceReady_def case_prod_unfold)

lemma now_waitForInstanceReady: "now s \<le> now (snd (waitForInstanceReady net i mw s))"
  using waitLoop_frame [of net 0 i "now s" mw s]
  by (simp add: waitForInstanceReady_def case_prod_unfold)

lemma wf_waitForInstanceReady [simp, wf_keep]:
  "wf s \<Longrightarrow> wf (snd (waitForInstanceReady net i mw s))"
  using waitLoop_wf [of s net 0 i "now s" mw]
  by (simp add: waitForInstanceReady_def case_prod_unfold)

lemma wait_ready_cases [consumes 2, case_names ready timeout]:
  assumes "map_get s i = Some r" and "r < length (heap s)"
  obtains s' where "waitForInstanceReady net i mw s = (Returned True, s')"
      and "heap s' = modify_at r (set_healthy True) (heap s)"
    | s' where "waitForInstanceReady net i mw s = (Returned False, s')" and "heap s' = heap s"
  using waitLoop_result [OF assms, where net = net and k = 0 and st = "now s" and mw = mw]
  by (auto simp: waitForInstanceReady_def split: prod.splits wait_result.splits bool.splits)

lemma deref_wait_ready:
  assumes "map_get s i = Some r" and "r < length (heap s)"
  shows "deref (snd (waitForInstanceReady net i mw s)) q =
     (if q = r \<and> fst (waitForInstanceReady net i mw s) = Returned True
      then set_healthy True (deref s r) else deref s q)"
  using assms(2) by (cases rule: wait_ready_cases [OF assms, of net mw])
    (auto simp: deref_def nth_modify_at)

section \<open>Properties of the readiness gate\<close>

text \<open>
  \<^bold>\<open>C20\<close> (functional). The readiness gate for a registered instance returns \<^verbatim>\<open>true\<close>
  exactly after a probe answered 200, and then the registered object is marked healthy
  and nothing else in the store changed; it returns \<^verbatim>\<open>false\<close> only once \<open>maxWait\<close>
  milliseconds have passed on the clock, and then the store is unchanged; it does not
  raise.
\<close>

theorem readiness_outcome:
  assumes "wf s" and "map_get s i = Some r"
  shows "case waitForInstanceReady net i maxWait s of
           (Returned True, s') \<Rightarrow>
              (\<exists>k. checkInstanceHealth (fst (net k))) \<and>
              heap s' = modify_at r (set_healthy True) (heap s)
         | (Returned False, s') \<Rightarrow> heap s' = heap s \<and> now s + maxWait \<le> now s'
         | (TypeError, s') \<Rightarrow> False"
proof -
  from assms have r: "r < length (heap s)"
    by (auto simp: map_get_def dest: map_of_SomeD wfD_ref)
  from waitLoop_result [OF assms(2) r, where net = net and k = 0 and st = "now s" and mw = maxWait]
  show ?thesis
    by (auto simp: waitForInstanceReady_def split: prod.splits wait_result.splits bool.splits)
qed

theorem readiness_outcome_witness:
  "wf demo3 \<and> map_get demo3 ''router-2'' = Some 2 \<and>
   fst (waitForInstanceReady (\<lambda>k. if k < 2 then (RequestError, 3) else (Response 200, 20))
          ''router-2'' 60000 demo3) = Returned True"
proof -
  let ?net = "\<lambda>k::nat. if k < 2 then (RequestError, 3::nat) else (Response 200, 20)"
  have m: "map_get demo3 ''router-2'' = Some 2" by code_simp
  have "\<not> checkInstanceHealth (fst (?net 0))" "\<not> checkInstanceHealth (fst (?net 1))"
    "checkInstanceHealth (fst (?net 2))" "now demo3 = 0"
    by code_simp+
  then have "fst (waitForInstanceReady ?net ''router-2'' 60000 demo3) \<noteq> Returned False"
    using readiness_outcome [OF demo3_wf m, of ?net 60000]
    by (auto simp: waitForInstanceReady_def waitLoop_unfold [of _ _ _ _ _ demo3]
          waitLoop_unfold [of _ "Suc 0"] waitLoop_unfold [of _ "Suc (Suc 0)"] m
          split: prod.splits option.splits)
  with readiness_outcome [OF demo3_wf m, of ?net 60000] demo3_wf m show ?thesis
    by (auto split: prod.splits wait_result.splits bool.splits)
qed

text \<open>
  \<^bold>\<open>C37\<close> (bounds). The readiness gate sends at most one probe per started second of
  \<open>maxWait\<close>, whatever the network does: the 1000 ms sleep after a failed probe bounds
  the number of probes by \<open>maxWait / 1000\<close> rounded up (60 for the default of 60 s).
\<close>

theorem readiness_probe_count:
  "fst (snd (waitLoop net 0 i (now s) maxWait s)) \<le> (maxWait + 999) div 1000"
  using waitLoop_count [where k = 0 and net = net and i = i and st = "now s" and mw = maxWait and s = s]
  by simp

text \<open>
  \<^bold>\<open>C38\<close> (termination). When every probe completes within the 5 s request timeout, the
  readiness gate returns before \<open>maxWait\<close> plus one probe and one sleep have passed.
\<close>

theorem readiness_deadline:
  assumes "\<forall>k. snd (net k) \<le> PROBE_TIMEOUT"
  shows "now (snd (waitForInstanceReady net i maxWait s)) < now s + maxWait + PROBE_TIMEOUT + 1000"
  using waitLoop_clock [OF assms, where k = 0 and i = i and st = "now s" and mw = maxWait and s = s]
  by (simp add: waitForInstanceReady_def case_prod_unfold)

theorem readiness_deadline_witness:
  "(\<forall>k. snd ((\<lambda>k. (RequestTimeout, 5000)) k) \<le> PROBE_TIMEOUT) \<and>
   now (snd (waitForInstanceReady (\<lambda>k. (RequestTimeout, 5000)) ''router-0'' 60000 demo3))
     < now demo3 + 60000 + PROBE_TIMEOUT + 1000"
  using readiness_deadline [of "\<lambda>k. (RequestTimeout, 5000)" "''router-0''" 60000 demo3]
  by (simp add: PROBE_TIMEOUT_def)

text \<open>
  \<^bold>\<open>C27\<close> (refinement). The verdict of the readiness gate is a function of the probe
  outcomes and of \<open>maxWait\<close> alone: it is \<^verbatim>\<open>true\<close> exactly when \<open>ready_within\<close> holds, that
  is when a probe that is sent before \<open>maxWait\<close> has elapsed answers 200. The state of
  the manager does not enter, except that for an id that is not registered the
  assignment after the successful probe raises a \<^verbatim>\<open>TypeError\<close>.
\<close>

theorem readiness_verdict:
  "fst (waitForInstanceReady net i maxWait s) =
     (if ready_within net 0 0 maxWait
      then (case map_get s i of None \<Rightarrow> TypeError | Some r \<Rightarrow> Returned True)
      else Returned False)"
  by (simp add: wait_ready_verdict split: option.splits)

theorem readiness_verdict_witness:
  "fst (waitForInstanceReady (\<lambda>k. if k < 2 then (RequestError, 1) else (Response 200, 1))
          ''router-0'' 3000 demo3) = Returned True \<and>
   fst (waitForInstanceReady (\<lambda>k. if k < 3 then (RequestError, 1) else (Response 200, 1))
          ''router-0'' 3000 demo3) = Returned False \<and>
   fst (waitForInstanceReady (\<lambda>k. (Response 200, 1)) ''router-9'' 3000 demo3) = TypeError"
proof -
  have "ready_within (\<lambda>k. if k < 2 then (RequestError, 1) else (Response 200, 1)) 0 0 3000"
    "\<not> ready_within (\<lambda>k. if k < 3 then (RequestError, 1) else (Response 200, 1)) 0 0 3000"
    "ready_within (\<lambda>k. (Response 200, 1)) 0 0 3000"
    "map_get demo3 ''router-0'' = Some 0" "map_get demo3 ''router-9'' = None"
    by code_simp+
  then show ?thesis
    using readiness_verdict [of "\<lambda>k. if k < 2 then (RequestError, 1) else (Response 200, 1)"
        "''router-0''" 3000 demo3]
      readiness_verdict [of "\<lambda>k. if k < 3 then (RequestError, 1) else (Response 200, 1)"
        "''router-0''" 3000 demo3]
      readiness_verdict [of "\<lambda>k. (Response 200, 1)" "''router-9''" 3000 demo3]
    by simp
qed

end
