(* ===== verification/Config.thy ===== *)
theory Config
  imports JsLib
begin

text \<open>
  The configuration block of \<^verbatim>\<open>router-ha.js\<close> (lines 6 to 24): the constants that the
  script computes from \<^verbatim>\<open>process.env\<close> when it is loaded, and the string built-ins this
  takes: \<^verbatim>\<open>String.prototype.split\<close> with a one-character separator, \<^verbatim>\<open>trim\<close>, and
  \<^verbatim>\<open>parseInt\<close> without a radix (leading white space, a sign, the \<^verbatim>\<open>0x\<close> prefix, then the
  longest run of digits; \<^verbatim>\<open>NaN\<close> when that run is empty).

  The environment is a partial function from names to strings. A variable that is
  unset and one that is set to the empty string are both falsy, and the source treats
  them alike. Strings are sequences of 8-bit characters, so white space is the ASCII
  white space (codes 9 to 13 and 32).

  The lemmas show that printing and parsing agree: \<open>parseInt\<close> inverts \<open>int_toString\<close>,
  \<open>split_on\<close> inverts \<open>join_with\<close>, and a provider entry written as
  \<^verbatim>\<open>address,priority\<close> parses to that address and priority.
\<close>

section \<open>String built-ins\<close>

primrec split_on :: "char \<Rightarrow> string \<Rightarrow> string list" where
  "split_on c [] = [[]]"
| "split_on c (x # xs) =
     (if x = c then [] # split_on c xs
      else (case split_on c xs of [] \<Rightarrow> [[x]] | y # ys \<Rightarrow> (x # y) # ys))"

fun join_with :: "string \<Rightarrow> string list \<Rightarrow> string" where
  "join_with sep [] = []"
| "join_with sep [x] = x"
| "join_with sep (x # y # ys) = x @ sep @ join_with sep (y # ys)"

definition is_ws :: "char \<Rightarrow> bool" where
  "is_ws c \<longleftrightarrow> (9 \<le> (of_char c :: nat) \<and> (of_char c :: nat) \<le> 13) \<or> (of_char c :: nat) = 32"

definition trimStart :: "string \<Rightarrow> string" where
  "trimStart s = dropWhile is_ws s"

definition trim :: "string \<Rightarrow> string" where
  "trim s = rev (dropWhile is_ws (rev (dropWhile is_ws s)))"

definition digit_val :: "char \<Rightarrow> nat option" where
  "digit_val c =
     (let n = (of_char c :: nat) in
      if 48 \<le> n \<and> n \<le> 57 then Some (n - 48)
      else if 97 \<le> n \<and> n \<le> 122 then Some (n - 87)
      else if 65 \<le> n \<and> n \<le> 90 then Some (n - 55)
      else None)"

definition radix_digit :: "nat \<Rightarrow> char \<Rightarrow> nat option" where
  "radix_digit R c = (case digit_val c of None \<Rightarrow> None | Some d \<Rightarrow> if d < R then Some d else None)"

primrec leading_digits :: "nat \<Rightarrow> string \<Rightarrow> nat list" where
  "leading_digits R [] = []"
| "leading_digits R (c # cs) =
     (case radix_digit R c of None \<Rightarrow> [] | Some d \<Rightarrow> d # leading_digits R cs)"

definition radix_value :: "nat \<Rightarrow> nat list \<Rightarrow> nat" where
  "radix_value R ds = foldl (\<lambda>a d. R * a + d) 0 ds"

definition strip_sign :: "string \<Rightarrow> int \<times> string" where
  "strip_sign s =
     (case s of [] \<Rightarrow> (1, s)
      | c # r \<Rightarrow> if c = CHR ''-'' then (- 1, r) else if c = CHR ''+'' then (1, r) else (1, s))"

definition strip_prefix :: "string \<Rightarrow> nat \<times> string" where
  "strip_prefix s =
     (case s of
        c # x # r \<Rightarrow> if c = CHR ''0'' \<and> (x = CHR ''x'' \<or> x = CHR ''X'') then (16, r) else (10, s)
      | _ \<Rightarrow> (10, s))"

definition parseInt :: "string \<Rightarrow> jsnum" where
  "parseInt s =
     (let (sign, s1) = strip_sign (trimStart s);
          (R, s2) = strip_prefix s1;
          Z = leading_digits R s2
      in if Z = [] then NaN else Num (sign * int (radix_value R Z)))"

section \<open>The environment and the constants\<close>

type_synonym env = "string \<Rightarrow> string option"

datatype jsval = Str string | NumV jsnum

fun parseInt_val :: "jsval \<Rightarrow> jsnum" where
  "parseInt_val (Str s) = parseInt s"
| "parseInt_val (NumV n) = parseInt (num_toString n)"

record provider =
  address :: string
  priority :: jsnum

record config =
  PROVIDERS :: "provider list"
  DIRECT_ENDPOINTS :: "string list"
  KEYS :: "string list"
  PORT :: jsval
  HOST :: string
  RPC :: "string option"
  LEDGER_CA :: "string option"
  INFERENCE_CA :: "string option"
  GAS_PRICE :: "string option"
  DEFAULT_PROVIDER_PRIORITY :: string
  DEFAULT_ENDPOINT_PRIORITY :: string

definition parse_provider :: "string \<Rightarrow> provider" where
  "parse_provider p =
     (let parts = split_on CHR '','' p;
          address' = hd parts;
          priority' = (case tl parts of [] \<Rightarrow> None | x # _ \<Rightarrow> Some x)
      in \<lparr>address = trim address',
          priority = (case priority' of
                        None \<Rightarrow> Num 100
                      | Some x \<Rightarrow> if truthy x then parseInt (trim x) else Num 100)\<rparr>)"

definition env_list :: "env \<Rightarrow> string \<Rightarrow> char \<Rightarrow> string list" where
  "env_list e name sep =
     (case e name of None \<Rightarrow> [] | Some v \<Rightarrow> if truthy v then split_on sep v else [])"

definition env_or :: "env \<Rightarrow> string \<Rightarrow> string \<Rightarrow> string" where
  "env_or e name d = (case e name of None \<Rightarrow> d | Some v \<Rightarrow> if truthy v then v else d)"

definition load_config :: "env \<Rightarrow> config" where
  "load_config e =
     \<lparr>PROVIDERS = map parse_provider (env_list e ''PROVIDERS'' CHR '';''),
      DIRECT_ENDPOINTS = env_list e ''DIRECT_ENDPOINTS'' CHR '';'',
      KEYS = env_list e ''KEYS'' CHR '','',
      PORT = (case e ''PORT'' of None \<Rightarrow> NumV (Num 3000)
              | Some v \<Rightarrow> if truthy v then Str v else NumV (Num 3000)),
      HOST = env_or e ''HOST'' ''0.0.0.0'',
      RPC = e ''RPC_ENDPOINT'',
      LEDGER_CA = e ''LEDGER_CA'',
      INFERENCE_CA = e ''INFERENCE_CA'',
      GAS_PRICE = e ''GAS_PRICE'',
      DEFAULT_PROVIDER_PRIORITY = env_or e ''DEFAULT_PROVIDER_PRIORITY'' ''100'',
      DEFAULT_ENDPOINT_PRIORITY = env_or e ''DEFAULT_ENDPOINT_PRIORITY'' ''50''\<rparr>"

definition RESTART_DELAY :: millis where
  "RESTART_DELAY = 5000"

lemmas config_defs [op_defs] =
  is_ws_def trimStart_def trim_def digit_val_def radix_digit_def radix_value_def
  strip_sign_def strip_prefix_def parseInt_def parse_provider_def env_list_def env_or_def
  load_config_def RESTART_DELAY_def

section \<open>Splitting and joining\<close>

lemma split_on_nonempty [simp]: "split_on c s \<noteq> []"
  by (induction s) (auto split: list.splits)

lemma length_split_on: "length (split_on c s) = Suc (count_list s c)"
  by (induction s) (auto split: list.splits)

lemma split_on_pieces: "p \<in> set (split_on c s) \<Longrightarrow> c \<notin> set p"
  by (induction s arbitrary: p) (auto split: list.splits if_splits)

lemma split_on_free [simp]: "c \<notin> set s \<Longrightarrow> split_on c s = [s]"
  by (induction s) auto

lemma split_on_append:
  "c \<notin> set a \<Longrightarrow> split_on c (a @ c # b) = a # split_on c b"
  by (induction a) auto

lemma join_with_Cons:
  "join_with sep (x # xs) = (if xs = [] then x else x @ sep @ join_with sep xs)"
  by (cases xs) simp_all

lemma join_with_nonempty: "xs \<noteq> [] \<Longrightarrow> [] \<notin> set xs \<Longrightarrow> join_with sep xs \<noteq> []"
  by (cases xs) (auto simp: join_with_Cons)

lemma split_on_join:
  assumes "xs \<noteq> []" and "\<forall>x\<in>set xs. c \<notin> set x"
  shows "split_on c (join_with [c] xs) = xs"
  using assms
proof (induction xs)
  case Nil
  then show ?case by simp
next
  case (Cons x xs)
  then show ?case
    by (cases "xs = []") (simp_all add: join_with_Cons split_on_append)
qed

lemma join_split_on: "join_with [c] (split_on c s) = s"
proof (induction s)
  case Nil
  show ?case by simp
next
  case (Cons x s)
  then show ?case
    by (cases "split_on c s") (auto simp: join_with_Cons)
qed

section \<open>Trimming\<close>

lemma last_dropWhile: "dropWhile P xs \<noteq> [] \<Longrightarrow> last (dropWhile P xs) = last xs"
  by (induction xs) (auto split: if_splits)

lemma dropWhile_hd_id: "xs \<noteq> [] \<Longrightarrow> \<not> P (hd xs) \<Longrightarrow> dropWhile P xs = xs"
  by (cases xs) simp_all

lemma trim_Nil [simp]: "trim [] = []"
  by (simp add: trim_def)

lemma trim_clean:
  assumes "s \<noteq> []" and "\<not> is_ws (hd s)" and "\<not> is_ws (last s)"
  shows "trim s = s"
proof -
  from assms have 1: "dropWhile is_ws s = s" by (simp add: dropWhile_hd_id)
  from assms have "rev s \<noteq> []" "\<not> is_ws (hd (rev s))" by (simp_all add: hd_rev)
  then have 2: "dropWhile is_ws (rev s) = rev s" by (rule dropWhile_hd_id)
  show ?thesis by (simp add: trim_def 1 2)
qed

lemma trim_ends:
  assumes "trim s \<noteq> []"
  shows "\<not> is_ws (hd (trim s))" and "\<not> is_ws (last (trim s))"
proof -
  let ?d = "dropWhile is_ws s"
  let ?e = "dropWhile is_ws (rev ?d)"
  from assms have e: "?e \<noteq> []" by (simp add: trim_def)
  then have d: "?d \<noteq> []" by (cases "?d = []") simp_all
  from e have "\<not> is_ws (hd ?e)" by (rule hd_dropWhile)
  with e show "\<not> is_ws (last (trim s))" by (simp add: trim_def last_rev)
  from e have "last ?e = last (rev ?d)" by (rule last_dropWhile)
  with d have "last ?e = hd ?d" by (simp add: last_rev)
  moreover from d have "\<not> is_ws (hd ?d)" by (rule hd_dropWhile)
  ultimately show "\<not> is_ws (hd (trim s))" using e by (simp add: trim_def hd_rev)
qed

lemma trim_idem [simp]: "trim (trim s) = trim s"
  by (cases "trim s = []") (simp_all add: trim_clean trim_ends)

section \<open>Parsing numbers\<close>

lemma of_char_digit_char: "d < 10 \<Longrightarrow> (of_char (digit_char d) :: nat) = 48 + d"
  by (simp add: digit_char_def of_char_of)

lemma digit_val_digit_char [simp]: "d < 10 \<Longrightarrow> digit_val (digit_char d) = Some d"
  by (simp add: digit_val_def of_char_digit_char)

lemma radix_digit_digit_char [simp]: "d < 10 \<Longrightarrow> radix_digit 10 (digit_char d) = Some d"
  by (simp add: radix_digit_def)

lemma digit_char_plain:
  assumes "d < 10"
  shows "\<not> is_ws (digit_char d)" and "digit_char d \<noteq> CHR ''-''" and "digit_char d \<noteq> CHR ''+''"
    and "digit_char d \<noteq> CHR ''x''" and "digit_char d \<noteq> CHR ''X''"
proof -
  from assms show "\<not> is_ws (digit_char d)" by (simp add: is_ws_def of_char_digit_char)
  have neq: "digit_char d \<noteq> c" if "(of_char c :: nat) \<noteq> 48 + d" for c
    using that of_char_digit_char [OF assms] by auto
  from assms show "digit_char d \<noteq> CHR ''-''" "digit_char d \<noteq> CHR ''+''"
    "digit_char d \<noteq> CHR ''x''" "digit_char d \<noteq> CHR ''X''"
    by (simp_all add: neq)
qed

lemma leading_digits_decimal:
  "\<forall>d\<in>set ds. d < 10 \<Longrightarrow> leading_digits 10 (map digit_char ds) = ds"
  by (induction ds) simp_all

lemma radix_value_10 [simp]: "radix_value 10 = undecimal"
  by (simp add: fun_eq_iff radix_value_def undecimal_def)

lemma nat_toString_plain:
  "trimStart (nat_toString n) = nat_toString n"
  "strip_sign (nat_toString n) = (1, nat_toString n)"
  "strip_prefix (nat_toString n) = (10, nat_toString n)"
proof -
  obtain d ds where ds: "decimal n = d # ds" by (cases "decimal n") simp_all
  then have d: "d < 10" and r: "\<forall>x\<in>set ds. x < 10"
    using decimal_digits [of _ n] by auto
  from ds d show "trimStart (nat_toString n) = nat_toString n"
    by (simp add: nat_toString_def trimStart_def digit_char_plain)
  from ds d show "strip_sign (nat_toString n) = (1, nat_toString n)"
    by (simp add: nat_toString_def strip_sign_def digit_char_plain)
  from ds r show "strip_prefix (nat_toString n) = (10, nat_toString n)"
    by (cases ds) (simp_all add: nat_toString_def strip_prefix_def digit_char_plain)
qed

lemma leading_digits_nat_toString [simp]:
  "leading_digits 10 (nat_toString n) = decimal n"
  unfolding nat_toString_def by (rule leading_digits_decimal) (auto dest: decimal_digits)

lemma parseInt_nat_toString [simp]: "parseInt (nat_toString n) = Num (int n)"
  by (simp add: parseInt_def nat_toString_plain)

lemma parseInt_negative: "parseInt (CHR ''-'' # nat_toString n) = Num (- int n)"
  by (simp add: parseInt_def trimStart_def is_ws_def strip_sign_def nat_toString_plain)

lemma parseInt_int_toString [simp]: "parseInt (int_toString i) = Num i"
  by (simp add: int_toString_def parseInt_negative)

lemma parseInt_NaN:
  assumes "radix_digit 10 c = None" and "\<not> is_ws c" and "c \<noteq> CHR ''-''" and "c \<noteq> CHR ''+''"
  shows "parseInt (c # r) = NaN"
proof -
  have "radix_digit 10 CHR ''0'' = Some 0" by (simp add: radix_digit_def digit_val_def)
  with assms(1) have "c \<noteq> CHR ''0''" by auto
  then have "strip_prefix (c # r) = (10, c # r)"
    by (cases r) (simp_all add: strip_prefix_def)
  with assms show ?thesis
    by (simp add: parseInt_def trimStart_def strip_sign_def)
qed

lemma parseInt_examples:
  "parseInt ''3000'' = Num 3000" "parseInt ''  42px'' = Num 42" "parseInt ''0x1F'' = Num 31"
  "parseInt ''-7'' = Num (- 7)" "parseInt ''abc'' = NaN" "parseInt '''' = NaN"
  by code_simp+

lemma int_toString_chars:
  assumes "c \<in> set (int_toString i)"
  shows "c = CHR ''-'' \<or> (\<exists>d<10. c = digit_char d)"
  using assms by (auto simp: int_toString_def nat_toString_def dest: decimal_digits split: if_splits)

lemma int_toString_nonempty [simp]: "int_toString i \<noteq> []"
  by (simp add: int_toString_def)

lemma int_toString_no_ws: "c \<in> set (int_toString i) \<Longrightarrow> \<not> is_ws c"
  by (auto dest!: int_toString_chars simp: digit_char_plain) (simp add: is_ws_def)

lemma int_toString_no_comma [simp]: "CHR '','' \<notin> set (int_toString i)"
proof
  assume "CHR '','' \<in> set (int_toString i)"
  then obtain d where "d < 10" "digit_char d = CHR '',''"
    by (auto dest!: int_toString_chars)
  then have "(of_char CHR '','' :: nat) = 48 + d" by (metis of_char_digit_char)
  then show False by simp
qed

lemma int_toString_no_semicolon [simp]: "CHR '';'' \<notin> set (int_toString i)"
proof
  assume "CHR '';'' \<in> set (int_toString i)"
  then obtain d where "d < 10" "digit_char d = CHR '';''"
    by (auto dest!: int_toString_chars)
  then have "(of_char CHR '';'' :: nat) = 48 + d" by (metis of_char_digit_char)
  with \<open>d < 10\<close> show False by simp
qed

lemma trim_int_toString [simp]: "trim (int_toString i) = int_toString i"
  by (rule trim_clean) (simp_all add: int_toString_no_ws [of _ i])

section \<open>The constants\<close>

lemma parse_provider_entry:
  assumes "CHR '','' \<notin> set a" and "trim a = a"
  shows "parse_provider (a @ CHR '','' # int_toString i) = \<lparr>address = a, priority = Num i\<rparr>"
  using assms by (simp add: parse_provider_def split_on_append truthy_def)

lemma parse_provider_default:
  assumes "CHR '','' \<notin> set a"
  shows "parse_provider a = \<lparr>address = trim a, priority = Num 100\<rparr>"
  using assms by (simp add: parse_provider_def)

lemma env_list_unset [simp]: "e name = None \<Longrightarrow> env_list e name c = []"
  by (simp add: env_list_def)

lemma length_env_list:
  "e name = Some v \<Longrightarrow> v \<noteq> [] \<Longrightarrow> length (env_list e name c) = Suc (count_list v c)"
  by (simp add: env_list_def truthy_def length_split_on)

lemma env_list_empty_iff: "env_list e name c = [] \<longleftrightarrow> \<not> truthy_opt (e name)"
  by (simp add: env_list_def truthy_opt_def split: option.splits)

lemma parseInt_default_PORT: "e ''PORT'' = None \<Longrightarrow> parseInt_val (PORT (load_config e)) = Num 3000"
  by (simp add: load_config_def)

section \<open>An example environment\<close>

text \<open>
  Two on-chain providers, the second without a priority, three keys, and the default
  port; the closed instances of the theorems are stated over it.
\<close>

definition demo_env :: env where
  "demo_env = map_of [(''PROVIDERS'', ''0xA1, 7;0xB2''), (''KEYS'', ''k0,k1,k2'')]"

definition demo_cfg :: config where
  "demo_cfg = load_config demo_env"

lemma demo_cfg_eq:
  "demo_cfg =
     \<lparr>PROVIDERS = [\<lparr>address = ''0xA1'', priority = Num 7\<rparr>, \<lparr>address = ''0xB2'', priority = Num 100\<rparr>],
      DIRECT_ENDPOINTS = [], KEYS = [''k0'', ''k1'', ''k2''], PORT = NumV (Num 3000),
      HOST = ''0.0.0.0'', RPC = None, LEDGER_CA = None, INFERENCE_CA = None, GAS_PRICE = None,
      DEFAULT_PROVIDER_PRIORITY = ''100'', DEFAULT_ENDPOINT_PRIORITY = ''50''\<rparr>"
  by code_simp

end
