(* ===== verification/Supervisor.thy ===== *)
theory Supervisor
  imports HealthMonitor Config
begin

text \<open>
  The process supervisor of \<^verbatim>\<open>router-ha.js\<close>: \<^verbatim>\<open>startInstance\<close> and the handlers it
  installs on the child process.

  \<^item> \<open>build_args\<close> is the argument list of the worker (lines 99 to 124).
  \<^item> \<open>spawn_instance\<close> is the synchronous part of \<^verbatim>\<open>startInstance\<close>: it spawns the child,
    builds the instance object and stores it in the \<^verbatim>\<open>Map\<close> under its id. Whether the
    executable starts is decided outside the program and is an input (\<open>spawned\<close>).
    \<open>startInstance\<close> is \<open>spawn_instance\<close> followed by the readiness gate.
  \<^item> \<open>on_close\<close> and \<open>on_child_error\<close> are the \<^verbatim>\<open>close\<close> and \<^verbatim>\<open>error\<close> handlers of the
    child, \<open>on_restart_timer\<close> is the callback that \<open>on_close\<close> passes to \<^verbatim>\<open>setTimeout\<close>.
    Each takes the reference of the instance object its closure was created with. The
    closure variables \<^verbatim>\<open>instanceId\<close>, \<^verbatim>\<open>key\<close> and \<^verbatim>\<open>port\<close> are read from that object: no
    operation of the program assigns these fields, so they are the values the
    closure captured (\<open>launch_spec_kept\<close> of theory \<open>System\<close> states this for every step).
  \<^item> A pending restart is an entry of \<open>timers\<close>: the time at which it is due and the
    reference of the object whose child exited. \<open>fire_timer\<close> removes the entry and
    runs the callback.

  The exit code of a child is an \<open>int option\<close>; \<open>None\<close> is the \<^verbatim>\<open>null\<close> that Node passes
  when the child was ended by a signal.
\<close>

section \<open>The argument list of a worker\<close>

definition provider_arg :: "provider \<Rightarrow> string" where
  "provider_arg p = address p @ '','' @ num_toString (priority p)"

definition opt_flag :: "string \<Rightarrow> string option \<Rightarrow> string list" where
  "opt_flag flag v = (case v of None \<Rightarrow> [] | Some x \<Rightarrow> if truthy x then [flag, x] else [])"

definition build_args :: "config \<Rightarrow> string option \<Rightarrow> jsnum \<Rightarrow> string list" where
  "build_args cfg key' port' =
     [''router-serve''] @
     concat (map (\<lambda>p. [''--add-provider'', provider_arg p]) (PROVIDERS cfg)) @
     concat (map (\<lambda>e. [''--add-endpoint'', e]) (DIRECT_ENDPOINTS cfg)) @
     opt_flag ''--key'' key' @
     [''--port'', num_toString port',
      ''--host'', HOST cfg,
      ''--default-provider-priority'', DEFAULT_PROVIDER_PRIORITY cfg,
      ''--default-endpoint-priority'', DEFAULT_ENDPOINT_PRIORITY cfg] @
     opt_flag ''--rpc'' (RPC cfg) @
     opt_flag ''--ledger-ca'' (LEDGER_CA cfg) @
     opt_flag ''--inference-ca'' (INFERENCE_CA cfg) @
     opt_flag ''--gas-price'' (GAS_PRICE cfg)"

section \<open>Starting an instance\<close>

definition READY_TIMEOUT :: millis where
  "READY_TIMEOUT = 60000"

definition spawn_instance ::
  "config \<Rightarrow> bool \<Rightarrow> string \<Rightarrow> string option \<Rightarrow> jsnum \<Rightarrow> manager \<Rightarrow> ref \<times> manager" where
  "spawn_instance cfg spawned instanceId' key' port' s =
     (let args = build_args cfg key' port';
          child' = new_child args spawned;
          instance = new_instance instanceId' key' port' child' (now s)
      in register instance s)"

definition startInstance ::
  "config \<Rightarrow> bool \<Rightarrow> probes \<Rightarrow> string \<Rightarrow> string option \<Rightarrow> jsnum \<Rightarrow> manager
     \<Rightarrow> wait_result \<times> manager" where
  "startInstance cfg spawned net instanceId' key' port' s =
     (let (r, s1) = spawn_instance cfg spawned instanceId' key' port' s
      in waitForInstanceReady net instanceId' READY_TIMEOUT s1)"

section \<open>The handlers of a child\<close>

definition on_close :: "ref \<Rightarrow> int option \<Rightarrow> manager \<Rightarrow> manager" where
  "on_close r code s =
     (let s1 = update_inst r (set_healthy False) s in
      if \<not> isShuttingDown s1 \<and> code \<noteq> Some 0
      then s1\<lparr>timers := timers s1 @ [(now s1 + RESTART_DELAY, r)]\<rparr>
      else s1)"

definition on_child_error :: "ref \<Rightarrow> manager \<Rightarrow> manager" where
  "on_child_error r s = update_inst r (set_healthy False) s"

definition bump_restartCount :: "inst \<Rightarrow> inst" where
  "bump_restartCount i = i\<lparr>restartCount := restartCount i + 1\<rparr>"

definition on_restart_timer :: "config \<Rightarrow> bool \<Rightarrow> probes \<Rightarrow> ref \<Rightarrow> manager \<Rightarrow> manager" where
  "on_restart_timer cfg spawned net r s =
     (if \<not> isShuttingDown s then
        (let s1 = update_inst r bump_restartCount s;
             instance = deref s1 r
         in snd (startInstance cfg spawned net
                   (instanceId instance) (key instance) (port instance) s1))
      else s)"

definition fire_timer ::
  "config \<Rightarrow> bool \<Rightarrow> probes \<Rightarrow> millis \<times> ref \<Rightarrow> manager \<Rightarrow> manager" where
  "fire_timer cfg spawned net e s =
     on_restart_timer cfg spawned net (snd e) (s\<lparr>timers := remove1 e (timers s)\<rparr>)"

lemmas supervisor_defs [op_defs] =
  provider_arg_def opt_flag_def build_args_def READY_TIMEOUT_def spawn_instance_def
  startInstance_def on_close_def on_child_error_def bump_restartCount_def
  on_restart_timer_def fire_timer_def

section \<open>The launch contract\<close>

text \<open>
  After the subcommand the argument list is a sequence of flag and value pairs;
  \<open>flag_pairs\<close> reads it as such, and \<open>flag_values\<close> collects the values of one flag.
\<close>

fun flag_pairs :: "string list \<Rightarrow> (string \<times> string) list" where
  "flag_pairs (f # v # rest) = (f, v) # flag_pairs rest"
| "flag_pairs _ = []"

definition flag_values :: "string \<Rightarrow> string list \<Rightarrow> string list" where
  "flag_values f args = map snd (filter (\<lambda>p. fst p = f) (flag_pairs (tl args)))"

definition opt_pair :: "string \<Rightarrow> string option \<Rightarrow> (string \<times> string) list" where
  "opt_pair flag v = (case v of None \<Rightarrow> [] | Some x \<Rightarrow> if truthy x then [(flag, x)] else [])"

lemma flag_pairs_append:
  "even (length xs) \<Longrightarrow> flag_pairs (xs @ ys) = flag_pairs xs @ flag_pairs ys"
  by (induction xs rule: flag_pairs.induct) simp_all

lemma flag_pairs_concat:
  "flag_pairs (concat (map (\<lambda>x. [f, g x]) xs) @ ys) = map (\<lambda>x. (f, g x)) xs @ flag_pairs ys"
  by (induction xs) simp_all

lemma flag_pairs_opt_flag:
  "flag_pairs (opt_flag f v @ ys) = opt_pair f v @ flag_pairs ys"
  by (simp add: opt_flag_def opt_pair_def split: option.splits)

lemma flag_pairs_build_args:
  "flag_pairs (tl (build_args cfg key' port')) =
     map (\<lambda>p. (''--add-provider'', provider_arg p)) (PROVIDERS cfg) @
     map (\<lambda>e. (''--add-endpoint'', e)) (DIRECT_ENDPOINTS cfg) @
     opt_pair ''--key'' key' @
     [(''--port'', num_toString port'), (''--host'', HOST cfg),
      (''--default-provider-priority'', DEFAULT_PROVIDER_PRIORITY cfg),
      (''--default-endpoint-priority'', DEFAULT_ENDPOINT_PRIORITY cfg)] @
     opt_pair ''--rpc'' (RPC cfg) @ opt_pair ''--ledger-ca'' (LEDGER_CA cfg) @
     opt_pair ''--inference-ca'' (INFERENCE_CA cfg) @ opt_pair ''--gas-price'' (GAS_PRICE cfg)"
proof -
  have "flag_pairs (opt_flag f v) = opt_pair f v" for f v
    using flag_pairs_opt_flag [of f v "[]"] by simp
  then show ?thesis
    by (simp add: build_args_def flag_pairs_concat flag_pairs_opt_flag)
qed

lemma flag_values_opt_pair:
  "map snd (filter (\<lambda>p. fst p = f) (opt_pair g v)) =
     (if f = g \<and> truthy_opt v then [the v] else [])"
  by (auto simp: opt_pair_def truthy_opt_def split: option.splits)

lemma filter_const_pairs:
  "map snd (filter (\<lambda>p. fst p = f) (map (\<lambda>x. (g, h x)) xs)) = (if f = g then map h xs else [])"
  by (induction xs) auto

lemma flag_values_build_args:
  "flag_values ''--port'' (build_args cfg key' port') = [num_toString port']"
  "flag_values ''--key'' (build_args cfg key' port') = (if truthy_opt key' then [the key'] else [])"
  "flag_values ''--host'' (build_args cfg key' port') = [HOST cfg]"
  "flag_values ''--add-provider'' (build_args cfg key' port') = map provider_arg (PROVIDERS cfg)"
  "flag_values ''--add-endpoint'' (build_args cfg key' port') = DIRECT_ENDPOINTS cfg"
  by (simp_all add: flag_values_def flag_pairs_build_args flag_values_opt_pair
      filter_const_pairs comp_def)




section \<open>Facts about starting an instance\<close>

lemma new_instance_simps [simp]:
  "instanceId (new_instance i k p c t) = i"
  "key (new_instance i k p c t) = k"
  "port (new_instance i k p c t) = p"
  "process (new_instance i k p c t) = c"
  "healthy (new_instance i k p c t) = False"
  "lastHealthCheck (new_instance i k p c t) = None"
  "startTime (new_instance i k p c t) = t"
  "restartCount (new_instance i k p c t) = 0"
  by (simp_all add: new_instance_def)

lemma new_child_simps [simp]:
  "argv (new_child a b) = a" "killed (new_child a b) = False"
  "running (new_child a b) = b" "received (new_child a b) = []"
  by (simp_all add: new_child_def)

lemma bump_restartCount_simps [simp]:
  "restartCount (bump_restartCount i) = Suc (restartCount i)"
  "instanceId (bump_restartCount i) = instanceId i"
  "key (bump_restartCount i) = key i"
  "port (bump_restartCount i) = port i"
  "healthy (bump_restartCount i) = healthy i"
  "process (bump_restartCount i) = process i"
  "startTime (bump_restartCount i) = startTime i"
  by (simp_all add: bump_restartCount_def)

lemma spawn_instance_eq:
  "spawn_instance cfg spawned i k p s =
     register (new_instance i k p (new_child (build_args cfg k p) spawned) (now s)) s"
  by (simp add: spawn_instance_def)

lemma map_get_register:
  "map_get (snd (register i s)) k =
     (if k = instanceId i then Some (length (heap s)) else map_get s k)"
  by (simp add: map_get_def update_conv')

lemma keys_register:
  "map fst (instances (snd (register i s))) =
     (if instanceId i \<in> set (map fst (instances s)) then map fst (instances s)
      else map fst (instances s) @ [instanceId i])"
  by (simp add: update_keys)

lemma modify_at_snoc [simp]: "modify_at (length xs) f (xs @ [x]) = xs @ [f x]"
  by (simp add: modify_at_def)

lemma startInstance_eq:
  "startInstance cfg spawned net i k p s =
     waitForInstanceReady net i READY_TIMEOUT (snd (spawn_instance cfg spawned i k p s))"
  by (simp add: startInstance_def case_prod_unfold)

lemma startInstance_frame [simp, frame]:
  "instances (snd (startInstance cfg spawned net i k p s)) =
     AList.update i (length (heap s)) (instances s)"
  "currentActiveInstance (snd (startInstance cfg spawned net i k p s)) = currentActiveInstance s"
  "isShuttingDown (snd (startInstance cfg spawned net i k p s)) = isShuttingDown s"
  "healthCheckInterval (snd (startInstance cfg spawned net i k p s)) = healthCheckInterval s"
  "timers (snd (startInstance cfg spawned net i k p s)) = timers s"
  "console (snd (startInstance cfg spawned net i k p s)) = console s"
  "exitCode (snd (startInstance cfg spawned net i k p s)) = exitCode s"
  "length (heap (snd (startInstance cfg spawned net i k p s))) = Suc (length (heap s))"
  "handlers (snd (startInstance cfg spawned net i k p s)) = handlers s"
  "listening (snd (startInstance cfg spawned net i k p s)) = listening s"
  by (simp_all add: startInstance_eq spawn_instance_eq)

lemma startInstance_result:
  obtains b where "fst (startInstance cfg spawned net i k p s) = Returned b"
    and "heap (snd (startInstance cfg spawned net i k p s)) =
           heap s @ [(new_instance i k p (new_child (build_args cfg k p) spawned) (now s))
                       \<lparr>healthy := b\<rparr>]"
proof -
  let ?n = "new_instance i k p (new_child (build_args cfg k p) spawned) (now s)"
  let ?s1 = "snd (register ?n s)"
  have m: "map_get ?s1 i = Some (length (heap s))" by (simp add: map_get_register)
  have l: "length (heap s) < length (heap ?s1)" by simp
  have n: "?n\<lparr>healthy := False\<rparr> = ?n" by (simp add: new_instance_def)
  from m l show thesis
    by (cases rule: wait_ready_cases [where net = net and mw = READY_TIMEOUT])
       (rule that [of True], simp_all add: startInstance_eq spawn_instance_eq set_healthy_def,
        rule that [of False], simp_all add: startInstance_eq spawn_instance_eq n)
qed

lemma startInstance_verdict:
  "fst (startInstance cfg spawned net i k p s) = Returned (ready_within net 0 0 READY_TIMEOUT)"
  by (simp add: startInstance_eq spawn_instance_eq wait_ready_verdict map_get_register)

lemma wf_startInstance [simp, wf_keep]:
  "wf s \<Longrightarrow> wf (snd (startInstance cfg spawned net i k p s))"
  by (simp add: startInstance_eq spawn_instance_eq)

lemma deref_startInstance_old:
  "r < length (heap s) \<Longrightarrow> deref (snd (startInstance cfg spawned net i k p s)) r = deref s r"
  by (rule startInstance_result [of cfg spawned net i k p s]) (simp add: deref_def nth_append)

lemma deref_startInstance_new:
  "deref (snd (startInstance cfg spawned net i k p s)) (length (heap s)) =
     (new_instance i k p (new_child (build_args cfg k p) spawned) (now s))
       \<lparr>healthy := (fst (startInstance cfg spawned net i k p s) = Returned True)\<rparr>"
  by (rule startInstance_result [of cfg spawned net i k p s]) (simp add: deref_def)

section \<open>Facts about the handlers\<close>

lemma on_close_frame [simp, frame]:
  "instances (on_close r code s) = instances s"
  "currentActiveInstance (on_close r code s) = currentActiveInstance s"
  "isShuttingDown (on_close r code s) = isShuttingDown s"
  "healthCheckInterval (on_close r code s) = healthCheckInterval s"
  "now (on_close r code s) = now s"
  "console (on_close r code s) = console s"
  "exitCode (on_close r code s) = exitCode s"
  "handlers (on_close r code s) = handlers s"
  "listening (on_close r code s) = listening s"
  "heap (on_close r code s) = modify_at r (set_healthy False) (heap s)"
  by (simp_all add: on_close_def Let_def update_inst_def)

lemma timers_on_close:
  "timers (on_close r code s) =
     (if \<not> isShuttingDown s \<and> code \<noteq> Some 0 then timers s @ [(now s + RESTART_DELAY, r)]
      else timers s)"
  by (simp add: on_close_def Let_def)

lemma deref_on_close:
  "deref (on_close r code s) q =
     (if q = r \<and> r < length (heap s) then set_healthy False (deref s r) else deref s q)"
  by (simp add: deref_def nth_modify_at)

lemma wfD_timer: "wf s \<Longrightarrow> (t, r) \<in> set (timers s) \<Longrightarrow> r < length (heap s)"
  by (auto simp: wf_def)

lemma wf_timers:
  assumes "wf s" and "\<And>t r. (t, r) \<in> set ts \<Longrightarrow> r < length (heap s)"
  shows "wf (s\<lparr>timers := ts\<rparr>)"
  using assms by (auto simp: wf_def split: option.splits)

lemma wf_timers_remove1:
  assumes "wf s"
  shows "wf (s\<lparr>timers := remove1 e (timers s)\<rparr>)"
proof (rule wf_timers [OF assms])
  fix t r
  assume "(t, r) \<in> set (remove1 e (timers s))"
  then have "(t, r) \<in> set (timers s)" by (rule set_remove1_subset [THEN subsetD])
  with assms show "r < length (heap s)" by (rule wfD_timer)
qed

lemma wf_on_close [wf_keep]:
  assumes "wf s" and "r < length (heap s)"
  shows "wf (on_close r code s)"
proof -
  let ?u = "update_inst r (set_healthy False) s"
  have "wf (?u\<lparr>timers := timers s @ [(t, r)]\<rparr>)" for t
  proof (rule wf_timers)
    from assms(1) show "wf ?u" by simp
    fix t' r'
    assume "(t', r') \<in> set (timers s @ [(t, r)])"
    with assms show "r' < length (heap ?u)" by (auto dest: wfD_timer)
  qed
  with assms(1) show ?thesis by (simp add: on_close_def Let_def)
qed

lemma wf_on_child_error [simp, wf_keep]: "wf s \<Longrightarrow> wf (on_child_error r s)"
  by (simp add: on_child_error_def)

lemma wf_bump [simp, wf_keep]: "wf s \<Longrightarrow> wf (update_inst r bump_restartCount s)"
  by (rule wf_update_inst) simp_all

lemma wf_on_restart_timer [simp, wf_keep]: "wf s \<Longrightarrow> wf (on_restart_timer cfg spawned net r s)"
  by (simp add: on_restart_timer_def Let_def)

lemma wf_fire_timer [simp, wf_keep]: "wf s \<Longrightarrow> wf (fire_timer cfg spawned net e s)"
  by (simp add: fire_timer_def wf_timers_remove1)

lemma on_restart_timer_eq:
  assumes "\<not> isShuttingDown s" and "r < length (heap s)"
  shows "on_restart_timer cfg spawned net r s =
     snd (startInstance cfg spawned net (instanceId (deref s r)) (key (deref s r))
            (port (deref s r)) (update_inst r bump_restartCount s))"
  using assms by (simp add: on_restart_timer_def Let_def)

lemma on_restart_timer_frame [simp, frame]:
  "handlers (on_restart_timer cfg spawned net r s) = handlers s"
  "listening (on_restart_timer cfg spawned net r s) = listening s"
  "isShuttingDown (on_restart_timer cfg spawned net r s) = isShuttingDown s"
  "healthCheckInterval (on_restart_timer cfg spawned net r s) = healthCheckInterval s"
  "exitCode (on_restart_timer cfg spawned net r s) = exitCode s"
  "timers (on_restart_timer cfg spawned net r s) = timers s"
  by (simp_all add: on_restart_timer_def Let_def)

lemma restart_verdict:
  assumes "\<not> isShuttingDown s" and "r < length (heap s)"
  shows "healthy (deref (on_restart_timer cfg spawned net r s) (length (heap s))) =
         ready_within net 0 0 READY_TIMEOUT"
  using deref_startInstance_new [where s = "update_inst r bump_restartCount s" and cfg = cfg
      and spawned = spawned and net = net and i = "instanceId (deref s r)"
      and k = "key (deref s r)" and p = "port (deref s r)"]
  by (simp add: on_restart_timer_eq [OF assms] startInstance_verdict)

lemma on_restart_timer_shutdown [simp]:
  "isShuttingDown s \<Longrightarrow> on_restart_timer cfg spawned net r s = s"
  by (simp add: on_restart_timer_def)

lemma map_get_update [simp]: "map_of (AList.update k v al) k = Some v"
  by (simp add: update_conv')

text \<open>
  The state after a restart of the registered object \<open>r\<close>: the new object is allocated
  at the end of the store and takes the place of \<open>r\<close> in the registry; \<open>r\<close> has its
  restart count incremented and every other object is unchanged.
\<close>

lemma restart_shape:
  assumes "wf s" and "\<not> isShuttingDown s" and "(k, r) \<in> set (instances s)"
  shows "instances (on_restart_timer cfg spawned net r s) =
           AList.update k (length (heap s)) (instances s)"
    and "set (value_refs (on_restart_timer cfg spawned net r s)) =
           insert (length (heap s)) (set (value_refs s) - {r})"
    and "length (heap (on_restart_timer cfg spawned net r s)) = Suc (length (heap s))"
    and "timers (on_restart_timer cfg spawned net r s) = timers s"
    and "\<not> isShuttingDown (on_restart_timer cfg spawned net r s)"
    and "\<And>q. q < length (heap s) \<Longrightarrow> deref (on_restart_timer cfg spawned net r s) q =
           (if q = r then bump_restartCount (deref s r) else deref s q)"
    and "\<exists>h. deref (on_restart_timer cfg spawned net r s) (length (heap s)) =
           (new_instance k (key (deref s r)) (port (deref s r))
              (new_child (build_args cfg (key (deref s r)) (port (deref s r))) spawned) (now s))
           \<lparr>healthy := h\<rparr>"
proof -
  let ?s' = "on_restart_timer cfg spawned net r s"
  let ?u = "update_inst r bump_restartCount s"
  from assms have r: "r < length (heap s)" and id: "instanceId (deref s r) = k"
    by (auto dest: wfD_ref wfD_id)
  note eq = on_restart_timer_eq [OF assms(2) r, of cfg spawned net]
  from r id show inst: "instances ?s' = AList.update k (length (heap s)) (instances s)"
    by (simp add: eq)
  show "set (value_refs ?s') = insert (length (heap s)) (set (value_refs s) - {r})"
    using value_refs_restart [OF assms(1,3), of "length (heap s)"]
    by (simp add: value_refs_def inst)
  show "length (heap ?s') = Suc (length (heap s))" by (simp add: eq)
  show "timers ?s' = timers s" by (simp add: eq)
  from assms(2) show "\<not> isShuttingDown ?s'" by (simp add: eq)
  show "deref ?s' q = (if q = r then bump_restartCount (deref s r) else deref s q)"
    if "q < length (heap s)" for q
    using that r by (simp add: eq deref_startInstance_old deref_update_inst)
  from r id deref_startInstance_new [where s = ?u]
  show "\<exists>h. deref ?s' (length (heap s)) =
      (new_instance k (key (deref s r)) (port (deref s r))
         (new_child (build_args cfg (key (deref s r)) (port (deref s r))) spawned) (now s))
      \<lparr>healthy := h\<rparr>"
    by (simp add: eq) (rule exI, rule refl)
qed

section \<open>Properties of the supervisor\<close>

text \<open>
  \<^bold>\<open>C3\<close> (functional). A restart does not carry the restart count over. The timer
  callback increments \<^verbatim>\<open>restartCount\<close> of the object whose child exited and then calls
  \<^verbatim>\<open>startInstance\<close>, which stores a new object with \<^verbatim>\<open>restartCount: 0\<close> under the same
  id. After the restart the registry therefore shows a count of 0 for the id, and the
  incremented count is on an object that is no longer registered.
\<close>

theorem restart_count_is_reset:
  assumes "wf s" and "\<not> isShuttingDown s" and "(k, r) \<in> set (instances s)"
  shows "\<exists>r'. map_get (on_restart_timer cfg spawned net r s) k = Some r' \<and> r' \<noteq> r \<and>
           restartCount (deref (on_restart_timer cfg spawned net r s) r') = 0 \<and>
           restartCount (deref (on_restart_timer cfg spawned net r s) r) =
             Suc (restartCount (deref s r)) \<and>
           r \<notin> set (value_refs (on_restart_timer cfg spawned net r s))"
proof -
  from assms have r: "r < length (heap s)" and k: "instanceId (deref s r) = k"
    by (auto dest: wfD_ref wfD_id)
  let ?s' = "on_restart_timer cfg spawned net r s"
  let ?n = "length (heap s)"
  note eq = on_restart_timer_eq [OF assms(2) r, of cfg spawned net]
  from r k have inst: "instances ?s' = AList.update k ?n (instances s)" by (simp add: eq)
  then have m: "map_get ?s' k = Some ?n" by (simp add: map_get_def)
  have "r \<notin> set (value_refs ?s')"
  proof
    assume "r \<in> set (value_refs ?s')"
    then obtain k' where "(k', r) \<in> set (instances ?s')" by (auto simp: value_refs_def)
    with r have "(k', r) \<in> set (instances s)" "k' \<noteq> k"
      by (auto simp: inst set_update_distinct [OF wfD_keys [OF assms(1)]])
    with assms(1,3) show False by (auto dest: wf_ref_key)
  qed
  moreover from r have "restartCount (deref ?s' ?n) = 0"
    using deref_startInstance_new [where s = "update_inst r bump_restartCount s"]
    by (simp add: eq)
  moreover from r have "restartCount (deref ?s' r) = Suc (restartCount (deref s r))"
    by (simp add: eq deref_startInstance_old)
  ultimately show ?thesis using m r by auto
qed

theorem restart_count_is_reset_witness:
  "wf demo3 \<and> \<not> isShuttingDown demo3 \<and> (''router-1'', 1) \<in> set (instances demo3) \<and>
   (\<exists>r'. map_get (on_restart_timer demo_cfg True (\<lambda>k. (Response 200, 40)) 1 demo3) ''router-1''
            = Some r' \<and> r' \<noteq> 1 \<and>
      restartCount (deref (on_restart_timer demo_cfg True (\<lambda>k. (Response 200, 40)) 1 demo3) r') = 0 \<and>
      restartCount (deref (on_restart_timer demo_cfg True (\<lambda>k. (Response 200, 40)) 1 demo3) 1) = 1)"
proof -
  have a: "\<not> isShuttingDown demo3" and b: "(''router-1'', 1) \<in> set (instances demo3)"
    and c: "restartCount (deref demo3 1) = 0"
    by code_simp+
  from restart_count_is_reset [OF demo3_wf a b, of demo_cfg True "\<lambda>k. (Response 200, 40)"]
    demo3_wf a b c
  show ?thesis by auto
qed

text \<open>
  \<^bold>\<open>C22\<close> (functional). A restart reuses the launch parameters: the object that the
  timer callback registers has the id, key and port of the object whose child exited,
  its child is started with the argument list built from that key and port, its start
  time is the time of the restart, and it takes the place of the old object in the
  registry, so that the order and the number of the entries do not change.
\<close>

theorem restart_keeps_launch_spec:
  assumes "wf s" and "\<not> isShuttingDown s" and "(k, r) \<in> set (instances s)"
  shows "instanceId (deref (on_restart_timer cfg spawned net r s) (length (heap s))) = k \<and>
         key (deref (on_restart_timer cfg spawned net r s) (length (heap s))) = key (deref s r) \<and>
         port (deref (on_restart_timer cfg spawned net r s) (length (heap s))) = port (deref s r) \<and>
         argv (process (deref (on_restart_timer cfg spawned net r s) (length (heap s)))) =
           build_args cfg (key (deref s r)) (port (deref s r)) \<and>
         startTime (deref (on_restart_timer cfg spawned net r s) (length (heap s))) = now s \<and>
         map fst (instances (on_restart_timer cfg spawned net r s)) = map fst (instances s)"
proof -
  from assms have r: "r < length (heap s)" and k: "instanceId (deref s r) = k"
    by (auto dest: wfD_ref wfD_id)
  from assms(3) have "k \<in> fst ` set (instances s)" by force
  with r k show ?thesis
    using deref_startInstance_new [where s = "update_inst r bump_restartCount s"]
    by (simp add: on_restart_timer_eq [OF assms(2) r] update_keys)
qed

theorem restart_keeps_launch_spec_witness:
  "wf demo3 \<and> \<not> isShuttingDown demo3 \<and> (''router-1'', 1) \<in> set (instances demo3) \<and>
   port (deref (on_restart_timer demo_cfg True (\<lambda>k. (RequestError, 2)) 1 demo3) 3) = Num 3101 \<and>
   map fst (instances (on_restart_timer demo_cfg True (\<lambda>k. (RequestError, 2)) 1 demo3)) =
     [''router-0'', ''router-1'', ''router-2'']"
proof -
  have a: "\<not> isShuttingDown demo3" and b: "(''router-1'', 1) \<in> set (instances demo3)"
    and c: "port (deref demo3 1) = Num 3101"
    and d: "map fst (instances demo3) = [''router-0'', ''router-1'', ''router-2'']"
    by code_simp+
  from restart_keeps_launch_spec [OF demo3_wf a b, of demo_cfg True "\<lambda>k. (RequestError, 2)"]
    demo3_wf a b c d
  show ?thesis by (simp add: demo3_heap)
qed

text \<open>
  \<^bold>\<open>C18\<close> (functional). The \<^verbatim>\<open>close\<close> handler on every branch: it clears the health flag
  of the object whose child exited and of no other object, leaves the registry as it
  is, and schedules one restart, due after the restart delay of 5 s, exactly when the
  manager is not shutting down and the exit code is not 0 (a child ended by a signal
  has the code \<^verbatim>\<open>null\<close> and is restarted). A clean exit leaves the instance registered
  and unhealthy with no restart pending.
\<close>

theorem close_handler_effect:
  assumes "r < length (heap s)"
  shows "\<not> healthy (deref (on_close r code s) r) \<and>
         (\<forall>q. q \<noteq> r \<longrightarrow> deref (on_close r code s) q = deref s q) \<and>
         instances (on_close r code s) = instances s \<and>
         healthy_refs (on_close r code s) = removeAll r (healthy_refs s) \<and>
         timers (on_close r code s) =
           (if \<not> isShuttingDown s \<and> code \<noteq> Some 0
            then timers s @ [(now s + 5000, r)] else timers s)"
proof -
  have "healthy_refs (on_close r code s) = healthy_refs (update_inst r (set_healthy False) s)"
    by (simp add: healthy_refs_def value_refs_def deref_def update_inst_def)
  with assms show ?thesis
    by (simp add: deref_on_close timers_on_close healthy_refs_mark_unhealthy RESTART_DELAY_def)
qed

theorem close_handler_effect_witness:
  "(1::nat) < length (heap demo3) \<and>
   healthy_refs (on_close 1 (Some 1) demo3) = [0, 2] \<and>
   timers (on_close 1 (Some 1) demo3) = [(5000, 1)] \<and>
   timers (on_close 1 None demo3) = [(5000, 1)] \<and>
   timers (on_close 1 (Some 0) demo3) = []"
proof -
  have a: "(1::nat) < length (heap demo3)" by (simp add: demo3_heap)
  have b: "\<not> isShuttingDown demo3" "timers demo3 = []" "now demo3 = 0" by code_simp+
  from close_handler_effect [OF a, of "Some 1"] close_handler_effect [OF a, of None]
    close_handler_effect [OF a, of "Some 0"] a b
  show ?thesis by (simp add: demo3_healthy)
qed

text \<open>
  \<^bold>\<open>C19\<close> (safety). No restart once shutdown has begun: when \<^verbatim>\<open>isShuttingDown\<close> is set,
  the \<^verbatim>\<open>close\<close> handler schedules nothing, whatever the exit code, and a restart timer
  that was already pending fires without effect: no child is spawned, no object is
  created, and the registry is unchanged.
\<close>

theorem no_restart_when_shutting_down:
  assumes "isShuttingDown s"
  shows "timers (on_close r code s) = timers s \<and>
         fire_timer cfg spawned net e s = s\<lparr>timers := remove1 e (timers s)\<rparr>"
  using assms by (simp add: timers_on_close fire_timer_def)

theorem no_restart_when_shutting_down_witness:
  "isShuttingDown (demo3\<lparr>isShuttingDown := True\<rparr>) \<and>
   timers (on_close 1 (Some 1) (demo3\<lparr>isShuttingDown := True\<rparr>)) = [] \<and>
   heap (fire_timer demo_cfg True (\<lambda>k. (Response 200, 1)) (5000, 1)
           (demo3\<lparr>isShuttingDown := True, timers := [(5000, 1)]\<rparr>)) = heap demo3"
proof -
  have b: "timers demo3 = []" by code_simp
  from no_restart_when_shutting_down [of "demo3\<lparr>isShuttingDown := True\<rparr>" 1 "Some 1"]
    no_restart_when_shutting_down [of "demo3\<lparr>isShuttingDown := True, timers := [(5000, 1)]\<rparr>"
      1 "Some 1" demo_cfg True "\<lambda>k. (Response 200, 1)" "(5000, 1)"] b
  show ?thesis by simp
qed

text \<open>
  \<^bold>\<open>C24\<close> (functional). \<^verbatim>\<open>startInstance\<close> registers a new object under the id, with the
  given key and port, the child's argument list, restart count 0 and the current time
  as start time; it returns after the readiness gate and does not raise; the object is
  healthy exactly when the gate returned \<^verbatim>\<open>true\<close>; the objects that existed before are
  unchanged.
\<close>

theorem start_instance_registers:
  "fst (startInstance cfg spawned net i k p s) \<noteq> TypeError \<and>
   map_get (snd (startInstance cfg spawned net i k p s)) i = Some (length (heap s)) \<and>
   deref (snd (startInstance cfg spawned net i k p s)) (length (heap s)) =
     \<lparr>instanceId = i, process = new_child (build_args cfg k p) spawned, port = p, key = k,
      healthy = (fst (startInstance cfg spawned net i k p s) = Returned True),
      lastHealthCheck = None, startTime = now s, restartCount = 0\<rparr> \<and>
   (\<forall>q<length (heap s). deref (snd (startInstance cfg spawned net i k p s)) q = deref s q)"
proof -
  have "fst (startInstance cfg spawned net i k p s) \<noteq> TypeError"
    by (rule startInstance_result [of cfg spawned net i k p s]) simp
  then show ?thesis
    by (simp add: deref_startInstance_new deref_startInstance_old map_get_def new_instance_def)
qed

theorem start_instance_registers_witness:
  "map_get (snd (startInstance demo_cfg True (\<lambda>k. (Response 200, 9)) ''router-3'' (Some ''k3'')
      (Num 3103) demo3)) ''router-3'' = Some 3 \<and>
   healthy (deref (snd (startInstance demo_cfg True (\<lambda>k. (Response 200, 9)) ''router-3''
      (Some ''k3'') (Num 3103) demo3)) 3) =
     (fst (startInstance demo_cfg True (\<lambda>k. (Response 200, 9)) ''router-3'' (Some ''k3'')
      (Num 3103) demo3) = Returned True)"
  using start_instance_registers [of demo_cfg True "\<lambda>k. (Response 200, 9)" "''router-3''"
      "Some ''k3''" "Num 3103" demo3]
  by (simp add: demo3_heap)

text \<open>
  Every operation of the supervisor keeps the store well formed:
  starting an instance, the \<^verbatim>\<open>close\<close> and \<^verbatim>\<open>error\<close> handlers of an allocated object,
  and a firing restart timer.
\<close>

lemma supervisor_preserves_wf:
  assumes "wf s"
  shows "wf (snd (startInstance cfg spawned net i k p s)) \<and>
         wf (on_child_error r s) \<and>
         wf (fire_timer cfg spawned net e s) \<and>
         (r < length (heap s) \<longrightarrow> wf (on_close r code s))"
  using assms by (simp add: wf_on_close)

lemma supervisor_preserves_wf_example:
  "wf demo3 \<and> wf (on_close 2 None demo3) \<and>
   wf (fire_timer demo_cfg False (\<lambda>k. (RequestError, 1)) (5000, 2) (on_close 2 None demo3))"
proof -
  have a: "(2::nat) < length (heap demo3)" by (simp add: demo3_heap)
  from supervisor_preserves_wf [OF demo3_wf, of _ _ _ _ _ _ 2 _ None] a
  have w: "wf (on_close 2 None demo3)" by simp
  from supervisor_preserves_wf [OF w, of demo_cfg False "\<lambda>k. (RequestError, 1)" _ _ _ _ "(5000, 2)"]
    w demo3_wf
  show ?thesis by simp
qed

text \<open>
  \<^bold>\<open>C39\<close> (functional). The launch contract: read as flag and value pairs, the argument
  list of a worker has exactly one \<^verbatim>\<open>--port\<close>, carrying the decimal form of the
  instance's port, exactly one \<^verbatim>\<open>--host\<close>, one \<^verbatim>\<open>--add-provider\<close> per configured provider
  and one \<^verbatim>\<open>--add-endpoint\<close> per direct endpoint, in configuration order, and a \<^verbatim>\<open>--key\<close>
  exactly when the key is a non-empty string.
\<close>

theorem worker_launch_contract:
  "flag_values ''--port'' (build_args cfg k p) = [num_toString p] \<and>
   flag_values ''--host'' (build_args cfg k p) = [HOST cfg] \<and>
   flag_values ''--add-provider'' (build_args cfg k p) = map provider_arg (PROVIDERS cfg) \<and>
   flag_values ''--add-endpoint'' (build_args cfg k p) = DIRECT_ENDPOINTS cfg \<and>
   flag_values ''--key'' (build_args cfg k p) =
     (case k of None \<Rightarrow> [] | Some x \<Rightarrow> if x = [] then [] else [x])"
  by (simp add: flag_values_build_args truthy_opt_def truthy_def split: option.splits)



end
