(* ===== verification/Shutdown.thy ===== *)
theory Shutdown
  imports Registry
begin

text \<open>
  The shutdown coordinator of \<^verbatim>\<open>router-ha.js\<close>: \<^verbatim>\<open>setupSignalHandlers\<close> and the
  \<^verbatim>\<open>shutdown\<close> closure it installs for \<^verbatim>\<open>SIGTERM\<close> and \<^verbatim>\<open>SIGINT\<close>.

  \<^item> \<open>kill\<close> is \<^verbatim>\<open>ChildProcess.prototype.kill\<close> of the Node runtime, as far as the source
    depends on it: a signal sent to a child that is running is delivered and sets the
    child's \<^verbatim>\<open>killed\<close> flag; a signal sent to a child that has exited, or that never
    started, does nothing. The flag says that a signal was delivered, not that the
    child has ended.
  \<^item> \<open>signal_pass\<close> is the body of either \<^verbatim>\<open>for\<close> loop of \<^verbatim>\<open>shutdown\<close>; \<open>signal_inst\<close> is its
    effect on one instance object.
  \<^item> \<open>shutdown_begin\<close> is the closure up to its \<^verbatim>\<open>await\<close> (lines 342 to 355),
    \<open>shutdown_finish\<close> is the part after the 3 s sleep (lines 360 to 369), and
    \<open>shutdown\<close> runs both with nothing in between. The name of the signal is only
    logged, so the operations do not take it.
  \<^item> \<open>process_exit\<close> records the exit status of the manager; a manager with an exit
    status takes no further step.
\<close>

section \<open>Signals to children\<close>

definition kill :: "signal \<Rightarrow> child \<Rightarrow> child" where
  "kill sig c = (if running c then c\<lparr>killed := True, received := received c @ [sig]\<rparr> else c)"

definition signal_inst :: "signal \<Rightarrow> inst \<Rightarrow> inst" where
  "signal_inst sig i = (if \<not> killed (process i) then i\<lparr>process := kill sig (process i)\<rparr> else i)"

definition signal_pass :: "signal \<Rightarrow> string \<times> ref \<Rightarrow> manager \<Rightarrow> manager" where
  "signal_pass sig e s =
     (let r = snd e in
      if \<not> killed (process (deref s r))
      then update_inst r (\<lambda>i. i\<lparr>process := kill sig (process i)\<rparr>) s
      else s)"

section \<open>The shutdown sequence\<close>

definition GRACE_PERIOD :: millis where
  "GRACE_PERIOD = 3000"

definition process_exit :: "int \<Rightarrow> manager \<Rightarrow> manager" where
  "process_exit c s = s\<lparr>exitCode := Some c\<rparr>"

definition stop_health_check :: "manager \<Rightarrow> manager" where
  "stop_health_check s =
     (case healthCheckInterval s of None \<Rightarrow> s | Some a \<Rightarrow> s\<lparr>healthCheckInterval := Some False\<rparr>)"

definition shutdown_begin :: "manager \<Rightarrow> manager" where
  "shutdown_begin s =
     (let s1 = s\<lparr>isShuttingDown := True\<rparr>;
          s2 = stop_health_check s1
      in fold (signal_pass SIGTERM) (instances s2) s2)"

definition shutdown_finish :: "manager \<Rightarrow> manager" where
  "shutdown_finish s = process_exit 0 (fold (signal_pass SIGKILL) (instances s) s)"

definition shutdown :: "manager \<Rightarrow> manager" where
  "shutdown s =
     (let s1 = shutdown_begin s;
          s2 = s1\<lparr>now := now s1 + GRACE_PERIOD\<rparr>
      in shutdown_finish s2)"

definition setupSignalHandlers :: "manager \<Rightarrow> manager" where
  "setupSignalHandlers s = s\<lparr>handlers := True\<rparr>"

lemmas shutdown_defs [op_defs] =
  kill_def signal_inst_def signal_pass_def GRACE_PERIOD_def process_exit_def
  stop_health_check_def shutdown_begin_def shutdown_finish_def shutdown_def
  setupSignalHandlers_def

section \<open>One signal\<close>

definition settled :: "inst \<Rightarrow> bool" where
  "settled i \<longleftrightarrow> killed (process i) \<or> \<not> running (process i)"

lemma signal_pass_eq: "signal_pass sig e s = update_inst (snd e) (signal_inst sig) s"
proof (cases "snd e < length (heap s)")
  case True
  then show ?thesis
    by (auto simp: signal_pass_def signal_inst_def update_inst_def modify_at_def deref_def
        Let_def intro!: arg_cong [where f = "\<lambda>h. s\<lparr>heap := h\<rparr>"] nth_equalityI)
next
  case False
  then show ?thesis
    by (simp add: signal_pass_def update_inst_def modify_at_def Let_def)
qed

lemma signal_inst_simps [simp]:
  "instanceId (signal_inst sig i) = instanceId i"
  "port (signal_inst sig i) = port i"
  "key (signal_inst sig i) = key i"
  "healthy (signal_inst sig i) = healthy i"
  "restartCount (signal_inst sig i) = restartCount i"
  "startTime (signal_inst sig i) = startTime i"
  "lastHealthCheck (signal_inst sig i) = lastHealthCheck i"
  "running (process (signal_inst sig i)) = running (process i)"
  "argv (process (signal_inst sig i)) = argv (process i)"
  by (simp_all add: signal_inst_def kill_def)

lemma received_signal_inst:
  "received (process (signal_inst sig i)) =
     (if running (process i) \<and> \<not> killed (process i) then received (process i) @ [sig]
      else received (process i))"
  by (simp add: signal_inst_def kill_def)

lemma killed_signal_inst:
  "killed (process (signal_inst sig i)) \<longleftrightarrow> killed (process i) \<or> running (process i)"
  by (simp add: signal_inst_def kill_def)

lemma settled_signal_inst [simp]: "settled (signal_inst sig i)"
  by (auto simp: settled_def killed_signal_inst)

lemma signal_inst_settled [simp]: "settled i \<Longrightarrow> signal_inst sig i = i"
  by (auto simp: settled_def signal_inst_def kill_def)

section \<open>The loops\<close>

lemma signal_pass_frame [simp, frame]:
  "instances (signal_pass sig e s) = instances s"
  "currentActiveInstance (signal_pass sig e s) = currentActiveInstance s"
  "isShuttingDown (signal_pass sig e s) = isShuttingDown s"
  "healthCheckInterval (signal_pass sig e s) = healthCheckInterval s"
  "now (signal_pass sig e s) = now s"
  "timers (signal_pass sig e s) = timers s"
  "console (signal_pass sig e s) = console s"
  "exitCode (signal_pass sig e s) = exitCode s"
  "handlers (signal_pass sig e s) = handlers s"
  "listening (signal_pass sig e s) = listening s"
  "length (heap (signal_pass sig e s)) = length (heap s)"
  by (simp_all add: signal_pass_eq)

lemma deref_fold_update:
  assumes "distinct (map snd es)"
  shows "deref (fold (\<lambda>e. update_inst (snd e) g) es s) q =
     (if q \<in> snd ` set es \<and> q < length (heap s) then g (deref s q) else deref s q)"
  using assms
proof (induction es arbitrary: s)
  case Nil
  show ?case by simp
next
  case (Cons e es)
  then show ?case by (auto simp: deref_update_inst)
qed

lemma fold_update_frame:
  "instances (fold (\<lambda>e. update_inst (snd e) g) es s) = instances s"
  "currentActiveInstance (fold (\<lambda>e. update_inst (snd e) g) es s) = currentActiveInstance s"
  "isShuttingDown (fold (\<lambda>e. update_inst (snd e) g) es s) = isShuttingDown s"
  "healthCheckInterval (fold (\<lambda>e. update_inst (snd e) g) es s) = healthCheckInterval s"
  "now (fold (\<lambda>e. update_inst (snd e) g) es s) = now s"
  "timers (fold (\<lambda>e. update_inst (snd e) g) es s) = timers s"
  "console (fold (\<lambda>e. update_inst (snd e) g) es s) = console s"
  "exitCode (fold (\<lambda>e. update_inst (snd e) g) es s) = exitCode s"
  "handlers (fold (\<lambda>e. update_inst (snd e) g) es s) = handlers s"
  "listening (fold (\<lambda>e. update_inst (snd e) g) es s) = listening s"
  "length (heap (fold (\<lambda>e. update_inst (snd e) g) es s)) = length (heap s)"
  by (rule fold_frame, simp)+

lemma fold_signal_pass:
  "fold (signal_pass sig) es s = fold (\<lambda>e. update_inst (snd e) (signal_inst sig)) es s"
  by (simp add: signal_pass_eq [abs_def])

lemma heap_eq_derefI:
  "length (heap t) = length (heap s) \<Longrightarrow> (\<And>q. q < length (heap s) \<Longrightarrow> deref t q = deref s q) \<Longrightarrow>
   heap t = heap s"
  by (auto simp: deref_def intro: nth_equalityI)

lemma stop_health_check_frame [simp, frame]:
  "heap (stop_health_check s) = heap s"
  "instances (stop_health_check s) = instances s"
  "currentActiveInstance (stop_health_check s) = currentActiveInstance s"
  "isShuttingDown (stop_health_check s) = isShuttingDown s"
  "now (stop_health_check s) = now s"
  "timers (stop_health_check s) = timers s"
  "console (stop_health_check s) = console s"
  "exitCode (stop_health_check s) = exitCode s"
  "handlers (stop_health_check s) = handlers s"
  "listening (stop_health_check s) = listening s"
  "deref (stop_health_check s) = deref s"
  "healthCheckInterval (stop_health_check s) = map_option (\<lambda>a. False) (healthCheckInterval s)"
  by (simp_all add: stop_health_check_def deref_def fun_eq_iff split: option.splits)

lemma shutdown_begin_eq:
  "shutdown_begin s =
     fold (\<lambda>e. update_inst (snd e) (signal_inst SIGTERM)) (instances s)
       (stop_health_check (s\<lparr>isShuttingDown := True\<rparr>))"
  by (simp add: shutdown_begin_def fold_signal_pass)

lemma shutdown_finish_eq:
  "shutdown_finish s =
     (fold (\<lambda>e. update_inst (snd e) (signal_inst SIGKILL)) (instances s) s)\<lparr>exitCode := Some 0\<rparr>"
  by (simp add: shutdown_finish_def fold_signal_pass process_exit_def)

lemma shutdown_begin_frame [simp, frame]:
  "instances (shutdown_begin s) = instances s"
  "currentActiveInstance (shutdown_begin s) = currentActiveInstance s"
  "isShuttingDown (shutdown_begin s) = True"
  "healthCheckInterval (shutdown_begin s) = map_option (\<lambda>a. False) (healthCheckInterval s)"
  "now (shutdown_begin s) = now s"
  "timers (shutdown_begin s) = timers s"
  "console (shutdown_begin s) = console s"
  "exitCode (shutdown_begin s) = exitCode s"
  "handlers (shutdown_begin s) = handlers s"
  "listening (shutdown_begin s) = listening s"
  "length (heap (shutdown_begin s)) = length (heap s)"
  "value_refs (shutdown_begin s) = value_refs s"
  by (simp_all add: shutdown_begin_eq fold_update_frame value_refs_def)

lemma shutdown_finish_frame [simp, frame]:
  "instances (shutdown_finish s) = instances s"
  "currentActiveInstance (shutdown_finish s) = currentActiveInstance s"
  "isShuttingDown (shutdown_finish s) = isShuttingDown s"
  "healthCheckInterval (shutdown_finish s) = healthCheckInterval s"
  "now (shutdown_finish s) = now s"
  "timers (shutdown_finish s) = timers s"
  "console (shutdown_finish s) = console s"
  "exitCode (shutdown_finish s) = Some 0"
  "handlers (shutdown_finish s) = handlers s"
  "listening (shutdown_finish s) = listening s"
  "length (heap (shutdown_finish s)) = length (heap s)"
  "value_refs (shutdown_finish s) = value_refs s"
  by (simp_all add: shutdown_finish_eq fold_update_frame value_refs_def)

lemma deref_shutdown_begin:
  assumes "wf s"
  shows "deref (shutdown_begin s) q =
     (if q \<in> set (value_refs s) then signal_inst SIGTERM (deref s q) else deref s q)"
proof -
  from assms have "distinct (map snd (instances s))"
    using distinct_value_refs [of s] by (simp add: value_refs_def)
  then show ?thesis
    using value_refs_valid [OF assms, of q]
    by (auto simp: shutdown_begin_eq deref_fold_update value_refs_def)
qed

lemma deref_shutdown_finish:
  assumes "wf s"
  shows "deref (shutdown_finish s) q =
     (if q \<in> set (value_refs s) then signal_inst SIGKILL (deref s q) else deref s q)"
proof -
  from assms have "distinct (map snd (instances s))"
    using distinct_value_refs [of s] by (simp add: value_refs_def)
  then show ?thesis
    using value_refs_valid [OF assms, of q]
    by (auto simp: shutdown_finish_eq deref_fold_update value_refs_def)
qed

lemma wf_shutdown_begin [simp, wf_keep]: "wf s \<Longrightarrow> wf (shutdown_begin s)"
proof -
  assume w: "wf s"
  have "wf (shutdown_begin s) \<longleftrightarrow> wf s"
    using w by (intro wf_cong) (simp_all add: deref_shutdown_begin [unfolded deref_def])
  with w show ?thesis by simp
qed

lemma wf_shutdown_finish [simp, wf_keep]: "wf s \<Longrightarrow> wf (shutdown_finish s)"
proof -
  assume w: "wf s"
  have "wf (shutdown_finish s) \<longleftrightarrow> wf s"
    using w by (intro wf_cong) (simp_all add: deref_shutdown_finish [unfolded deref_def])
  with w show ?thesis by simp
qed

lemma shutdown_finish_settled:
  assumes "wf s" and "\<forall>r\<in>set (value_refs s). settled (deref s r)"
  shows "heap (shutdown_finish s) = heap s"
  using assms by (intro heap_eq_derefI) (simp_all add: deref_shutdown_finish)

lemma settled_after_begin:
  "wf s \<Longrightarrow> r \<in> set (value_refs s) \<Longrightarrow> settled (deref (shutdown_begin s) r)"
  by (simp add: deref_shutdown_begin)

lemma shutdown_eq:
  "shutdown s = shutdown_finish ((shutdown_begin s)\<lparr>now := now s + GRACE_PERIOD\<rparr>)"
  by (simp add: shutdown_def Let_def)

section \<open>An example: one worker that has already exited\<close>

definition demo_exited :: manager where
  "demo_exited = update_inst 2 (\<lambda>i. i\<lparr>process := (process i)\<lparr>running := False\<rparr>\<rparr>) demo3"

lemma demo_exited_wf: "wf demo_exited"
  by code_simp

section \<open>Properties of the shutdown sequence\<close>

text \<open>
  \<^bold>\<open>C4\<close> (safety). The forced kill never happens. The second loop of \<^verbatim>\<open>shutdown\<close> sends
  \<^verbatim>\<open>SIGKILL\<close> only to a child whose \<^verbatim>\<open>killed\<close> flag is unset, and the first loop has set
  that flag on every child to which \<^verbatim>\<open>SIGTERM\<close> was delivered. So the second loop
  changes nothing: after the whole sequence no registered child has received a
  \<^verbatim>\<open>SIGKILL\<close> that it had not received before, and a worker that ignores \<^verbatim>\<open>SIGTERM\<close> is
  still running when the manager exits.
\<close>

theorem force_kill_never_delivered:
  assumes "wf s"
  shows "heap (shutdown s) = heap (shutdown_begin s) \<and>
         (\<forall>r. SIGKILL \<in> set (received (process (deref (shutdown s) r))) \<longrightarrow>
              SIGKILL \<in> set (received (process (deref s r)))) \<and>
         (\<forall>r. running (process (deref (shutdown s) r)) = running (process (deref s r)))"
proof -
  let ?t = "(shutdown_begin s)\<lparr>now := now s + GRACE_PERIOD\<rparr>"
  from assms have w: "wf ?t" by simp
  have "\<forall>r\<in>set (value_refs ?t). settled (deref ?t r)"
    using assms by (simp add: settled_after_begin)
  with w have "heap (shutdown_finish ?t) = heap ?t" by (rule shutdown_finish_settled)
  then have h: "heap (shutdown s) = heap (shutdown_begin s)" by (simp add: shutdown_eq)
  then have "deref (shutdown s) = deref (shutdown_begin s)" by (simp add: fun_eq_iff deref_def)
  with h assms show ?thesis
    by (auto simp: deref_shutdown_begin received_signal_inst split: if_splits)
qed

theorem force_kill_never_delivered_witness:
  "wf demo3 \<and> received (process (deref (shutdown demo3) 1)) = [SIGTERM] \<and>
   running (process (deref (shutdown demo3) 1))"
proof -
  have a: "received (process (deref (shutdown_begin demo3) 1)) = [SIGTERM]"
    and b: "running (process (deref demo3 1))"
    by code_simp+
  note t = force_kill_never_delivered [OF demo3_wf]
  from t have "deref (shutdown demo3) 1 = deref (shutdown_begin demo3) 1"
    by (simp add: deref_def)
  moreover from t have "running (process (deref (shutdown demo3) 1)) = running (process (deref demo3 1))"
    by blast
  ultimately show ?thesis using a b demo3_wf by simp
qed

text \<open>
  \<^bold>\<open>C23\<close> (functional). The first part of \<^verbatim>\<open>shutdown\<close>: it sets \<^verbatim>\<open>isShuttingDown\<close>, stops
  the health-check interval if one was started, and sends \<^verbatim>\<open>SIGTERM\<close> once to every
  registered child that is running and has not been signalled before; a child that
  has exited gets nothing. The registry, the cursor and the pending timers are left as
  they are, and the health flags are not touched.
\<close>

theorem shutdown_begin_effect:
  assumes "wf s" and "(k, r) \<in> set (instances s)"
  shows "isShuttingDown (shutdown_begin s) \<and>
         healthCheckInterval (shutdown_begin s) \<noteq> Some True \<and>
         instances (shutdown_begin s) = instances s \<and>
         received (process (deref (shutdown_begin s) r)) =
           (if running (process (deref s r)) \<and> \<not> killed (process (deref s r))
            then received (process (deref s r)) @ [SIGTERM]
            else received (process (deref s r))) \<and>
         (killed (process (deref (shutdown_begin s) r)) \<or>
            \<not> running (process (deref (shutdown_begin s) r))) \<and>
         healthy (deref (shutdown_begin s) r) = healthy (deref s r)"
proof -
  from assms(2) have "r \<in> set (value_refs s)" by (force simp: value_refs_def)
  with assms(1) show ?thesis
    using settled_after_begin [of s r]
    by (auto simp: deref_shutdown_begin received_signal_inst settled_def)
qed

theorem shutdown_begin_effect_witness:
  "wf demo_exited \<and> (''router-2'', 2) \<in> set (instances demo_exited) \<and>
   (''router-0'', 0) \<in> set (instances demo_exited) \<and>
   received (process (deref (shutdown_begin demo_exited) 2)) = [] \<and>
   received (process (deref (shutdown_begin demo_exited) 0)) = [SIGTERM]"
proof -
  have a: "(''router-2'', 2) \<in> set (instances demo_exited)"
    and b: "(''router-0'', 0) \<in> set (instances demo_exited)"
    and c: "\<not> running (process (deref demo_exited 2))" "received (process (deref demo_exited 2)) = []"
      "running (process (deref demo_exited 0))" "\<not> killed (process (deref demo_exited 0))"
      "received (process (deref demo_exited 0)) = []"
    by code_simp+
  from shutdown_begin_effect [OF demo_exited_wf a] shutdown_begin_effect [OF demo_exited_wf b]
    demo_exited_wf a b c
  show ?thesis by simp
qed

text \<open>
  The whole sequence, run without interruption, ends with exit
  status 0 after the grace period of 3 s, keeps the store well formed, and removes
  nothing: the registry still lists every instance and the pending restart timers are
  still there, made inert by \<^verbatim>\<open>isShuttingDown\<close>.
\<close>

lemma shutdown_outcome:
  assumes "wf s"
  shows "wf (shutdown s) \<and> exitCode (shutdown s) = Some 0 \<and> isShuttingDown (shutdown s) \<and>
         now (shutdown s) = now s + 3000 \<and> instances (shutdown s) = instances s \<and>
         timers (shutdown s) = timers s"
  using assms by (simp add: shutdown_eq GRACE_PERIOD_def)

lemma shutdown_outcome_example:
  "wf demo3 \<and> exitCode (shutdown demo3) = Some 0 \<and> now (shutdown demo3) = 3000 \<and>
   length (instances (shutdown demo3)) = 3"
proof -
  have "now demo3 = 0" "length (instances demo3) = 3" by code_simp+
  with shutdown_outcome [OF demo3_wf] demo3_wf show ?thesis by simp
qed

text \<open>
  A second termination signal sends nothing more: once the first
  part of \<^verbatim>\<open>shutdown\<close> has run, running it again leaves every object as it is.
\<close>

lemma second_signal_sends_nothing:
  assumes "wf s"
  shows "heap (shutdown_begin (shutdown_begin s)) = heap (shutdown_begin s)"
  using assms
  by (intro heap_eq_derefI) (simp_all add: deref_shutdown_begin [of "shutdown_begin s"]
      settled_after_begin)

lemma second_signal_sends_nothing_example:
  "wf demo3 \<and>
   received (process (deref (shutdown_begin (shutdown_begin demo3)) 0)) = [SIGTERM]"
proof -
  have "received (process (deref (shutdown_begin demo3) 0)) = [SIGTERM]" by code_simp
  with second_signal_sends_nothing [OF demo3_wf] demo3_wf show ?thesis
    by (simp add: deref_def)
qed

end
