(* ===== verification/Startup.thy ===== *)
theory Startup
  imports Supervisor Shutdown
begin

text \<open>
  Start-up of \<^verbatim>\<open>router-ha.js\<close>: \<^verbatim>\<open>RouterManager.start\<close> (lines 34 to 85) and the entry point
  of the script (lines 381 to 386).

  \<^item> \<open>start\<close> validates the configuration, starts one instance per key (or a single
    instance without a key when there are no keys), each through \<open>startInstance\<close> and
    therefore through its readiness gate, with a pause of 2 s after each, then starts
    the health check, installs the signal handlers and opens the listener.
  \<^item> The outside world is an input: \<open>w i\<close> says whether the \<open>i\<close>-th spawn succeeds and
    what the probes of the \<open>i\<close>-th readiness gate return.
  \<^item> A JavaScript function completes normally or by throwing; \<open>completion\<close> carries
    the state in both cases. \<open>main\<close> is the entry point with its \<^verbatim>\<open>catch\<close>, which exits
    with status 1.
  \<^item> \<open>start\<close> is the run of \<^verbatim>\<open>start()\<close> in which no child exits before the listener is
    open; the handlers that could run in between are those of theory \<open>Supervisor\<close>.
\<close>

section \<open>Definitions\<close>

datatype 'a completion = Normal 'a | Throw 'a

definition base_port :: "config \<Rightarrow> jsnum" where
  "base_port cfg = js_plus (parseInt_val (PORT cfg)) (Num 100)"

definition instance_port :: "config \<Rightarrow> nat \<Rightarrow> jsnum" where
  "instance_port cfg i = js_plus (base_port cfg) (Num (int i))"

definition instance_name :: "nat \<Rightarrow> string" where
  "instance_name i = ''router-'' @ nat_toString i"

definition STAGGER :: millis where
  "STAGGER = 2000"

type_synonym world = "nat \<Rightarrow> bool \<times> probes"

fun start_keys ::
  "config \<Rightarrow> world \<Rightarrow> nat \<Rightarrow> string list \<Rightarrow> manager \<Rightarrow> manager completion" where
  "start_keys cfg w i [] s = Normal s"
| "start_keys cfg w i (key' # rest) s =
     (case startInstance cfg (fst (w i)) (snd (w i)) (instance_name i) (Some key')
             (instance_port cfg i) s of
        (TypeError, s1) \<Rightarrow> Throw s1
      | (Returned b, s1) \<Rightarrow> start_keys cfg w (Suc i) rest (s1\<lparr>now := now s1 + STAGGER\<rparr>))"

definition start_single :: "config \<Rightarrow> world \<Rightarrow> manager \<Rightarrow> manager completion" where
  "start_single cfg w s =
     (case startInstance cfg (fst (w 0)) (snd (w 0)) ''router-0'' None (base_port cfg) s of
        (TypeError, s1) \<Rightarrow> Throw s1
      | (Returned b, s1) \<Rightarrow> Normal s1)"

definition startLoadBalancer :: "manager \<Rightarrow> manager" where
  "startLoadBalancer s = s\<lparr>listening := True\<rparr>"

definition start :: "config \<Rightarrow> world \<Rightarrow> manager \<Rightarrow> manager completion" where
  "start cfg w s =
     (if PROVIDERS cfg = [] \<and> DIRECT_ENDPOINTS cfg = [] then Normal (process_exit 1 s)
      else if PROVIDERS cfg \<noteq> [] \<and> KEYS cfg = [] then Normal (process_exit 1 s)
      else
        (case (if KEYS cfg \<noteq> [] then start_keys cfg w 0 (KEYS cfg) s
               else start_single cfg w s) of
           Throw s1 \<Rightarrow> Throw s1
         | Normal s1 \<Rightarrow>
             Normal (startLoadBalancer (setupSignalHandlers (startHealthCheck s1)))))"

definition main :: "env \<Rightarrow> world \<Rightarrow> millis \<Rightarrow> manager" where
  "main e w t =
     (case start (load_config e) w (new_manager t) of
        Normal s \<Rightarrow> s
      | Throw s \<Rightarrow> process_exit 1 s)"

lemmas startup_defs [op_defs] =
  base_port_def instance_port_def instance_name_def STAGGER_def start_single_def
  startLoadBalancer_def start_def main_def

section \<open>Names and ports\<close>

lemma instance_name_inj [simp]: "instance_name i = instance_name j \<longleftrightarrow> i = j"
  by (auto simp: instance_name_def dest: nat_toString_inj)

lemma instance_name_0: "instance_name 0 = ''router-0''"
  by code_simp

lemma instance_port_Num:
  "parseInt_val (PORT cfg) = Num b \<Longrightarrow> instance_port cfg i = Num (b + 100 + int i)"
  by (simp add: instance_port_def base_port_def)

lemma instance_port_NaN:
  "parseInt_val (PORT cfg) = NaN \<Longrightarrow> instance_port cfg i = NaN"
  by (simp add: instance_port_def base_port_def)

lemma instance_port_0 [simp]: "instance_port cfg 0 = base_port cfg"
  by (cases "base_port cfg") (simp_all add: instance_port_def)

section \<open>The loop over the keys\<close>

text \<open>
  \<open>launched cfg w i key' t\<close> is the object that the \<open>i\<close>-th pass of the loop creates at
  time \<open>t\<close>, before the readiness gate has set its health flag.
\<close>

definition launched :: "config \<Rightarrow> world \<Rightarrow> nat \<Rightarrow> string option \<Rightarrow> millis \<Rightarrow> inst" where
  "launched cfg w i key' t =
     new_instance (instance_name i) key' (instance_port cfg i)
       (new_child (build_args cfg key' (instance_port cfg i)) (fst (w i))) t"

definition same_launch :: "inst \<Rightarrow> inst \<Rightarrow> bool" where
  "same_launch a b \<longleftrightarrow>
     instanceId a = instanceId b \<and> key a = key b \<and> port a = port b \<and>
     process a = process b \<and> restartCount a = restartCount b \<and>
     lastHealthCheck a = lastHealthCheck b"

lemma same_launch_refl [simp]: "same_launch a a"
  by (simp add: same_launch_def)

lemma same_launch_healthy [simp]: "same_launch (a\<lparr>healthy := h\<rparr>) b = same_launch a b"
  by (simp add: same_launch_def)

lemma same_launch_startTime [simp]:
  "same_launch (new_instance i k p c t) (new_instance i k p c t')"
  by (simp add: same_launch_def)

lemma start_keys_result:
  assumes "map fst (instances s) = map instance_name [0..<i]"
  shows "\<exists>s'. start_keys cfg w i ks s = Normal s' \<and>
     map fst (instances s') = map instance_name [0..<i + length ks] \<and>
     map snd (instances s') = map snd (instances s) @ [length (heap s)..<length (heap s) + length ks] \<and>
     length (heap s') = length (heap s) + length ks \<and>
     (\<forall>q<length (heap s). deref s' q = deref s q) \<and>
     (\<forall>j<length ks. same_launch (deref s' (length (heap s) + j))
                       (launched cfg w (i + j) (Some (ks ! j)) 0)) \<and>
     (\<forall>j<length ks. healthy (deref s' (length (heap s) + j)) =
                       ready_within (snd (w (i + j))) 0 0 READY_TIMEOUT) \<and>
     currentActiveInstance s' = currentActiveInstance s \<and>
     isShuttingDown s' = isShuttingDown s \<and>
     healthCheckInterval s' = healthCheckInterval s \<and>
     timers s' = timers s \<and> console s' = console s \<and> exitCode s' = exitCode s \<and>
     now s + STAGGER * length ks \<le> now s' \<and> (wf s \<longrightarrow> wf s')"
  using assms
proof (induction ks arbitrary: i s)
  case Nil
  then show ?case by simp
next
  case (Cons k ks)
  let ?r = "startInstance cfg (fst (w i)) (snd (w i)) (instance_name i) (Some k)
              (instance_port cfg i) s"
  let ?s1 = "(snd ?r)\<lparr>now := now (snd ?r) + STAGGER\<rparr>"
  obtain b where b: "fst ?r = Returned b"
    by (rule startInstance_result [of cfg "fst (w i)" "snd (w i)" "instance_name i" "Some k"
          "instance_port cfg i" s])
  then have step: "start_keys cfg w i (k # ks) s = start_keys cfg w (Suc i) ks ?s1"
    by (simp add: case_prod_unfold)
  have "fst ` set (instances s) = instance_name ` {0..<i}"
    using arg_cong [OF Cons.prems, of set] by simp
  then have fresh: "instance_name i \<notin> fst ` set (instances s)" by auto
  then have inst: "instances ?s1 = instances s @ [(instance_name i, length (heap s))]"
    by (simp add: update_absent_append)
  with Cons.prems have keys: "map fst (instances ?s1) = map instance_name [0..<Suc i]"
    by simp
  from Cons.IH [OF keys]
  obtain s' where s': "start_keys cfg w (Suc i) ks ?s1 = Normal s'"
    and k': "map fst (instances s') = map instance_name [0..<Suc i + length ks]"
    and r': "map snd (instances s') =
        map snd (instances ?s1) @ [length (heap ?s1)..<length (heap ?s1) + length ks]"
    and l': "length (heap s') = length (heap ?s1) + length ks"
    and old: "\<forall>q<length (heap ?s1). deref s' q = deref ?s1 q"
    and new: "\<forall>j<length ks. same_launch (deref s' (length (heap ?s1) + j))
                       (launched cfg w (Suc i + j) (Some (ks ! j)) 0)"
    and hl: "\<forall>j<length ks. healthy (deref s' (length (heap ?s1) + j)) =
                       ready_within (snd (w (Suc i + j))) 0 0 READY_TIMEOUT"
    and fr: "currentActiveInstance s' = currentActiveInstance ?s1"
      "isShuttingDown s' = isShuttingDown ?s1" "healthCheckInterval s' = healthCheckInterval ?s1"
      "timers s' = timers ?s1" "console s' = console ?s1" "exitCode s' = exitCode ?s1"
    and t': "now ?s1 + STAGGER * length ks \<le> now s'"
    and w': "wf ?s1 \<longrightarrow> wf s'"
    by blast
  have len1: "length (heap ?s1) = Suc (length (heap s))" by simp
  have d1: "deref ?s1 q = deref s q" if "q < length (heap s)" for q
    using that by (simp add: deref_startInstance_old)
  have dn: "same_launch (deref ?s1 (length (heap s))) (launched cfg w i (Some k) 0)"
    by (simp add: deref_startInstance_new launched_def)
  have "\<forall>j<length (k # ks). same_launch (deref s' (length (heap s) + j))
                       (launched cfg w (i + j) (Some ((k # ks) ! j)) 0)"
  proof (intro allI impI)
    fix j
    assume j: "j < length (k # ks)"
    show "same_launch (deref s' (length (heap s) + j))
            (launched cfg w (i + j) (Some ((k # ks) ! j)) 0)"
    proof (cases j)
      case 0
      with old len1 dn show ?thesis by simp
    next
      case (Suc j')
      with j new len1 show ?thesis by simp
    qed
  qed
  moreover have "\<forall>j<length (k # ks). healthy (deref s' (length (heap s) + j)) =
                       ready_within (snd (w (i + j))) 0 0 READY_TIMEOUT"
  proof (intro allI impI)
    fix j
    assume j: "j < length (k # ks)"
    show "healthy (deref s' (length (heap s) + j)) =
            ready_within (snd (w (i + j))) 0 0 READY_TIMEOUT"
    proof (cases j)
      case 0
      with old len1 show ?thesis
        by (simp add: deref_startInstance_new startInstance_verdict)
    next
      case (Suc j')
      with j hl len1 show ?thesis by simp
    qed
  qed
  moreover have "\<forall>q<length (heap s). deref s' q = deref s q"
    using old len1 d1 by simp
  moreover have "map snd (instances s') =
      map snd (instances s) @ [length (heap s)..<length (heap s) + length (k # ks)]"
  proof -
    have "[length (heap s)..<length (heap s) + length (k # ks)] =
        length (heap s) # [Suc (length (heap s))..<Suc (length (heap s)) + length ks]"
      by (simp del: upt_Suc add: upt_conv_Cons)
    with r' len1 inst show ?thesis by (simp del: upt_Suc)
  qed
  moreover have "now s + STAGGER * length (k # ks) \<le> now s'"
    using t' now_waitForInstanceReady
      [of "snd (spawn_instance cfg (fst (w i)) (instance_name i) (Some k) (instance_port cfg i) s)"
          "snd (w i)" "instance_name i" READY_TIMEOUT]
    by (simp add: startInstance_eq spawn_instance_eq)
  moreover have "wf s \<longrightarrow> wf s'" using w' by simp
  ultimately show ?case
    using s' k' l' fr len1 by (simp add: step del: start_keys.simps)
qed

lemma launched_simps [simp]:
  "instanceId (launched cfg w i k t) = instance_name i"
  "restartCount (launched cfg w i k t) = 0"
  "received (process (launched cfg w i k t)) = []"
  "running (process (launched cfg w i k t)) = fst (w i)"
  by (simp_all add: launched_def)

lemma same_launchD:
  assumes "same_launch a b"
  shows "restartCount a = restartCount b" and "process a = process b"
    and "instanceId a = instanceId b" and "key a = key b" and "port a = port b"
  using assms by (simp_all add: same_launch_def)

lemma start_single_result:
  assumes "instances s = []"
  shows "\<exists>s'. start_single cfg w s = Normal s' \<and>
     instances s' = [(''router-0'', length (heap s))] \<and>
     length (heap s') = Suc (length (heap s)) \<and>
     (\<forall>q<length (heap s). deref s' q = deref s q) \<and>
     same_launch (deref s' (length (heap s))) (launched cfg w 0 None 0) \<and>
     healthy (deref s' (length (heap s))) = ready_within (snd (w 0)) 0 0 READY_TIMEOUT \<and>
     currentActiveInstance s' = currentActiveInstance s \<and>
     isShuttingDown s' = isShuttingDown s \<and>
     healthCheckInterval s' = healthCheckInterval s \<and>
     timers s' = timers s \<and> console s' = console s \<and> exitCode s' = exitCode s \<and>
     (wf s \<longrightarrow> wf s')"
  using assms
  by (simp add: start_single_def case_prod_unfold startInstance_verdict
      deref_startInstance_new deref_startInstance_old launched_def instance_name_0)

section \<open>Facts about \<open>start\<close>\<close>

definition valid_config :: "config \<Rightarrow> bool" where
  "valid_config cfg \<longleftrightarrow>
     (PROVIDERS cfg \<noteq> [] \<or> DIRECT_ENDPOINTS cfg \<noteq> []) \<and>
     (PROVIDERS cfg \<noteq> [] \<longrightarrow> KEYS cfg \<noteq> [])"

definition instance_count :: "config \<Rightarrow> nat" where
  "instance_count cfg = (if KEYS cfg = [] then 1 else length (KEYS cfg))"

definition instance_key :: "config \<Rightarrow> nat \<Rightarrow> string option" where
  "instance_key cfg j = (if KEYS cfg = [] then None else Some (KEYS cfg ! j))"

lemma instance_count_pos: "0 < instance_count cfg"
  by (simp add: instance_count_def)

lemma start_invalid:
  "\<not> valid_config cfg \<Longrightarrow> start cfg w s = Normal (s\<lparr>exitCode := Some 1\<rparr>)"
  by (auto simp: valid_config_def start_def process_exit_def)

lemma start_valid_eq:
  assumes "valid_config cfg"
  shows "start cfg w s =
     (case (if KEYS cfg \<noteq> [] then start_keys cfg w 0 (KEYS cfg) s else start_single cfg w s) of
        Throw s1 \<Rightarrow> Throw s1
      | Normal s1 \<Rightarrow> Normal (startLoadBalancer (setupSignalHandlers (startHealthCheck s1))))"
  using assms by (auto simp: valid_config_def start_def)

lemma start_valid:
  assumes "valid_config cfg"
  shows "\<exists>s'. start cfg w (new_manager t) = Normal s' \<and> wf s' \<and>
     map fst (instances s') = map instance_name [0..<instance_count cfg] \<and>
     value_refs s' = [0..<instance_count cfg] \<and>
     length (heap s') = instance_count cfg \<and>
     (\<forall>j<instance_count cfg.
        same_launch (deref s' j) (launched cfg w j (instance_key cfg j) 0) \<and>
        healthy (deref s' j) = ready_within (snd (w j)) 0 0 READY_TIMEOUT) \<and>
     currentActiveInstance s' = None \<and> \<not> isShuttingDown s' \<and>
     healthCheckInterval s' = Some True \<and> handlers s' \<and> listening s' \<and>
     timers s' = [] \<and> exitCode s' = None"
proof (cases "KEYS cfg = []")
  case True
  have e: "instances (new_manager t) = []" by simp
  from start_single_result [OF e, of cfg w]
  obtain s1 where "start_single cfg w (new_manager t) = Normal s1"
    and "instances s1 = [(''router-0'', 0)]" and "length (heap s1) = Suc 0"
    and "same_launch (deref s1 0) (launched cfg w 0 None 0)"
    and "healthy (deref s1 0) = ready_within (snd (w 0)) 0 0 READY_TIMEOUT"
    and "currentActiveInstance s1 = None" "\<not> isShuttingDown s1" "healthCheckInterval s1 = None"
      "timers s1 = []" "exitCode s1 = None" "wf s1"
    by auto
  with True show ?thesis
    by (simp add: start_valid_eq [OF assms] instance_count_def instance_key_def
        startLoadBalancer_def setupSignalHandlers_def startHealthCheck_def value_refs_def
        instance_name_0)
next
  case False
  have e: "map fst (instances (new_manager t)) = map instance_name [0..<0]" by simp
  from start_keys_result [OF e, of cfg w "KEYS cfg"]
  obtain s1 where "start_keys cfg w 0 (KEYS cfg) (new_manager t) = Normal s1"
    and "map fst (instances s1) = map instance_name [0..<length (KEYS cfg)]"
    and "map snd (instances s1) = [0..<length (KEYS cfg)]"
    and "length (heap s1) = length (KEYS cfg)"
    and "\<forall>j<length (KEYS cfg). same_launch (deref s1 j) (launched cfg w j (Some (KEYS cfg ! j)) 0)"
    and "\<forall>j<length (KEYS cfg). healthy (deref s1 j) = ready_within (snd (w j)) 0 0 READY_TIMEOUT"
    and "currentActiveInstance s1 = None" "\<not> isShuttingDown s1" "healthCheckInterval s1 = None"
      "timers s1 = []" "exitCode s1 = None" "wf s1"
    by auto
  with False show ?thesis
    by (simp add: start_valid_eq [OF assms] instance_count_def instance_key_def
        startLoadBalancer_def setupSignalHandlers_def startHealthCheck_def value_refs_def)
qed

lemma start_valid_instance:
  assumes "valid_config cfg" and "start cfg w (new_manager t) = Normal s'"
    and "j < instance_count cfg"
  shows "map_get s' (instance_name j) = Some j"
    and "same_launch (deref s' j) (launched cfg w j (instance_key cfg j) 0)"
    and "healthy (deref s' j) = ready_within (snd (w j)) 0 0 READY_TIMEOUT"
proof -
  from start_valid [OF assms(1), of w t] assms(2)
  have k: "map fst (instances s') = map instance_name [0..<instance_count cfg]"
    and v: "value_refs s' = [0..<instance_count cfg]"
    and l: "\<forall>j<instance_count cfg.
        same_launch (deref s' j) (launched cfg w j (instance_key cfg j) 0) \<and>
        healthy (deref s' j) = ready_within (snd (w j)) 0 0 READY_TIMEOUT"
    by auto
  from l assms(3) show "same_launch (deref s' j) (launched cfg w j (instance_key cfg j) 0)"
    and "healthy (deref s' j) = ready_within (snd (w j)) 0 0 READY_TIMEOUT"
    by simp_all
  have "instances s' = zip (map fst (instances s')) (map snd (instances s'))"
    by (simp add: zip_map_fst_snd)
  with k v have z: "instances s' = zip (map instance_name [0..<instance_count cfg])
      [0..<instance_count cfg]"
    by (simp add: value_refs_def)
  have "distinct (map instance_name [0..<instance_count cfg])"
    by (simp add: distinct_map inj_on_def)
  moreover from assms(3) have "(instance_name j, j) \<in> set (instances s')"
    by (subst z) (auto simp: set_zip intro!: exI [of _ j])
  ultimately show "map_get s' (instance_name j) = Some j"
    using k by (simp add: map_get_def)
qed

section \<open>An example start-up\<close>

text \<open>
  The example environment of theory \<open>Config\<close>, in a world where every worker starts and
  answers its second readiness probe.
\<close>

definition demo_world :: world where
  "demo_world i = (True, \<lambda>k. if k = 0 then (RequestError, 3) else (Response 200, 20))"

definition demo_started :: manager where
  "demo_started = main demo_env demo_world 0"

lemma demo_cfg_valid: "valid_config demo_cfg"
  by (simp add: demo_cfg_eq valid_config_def)

lemma demo_cfg_count: "instance_count demo_cfg = 3"
  by (simp add: demo_cfg_eq instance_count_def)

lemma demo_world_ready: "ready_within (snd (demo_world j)) 0 0 READY_TIMEOUT"
  by (simp add: demo_world_def READY_TIMEOUT_def ready_within.simps [of _ 0]
      ready_within.simps [of _ "Suc 0"] checkInstanceHealth_def)

lemma demo_start: "start demo_cfg demo_world (new_manager 0) = Normal demo_started"
  using start_valid [OF demo_cfg_valid, of demo_world 0]
  by (auto simp: demo_started_def main_def demo_cfg_def)

lemma demo_started_facts:
  "exitCode demo_started = None" "handlers demo_started" "listening demo_started"
  "\<not> isShuttingDown demo_started" "length (heap demo_started) = 3"
  "value_refs demo_started = [0, 1, 2]" "timers demo_started = []" "wf demo_started"
  using start_valid [OF demo_cfg_valid, of demo_world 0]
  by (simp_all add: demo_start demo_cfg_count upt_rec)

lemma demo_started_running:
  assumes "j < 3"
  shows "running (process (deref demo_started j))"
    and "map_get demo_started (instance_name j) = Some j"
    and "instanceId (deref demo_started j) = instance_name j"
  using start_valid_instance [OF demo_cfg_valid demo_start, of j] assms
  by (simp_all add: demo_cfg_count same_launch_def demo_world_def)

section \<open>Properties of start-up\<close>

text \<open>
  \<^bold>\<open>C25\<close> (functional). With a valid configuration (at least one provider or direct
  endpoint, and at least one key when there are providers) \<^verbatim>\<open>start()\<close> completes normally
  whatever the workers do, without exiting; it has then registered one instance per
  key, or exactly one when there is no key, under the ids \<^verbatim>\<open>router-0\<close>, \<^verbatim>\<open>router-1\<close>, ... in
  this order; the health check is running, the signal handlers are installed and the
  listener is open; and the store is well formed.
\<close>

theorem start_launches_expected:
  assumes "valid_config cfg"
  shows "\<exists>s'. start cfg w (new_manager t) = Normal s' \<and> wf s' \<and> exitCode s' = None \<and>
     map fst (instances s') = map instance_name [0..<instance_count cfg] \<and>
     length (instances s') = (if KEYS cfg = [] then 1 else length (KEYS cfg)) \<and>
     healthCheckInterval s' = Some True \<and> handlers s' \<and> listening s' \<and>
     \<not> isShuttingDown s'"
proof -
  from start_valid [OF assms, of w t] obtain s' where s': "start cfg w (new_manager t) = Normal s'"
    "wf s'" "exitCode s' = None" "map fst (instances s') = map instance_name [0..<instance_count cfg]"
    "healthCheckInterval s' = Some True" "handlers s'" "listening s'" "\<not> isShuttingDown s'"
    by blast
  from s'(4) have "length (instances s') = instance_count cfg"
    using length_map [of fst "instances s'"] by simp
  with s' show ?thesis by (simp add: instance_count_def)
qed

theorem start_launches_expected_witness:
  "valid_config demo_cfg \<and>
   (\<exists>s'. start demo_cfg demo_world (new_manager 0) = Normal s' \<and>
      map fst (instances s') = [''router-0'', ''router-1'', ''router-2''] \<and> listening s')"
proof -
  have "map instance_name [0..<instance_count demo_cfg] = [''router-0'', ''router-1'', ''router-2'']"
    unfolding demo_cfg_count by code_simp
  with start_launches_expected [OF demo_cfg_valid, of demo_world 0] demo_cfg_valid
  show ?thesis by auto
qed

text \<open>
  \<^bold>\<open>C28\<close> (error). A configuration error is fatal before anything is launched: with
  neither providers nor direct endpoints, or with providers and no key, \<^verbatim>\<open>start()\<close> exits
  with status 1 and has spawned no child and registered nothing.
\<close>

theorem start_rejects_bad_config:
  assumes "(PROVIDERS cfg = [] \<and> DIRECT_ENDPOINTS cfg = []) \<or> (PROVIDERS cfg \<noteq> [] \<and> KEYS cfg = [])"
  shows "start cfg w s = Normal (s\<lparr>exitCode := Some 1\<rparr>)"
  using assms by (intro start_invalid) (auto simp: valid_config_def)

theorem start_rejects_bad_config_witness:
  "(PROVIDERS (load_config (\<lambda>n. None)) = [] \<and> DIRECT_ENDPOINTS (load_config (\<lambda>n. None)) = []) \<and>
   exitCode (main (\<lambda>n. None) demo_world 0) = Some 1 \<and>
   instances (main (\<lambda>n. None) demo_world 0) = []"
proof -
  have a: "PROVIDERS (load_config (\<lambda>n. None)) = [] \<and> DIRECT_ENDPOINTS (load_config (\<lambda>n. None)) = []"
    by (simp add: load_config_def)
  then have "(PROVIDERS (load_config (\<lambda>n. None)) = [] \<and> DIRECT_ENDPOINTS (load_config (\<lambda>n. None)) = []) \<or>
      (PROVIDERS (load_config (\<lambda>n. None)) \<noteq> [] \<and> KEYS (load_config (\<lambda>n. None)) = [])"
    by simp
  from start_rejects_bad_config [OF this, of demo_world "new_manager 0"] a
  show ?thesis by (simp add: main_def)
qed

text \<open>
  \<^bold>\<open>C26\<close> (functional). What \<^verbatim>\<open>start()\<close> launches: the \<open>j\<close>-th instance is registered
  under \<^verbatim>\<open>router-j\<close>, carries the \<open>j\<close>-th key (no key in the single-instance mode) and the
  port \<^verbatim>\<open>parseInt(PORT) + 100 + j\<close>, its child was spawned with the argument list built
  from this key and port, its restart count is 0, and it is healthy exactly when its
  readiness gate succeeded within 60 s.
\<close>

theorem launched_instances:
  assumes "valid_config cfg" and "start cfg w (new_manager t) = Normal s'"
    and "j < instance_count cfg"
  shows "map_get s' (instance_name j) = Some j \<and>
         instanceId (deref s' j) = ''router-'' @ nat_toString j \<and>
         key (deref s' j) = (if KEYS cfg = [] then None else Some (KEYS cfg ! j)) \<and>
         port (deref s' j) = js_plus (js_plus (parseInt_val (PORT cfg)) (Num 100)) (Num (int j)) \<and>
         argv (process (deref s' j)) = build_args cfg (key (deref s' j)) (port (deref s' j)) \<and>
         running (process (deref s' j)) = fst (w j) \<and>
         restartCount (deref s' j) = 0 \<and>
         healthy (deref s' j) = ready_within (snd (w j)) 0 0 60000"
  using start_valid_instance [OF assms]
  by (simp add: same_launch_def launched_def instance_key_def instance_name_def
      instance_port_def base_port_def READY_TIMEOUT_def)

theorem launched_instances_witness:
  "valid_config demo_cfg \<and> (2::nat) < instance_count demo_cfg \<and>
   (\<exists>s'. start demo_cfg demo_world (new_manager 0) = Normal s' \<and>
      key (deref s' 2) = Some ''k2'' \<and> port (deref s' 2) = Num 3102 \<and> healthy (deref s' 2))"
proof -
  from start_valid [OF demo_cfg_valid, of demo_world 0]
  obtain s' where s': "start demo_cfg demo_world (new_manager 0) = Normal s'" by blast
  have j: "(2::nat) < instance_count demo_cfg" by (simp add: demo_cfg_count)
  have "key (deref s' 2) = Some ''k2'' \<and> port (deref s' 2) = Num 3102 \<and> healthy (deref s' 2)"
    using launched_instances [OF demo_cfg_valid s' j] demo_world_ready [of 2]
    by (simp add: demo_cfg_eq READY_TIMEOUT_def)
  with s' j demo_cfg_valid show ?thesis by blast
qed

text \<open>
  Port uniqueness: when \<^verbatim>\<open>PORT\<close> parses to a number \<open>b\<close>, the instance
  ports are \<open>b + 100 + i\<close>; they are pairwise different and none of them is the port
  \<open>b\<close> of the front door.
\<close>

lemma instance_ports_distinct:
  assumes "parseInt_val (PORT cfg) = Num b"
  shows "instance_port cfg i = Num (b + 100 + int i) \<and>
         (i \<noteq> j \<longrightarrow> instance_port cfg i \<noteq> instance_port cfg j) \<and>
         instance_port cfg i \<noteq> Num b"
  using assms by (simp add: instance_port_Num)

lemma instance_ports_distinct_example:
  "parseInt_val (PORT demo_cfg) = Num 3000 \<and> instance_port demo_cfg 1 = Num 3101 \<and>
   instance_port demo_cfg 1 \<noteq> instance_port demo_cfg 2"
proof -
  have a: "parseInt_val (PORT demo_cfg) = Num 3000" by (simp add: demo_cfg_eq)
  from instance_ports_distinct [OF a, of 1 2] a show ?thesis by auto
qed

text \<open>
  \<^bold>\<open>C40\<close> (error). \<^verbatim>\<open>PORT\<close> is not validated: when it does not start with a number, the
  configuration still counts as valid, every instance gets the port \<^verbatim>\<open>NaN\<close>, and every
  worker is started with \<^verbatim>\<open>--port NaN\<close>.
\<close>

theorem unparsable_port_reaches_workers:
  assumes "valid_config cfg" and "parseInt_val (PORT cfg) = NaN"
    and "start cfg w (new_manager t) = Normal s'" and "j < instance_count cfg"
  shows "port (deref s' j) = NaN \<and>
         flag_values ''--port'' (argv (process (deref s' j))) = [''NaN'']"
  using start_valid_instance(2) [OF assms(1,3,4)] assms(2)
  by (simp add: same_launch_def launched_def instance_port_NaN flag_values_build_args)

theorem unparsable_port_reaches_workers_witness:
  "valid_config (demo_cfg\<lparr>PORT := Str ''http''\<rparr>) \<and>
   parseInt_val (PORT (demo_cfg\<lparr>PORT := Str ''http''\<rparr>)) = NaN \<and>
   (0::nat) < instance_count (demo_cfg\<lparr>PORT := Str ''http''\<rparr>) \<and>
   (\<exists>s'. start (demo_cfg\<lparr>PORT := Str ''http''\<rparr>) demo_world (new_manager 0) = Normal s' \<and>
      port (deref s' 0) = NaN)"
proof -
  let ?c = "demo_cfg\<lparr>PORT := Str ''http''\<rparr>"
  have v: "valid_config ?c" by (simp add: demo_cfg_eq valid_config_def)
  have n: "parseInt_val (PORT ?c) = NaN" by code_simp
  have j: "(0::nat) < instance_count ?c" by (simp add: demo_cfg_eq instance_count_def)
  from start_valid [OF v, of demo_world 0]
  obtain s' where s': "start ?c demo_world (new_manager 0) = Normal s'" by blast
  from unparsable_port_reaches_workers [OF v n s' j] v n j s' show ?thesis by blast
qed

end
