(* ===== verification/System.thy ===== *)
theory System
  imports LoadBalancer Startup
begin

text \<open>
  The running manager as a transition system. After \<^verbatim>\<open>start()\<close> everything the program
  does is a callback of the event loop; \<open>event\<close> lists them, \<open>apply_event\<close> runs the
  operation of the component theories that the callback is, and \<open>enabled\<close> says when the
  event can occur:
  \<^item> a request arrives (\<open>Request\<close>), a forwarded request gets its answer
    (\<open>ProxyResponse\<close>) or fails (\<open>ProxyError\<close>);
  \<^item> the health-check interval fires (\<open>HealthTick\<close>);
  \<^item> a child ends (\<open>ChildExit\<close>: the runtime marks it as no longer running, then the
    \<^verbatim>\<open>close\<close> handler runs) or reports an error (\<open>ChildError\<close>);
  \<^item> a restart timer that is due fires (\<open>TimerFires\<close>);
  \<^item> a termination signal arrives (\<open>Signal\<close>, the first part of \<^verbatim>\<open>shutdown\<close>) and the
    grace period ends (\<open>GraceOver\<close>, its second part);
  \<^item> time passes (\<open>Elapse\<close>).
  What the outside world contributes (answers of probes, exit codes, whether a spawn
  succeeds) is carried by the event. A manager that has exited takes no step.

  \<open>step\<close> is the transition relation, \<open>reachable\<close> its reflexive transitive closure from
  a given state, and \<open>run\<close> the executable form for a given list of events. The
  interval callback and the readiness gate of a restart run here as one step each;
  theory \<open>EventLoop\<close> has them at the grain of their suspension points.

  \<open>sys_inv\<close> is the invariant of the running system; the theorems of this theory are
  proved from it by rule induction.
\<close>

section \<open>Events and steps\<close>

datatype event =
    Request string
  | ProxyResponse ref nat
  | ProxyError ref
  | HealthTick network
  | ChildExit ref "int option"
  | ChildError ref
  | TimerFires "millis \<times> ref" bool probes
  | Signal
  | GraceOver
  | Elapse millis

definition exited :: "inst \<Rightarrow> inst" where
  "exited i = i\<lparr>process := (process i)\<lparr>running := False\<rparr>\<rparr>"

fun apply_event :: "config \<Rightarrow> event \<Rightarrow> manager \<Rightarrow> manager" where
  "apply_event cfg (Request url) s = snd (handle_request url s)"
| "apply_event cfg (ProxyResponse r c) s = snd (on_proxy_response r c s)"
| "apply_event cfg (ProxyError r) s = snd (on_proxy_error r s)"
| "apply_event cfg (HealthTick net) s = healthCheckTick net s"
| "apply_event cfg (ChildExit r code) s = on_close r code (update_inst r exited s)"
| "apply_event cfg (ChildError r) s = on_child_error r s"
| "apply_event cfg (TimerFires e spawned net) s = fire_timer cfg spawned net e s"
| "apply_event cfg Signal s = shutdown_begin s"
| "apply_event cfg GraceOver s = shutdown_finish s"
| "apply_event cfg (Elapse d) s = s\<lparr>now := now s + d\<rparr>"

fun enabled :: "event \<Rightarrow> manager \<Rightarrow> bool" where
  "enabled (Request url) s \<longleftrightarrow> listening s"
| "enabled (ProxyResponse r c) s \<longleftrightarrow> r < length (heap s)"
| "enabled (ProxyError r) s \<longleftrightarrow> r < length (heap s)"
| "enabled (HealthTick net) s \<longleftrightarrow> healthCheckInterval s = Some True"
| "enabled (ChildExit r code) s \<longleftrightarrow> r < length (heap s) \<and> running (process (deref s r))"
| "enabled (ChildError r) s \<longleftrightarrow> r < length (heap s)"
| "enabled (TimerFires e spawned net) s \<longleftrightarrow> e \<in> set (timers s) \<and> fst e \<le> now s"
| "enabled Signal s \<longleftrightarrow> handlers s"
| "enabled GraceOver s \<longleftrightarrow> isShuttingDown s"
| "enabled (Elapse d) s \<longleftrightarrow> True"

inductive step :: "config \<Rightarrow> manager \<Rightarrow> event \<Rightarrow> manager \<Rightarrow> bool" for cfg where
  stepI: "exitCode s = None \<Longrightarrow> enabled ev s \<Longrightarrow> step cfg s ev (apply_event cfg ev s)"

inductive reachable :: "config \<Rightarrow> manager \<Rightarrow> manager \<Rightarrow> bool" for cfg s0 where
  init: "reachable cfg s0 s0"
| after: "reachable cfg s0 s \<Longrightarrow> step cfg s ev s' \<Longrightarrow> reachable cfg s0 s'"

fun run :: "config \<Rightarrow> event list \<Rightarrow> manager \<Rightarrow> manager option" where
  "run cfg [] s = Some s"
| "run cfg (ev # evs) s =
     (if exitCode s = None \<and> enabled ev s then run cfg evs (apply_event cfg ev s) else None)"

inductive_cases stepE: "step cfg s ev s'"

inductive_simps step_iff: "step cfg s ev s'"

lemma run_append:
  "run cfg (evs @ evs') s = (case run cfg evs s of None \<Rightarrow> None | Some s' \<Rightarrow> run cfg evs' s')"
  by (induction evs arbitrary: s) simp_all

lemma run_snoc:
  "run cfg evs s0 = Some s \<Longrightarrow> step cfg s ev s' \<Longrightarrow> run cfg (evs @ [ev]) s0 = Some s'"
  by (auto simp: run_append elim!: stepE)

lemma reachable_run: "reachable cfg s0 s \<longleftrightarrow> (\<exists>evs. run cfg evs s0 = Some s)"
proof
  assume "reachable cfg s0 s"
  then show "\<exists>evs. run cfg evs s0 = Some s"
  proof induction
    case init
    have "run cfg [] s0 = Some s0" by simp
    then show ?case ..
  next
    case (after s ev s')
    then show ?case by (blast intro: run_snoc)
  qed
next
  assume "\<exists>evs. run cfg evs s0 = Some s"
  then obtain evs where "run cfg evs s0 = Some s" ..
  then show "reachable cfg s0 s"
  proof (induction evs arbitrary: s rule: rev_induct)
    case Nil
    then show ?case by (simp add: reachable.init)
  next
    case (snoc ev evs)
    then obtain s1 where s1: "run cfg evs s0 = Some s1" and "run cfg [ev] s1 = Some s"
      by (auto simp: run_append split: option.splits)
    then have "step cfg s1 ev s"
      by (auto simp: step_iff split: if_splits)
    with snoc.IH [OF s1] show ?case by (rule reachable.after)
  qed
qed

lemma reachable_trans:
  assumes "reachable cfg s1 s2" and "reachable cfg s0 s1"
  shows "reachable cfg s0 s2"
  using assms by induction (auto intro: reachable.after)

section \<open>The invariant of the running system\<close>

text \<open>
  Beyond well-formedness of the store: an object that has been replaced in the registry
  belongs to a child that has exited and has no restart pending; a pending restart
  belongs to an exited child, and there is at most one per object; a registered object
  has restart count 0; once shutdown has begun every registered child has exited or
  has been signalled; and no child has received \<^verbatim>\<open>SIGKILL\<close>.
\<close>

definition sys_inv :: "manager \<Rightarrow> bool" where
  "sys_inv s \<longleftrightarrow>
     wf s \<and>
     (\<forall>r<length (heap s). r \<notin> set (value_refs s) \<longrightarrow>
        \<not> running (process (deref s r)) \<and> r \<notin> snd ` set (timers s)) \<and>
     (\<forall>e\<in>set (timers s). \<not> running (process (deref s (snd e)))) \<and>
     distinct (map snd (timers s)) \<and>
     (\<forall>r\<in>set (value_refs s). restartCount (deref s r) = 0) \<and>
     (isShuttingDown s \<longrightarrow> (\<forall>r\<in>set (value_refs s). settled (deref s r))) \<and>
     (\<forall>r<length (heap s). SIGKILL \<notin> set (received (process (deref s r))))"

text \<open>
  A step is quiet when it leaves the registry, the timers, the shutdown flag, and the
  child and restart count of every object as they are. Quiet steps keep the invariant.
\<close>

definition quiet :: "manager \<Rightarrow> manager \<Rightarrow> bool" where
  "quiet s s' \<longleftrightarrow>
     instances s' = instances s \<and> timers s' = timers s \<and>
     length (heap s') = length (heap s) \<and> isShuttingDown s' = isShuttingDown s \<and>
     (\<forall>r. process (deref s' r) = process (deref s r)) \<and>
     (\<forall>r. restartCount (deref s' r) = restartCount (deref s r))"

lemma sys_invD:
  assumes "sys_inv s"
  shows "wf s"
    and "r < length (heap s) \<Longrightarrow> r \<notin> set (value_refs s) \<Longrightarrow> \<not> running (process (deref s r))"
    and "r < length (heap s) \<Longrightarrow> r \<notin> set (value_refs s) \<Longrightarrow> (t, r) \<notin> set (timers s)"
    and "(t, r) \<in> set (timers s) \<Longrightarrow> \<not> running (process (deref s r))"
    and "distinct (map snd (timers s))"
    and "r \<in> set (value_refs s) \<Longrightarrow> restartCount (deref s r) = 0"
    and "isShuttingDown s \<Longrightarrow> r \<in> set (value_refs s) \<Longrightarrow> settled (deref s r)"
    and "r < length (heap s) \<Longrightarrow> SIGKILL \<notin> set (received (process (deref s r)))"
proof -
  from assms have a: "wf s"
    and b: "\<forall>r<length (heap s). r \<notin> set (value_refs s) \<longrightarrow>
        \<not> running (process (deref s r)) \<and> r \<notin> snd ` set (timers s)"
    and c: "\<forall>e\<in>set (timers s). \<not> running (process (deref s (snd e)))"
    and d: "distinct (map snd (timers s))"
    and e: "\<forall>r\<in>set (value_refs s). restartCount (deref s r) = 0"
    and f: "isShuttingDown s \<longrightarrow> (\<forall>r\<in>set (value_refs s). settled (deref s r))"
    and g: "\<forall>r<length (heap s). SIGKILL \<notin> set (received (process (deref s r)))"
    unfolding sys_inv_def by simp_all
  show "wf s" by (rule a)
  show "distinct (map snd (timers s))" by (rule d)
  from b show "r < length (heap s) \<Longrightarrow> r \<notin> set (value_refs s) \<Longrightarrow> \<not> running (process (deref s r))"
    by simp
  show "(t, r) \<notin> set (timers s)" if "r < length (heap s)" "r \<notin> set (value_refs s)"
  proof
    assume "(t, r) \<in> set (timers s)"
    then have "snd (t, r) \<in> snd ` set (timers s)" by (rule imageI)
    with b that show False by simp
  qed
  from c show "(t, r) \<in> set (timers s) \<Longrightarrow> \<not> running (process (deref s r))"
    by (auto dest: bspec)
  from e show "r \<in> set (value_refs s) \<Longrightarrow> restartCount (deref s r) = 0" by simp
  from f show "isShuttingDown s \<Longrightarrow> r \<in> set (value_refs s) \<Longrightarrow> settled (deref s r)" by simp
  from g show "r < length (heap s) \<Longrightarrow> SIGKILL \<notin> set (received (process (deref s r)))" by simp
qed

lemma sys_invI:
  assumes "wf s"
    and "\<And>r. r < length (heap s) \<Longrightarrow> r \<notin> set (value_refs s) \<Longrightarrow> \<not> running (process (deref s r))"
    and "\<And>r t. r < length (heap s) \<Longrightarrow> r \<notin> set (value_refs s) \<Longrightarrow> (t, r) \<notin> set (timers s)"
    and "\<And>t r. (t, r) \<in> set (timers s) \<Longrightarrow> \<not> running (process (deref s r))"
    and "distinct (map snd (timers s))"
    and "\<And>r. r \<in> set (value_refs s) \<Longrightarrow> restartCount (deref s r) = 0"
    and "\<And>r. isShuttingDown s \<Longrightarrow> r \<in> set (value_refs s) \<Longrightarrow> settled (deref s r)"
    and "\<And>r. r < length (heap s) \<Longrightarrow> SIGKILL \<notin> set (received (process (deref s r)))"
  shows "sys_inv s"
  unfolding sys_inv_def
proof (intro conjI allI impI ballI)
  show "wf s" by (rule assms(1))
  show "distinct (map snd (timers s))" by (rule assms(5))
next
  fix r assume "r < length (heap s)" "r \<notin> set (value_refs s)"
  then show "\<not> running (process (deref s r))" by (rule assms(2))
next
  fix r assume a: "r < length (heap s)" "r \<notin> set (value_refs s)"
  show "r \<notin> snd ` set (timers s)"
  proof
    assume "r \<in> snd ` set (timers s)"
    then obtain t where "(t, r) \<in> set (timers s)" by force
    with assms(3) [OF a] show False by simp
  qed
next
  fix e assume "e \<in> set (timers s)"
  then have "(fst e, snd e) \<in> set (timers s)" by simp
  then show "\<not> running (process (deref s (snd e)))" by (rule assms(4))
next
  fix r assume "r \<in> set (value_refs s)"
  then show "restartCount (deref s r) = 0" by (rule assms(6))
next
  fix r assume "isShuttingDown s" "r \<in> set (value_refs s)"
  then show "settled (deref s r)" by (rule assms(7))
next
  fix r assume "r < length (heap s)"
  then show "SIGKILL \<notin> set (received (process (deref s r)))" by (rule assms(8))
qed

lemma exited_simps [simp]:
  "running (process (exited i)) = False"
  "killed (process (exited i)) = killed (process i)"
  "received (process (exited i)) = received (process i)"
  "argv (process (exited i)) = argv (process i)"
  "instanceId (exited i) = instanceId i" "key (exited i) = key i" "port (exited i) = port i"
  "healthy (exited i) = healthy i" "restartCount (exited i) = restartCount i"
  "startTime (exited i) = startTime i" "lastHealthCheck (exited i) = lastHealthCheck i"
  by (simp_all add: exited_def)

lemma settled_exited [simp]: "settled (exited i)"
  by (simp add: settled_def)

lemma settled_set_healthy [simp]: "settled (set_healthy b i) = settled i"
  by (simp add: settled_def)

lemma deref_child_exit:
  "deref (on_close r code (update_inst r exited s)) q =
     (if q = r \<and> r < length (heap s) then set_healthy False (exited (deref s r)) else deref s q)"
  by (simp add: deref_on_close deref_update_inst)

lemma timers_child_exit:
  "(t, q) \<in> set (timers (on_close r code (update_inst r exited s))) \<Longrightarrow>
   (t, q) \<in> set (timers s) \<or> q = r"
  by (auto simp: timers_on_close split: if_splits)

lemma sys_inv_child_exit:
  assumes inv: "sys_inv s" and r: "r < length (heap s)" and run: "running (process (deref s r))"
  shows "sys_inv (on_close r code (update_inst r exited s))"
proof (rule sys_invI)
  let ?s' = "on_close r code (update_inst r exited s)"
  note D = sys_invD [OF inv]
  have v [simp]: "value_refs ?s' = value_refs s" by (simp add: value_refs_def)
  have l [simp]: "length (heap ?s') = length (heap s)" by simp
  from D(2) [of r] r run have reg: "r \<in> set (value_refs s)" by blast
  have fresh: "r \<notin> snd ` set (timers s)"
  proof
    assume "r \<in> snd ` set (timers s)"
    then obtain t where "(t, r) \<in> set (timers s)" by force
    with D(4) run show False by blast
  qed
  show "wf ?s'"
    using D(1) r by (intro wf_on_close wf_update_inst) simp_all
  show "distinct (map snd (timers ?s'))"
    using D(5) fresh by (simp add: timers_on_close)
  show "\<not> running (process (deref ?s' q))" if "q < length (heap ?s')" "q \<notin> set (value_refs ?s')" for q
    using that D(2) [of q] by (auto simp: deref_child_exit)
  show "(t, q) \<notin> set (timers ?s')" if "q < length (heap ?s')" "q \<notin> set (value_refs ?s')" for q t
    using that D(3) [of q t] reg timers_child_exit [of t q r code s] by auto
  show "\<not> running (process (deref ?s' q))" if "(t, q) \<in> set (timers ?s')" for t q
    using timers_child_exit [OF that] D(4) [of t q] r by (auto simp: deref_child_exit)
  show "restartCount (deref ?s' q) = 0" if "q \<in> set (value_refs ?s')" for q
    using that D(6) [of q] by (auto simp: deref_child_exit)
  show "settled (deref ?s' q)" if "isShuttingDown ?s'" "q \<in> set (value_refs ?s')" for q
    using that D(7) [of q] by (auto simp: deref_child_exit)
  show "SIGKILL \<notin> set (received (process (deref ?s' q)))" if "q < length (heap ?s')" for q
    using that D(8) [of q] by (auto simp: deref_child_exit)
qed

lemma sys_inv_quiet:
  assumes "sys_inv s" and "quiet s s'" and "wf s'"
  shows "sys_inv s'"
  using assms by (simp add: sys_inv_def quiet_def value_refs_def settled_def)

lemma quiet_events:
  "quiet s (snd (handle_request url s))"
  "quiet s (snd (on_proxy_response r c s))"
  "quiet s (snd (on_proxy_error r s))"
  "quiet s (healthCheckTick net s)"
  "quiet s (on_child_error r s)"
  "quiet s (s\<lparr>now := t\<rparr>)"
  by (simp_all add: quiet_def snd_handle_request on_proxy_response_def on_proxy_error_def
      on_child_error_def deref_update_inst)

section \<open>Each kind of step keeps the invariant\<close>

lemma sys_inv_drop_timer:
  assumes inv: "sys_inv s"
  shows "sys_inv (s\<lparr>timers := remove1 e (timers s)\<rparr>)"
proof (rule sys_invI)
  let ?s' = "s\<lparr>timers := remove1 e (timers s)\<rparr>"
  note D = sys_invD [OF inv]
  have sub: "(t, q) \<in> set (timers ?s') \<Longrightarrow> (t, q) \<in> set (timers s)" for t q
    using set_remove1_subset [of e "timers s"] by auto
  show "wf ?s'" using D(1) by (rule wf_timers_remove1)
  show "distinct (map snd (timers ?s'))"
    using D(5) by (simp add: distinct_map distinct_remove1 inj_on_def)
  show "\<not> running (process (deref ?s' q))" if "q < length (heap ?s')" "q \<notin> set (value_refs ?s')" for q
    using that D(2) [of q] by simp
  show "(t, q) \<notin> set (timers ?s')" if "q < length (heap ?s')" "q \<notin> set (value_refs ?s')" for q t
    using that D(3) [of q t] sub [of t q] by auto
  show "\<not> running (process (deref ?s' q))" if "(t, q) \<in> set (timers ?s')" for t q
    using sub [OF that] D(4) [of t q] by simp
  show "restartCount (deref ?s' q) = 0" if "q \<in> set (value_refs ?s')" for q
    using that D(6) [of q] by simp
  show "settled (deref ?s' q)" if "isShuttingDown ?s'" "q \<in> set (value_refs ?s')" for q
    using that D(7) [of q] by simp
  show "SIGKILL \<notin> set (received (process (deref ?s' q)))" if "q < length (heap ?s')" for q
    using that D(8) [of q] by simp
qed

lemma sys_inv_restart:
  assumes inv: "sys_inv s" and shut: "\<not> isShuttingDown s" and reg: "r \<in> set (value_refs s)"
    and dead: "\<not> running (process (deref s r))" and no_timer: "r \<notin> snd ` set (timers s)"
  shows "sys_inv (on_restart_timer cfg spawned net r s)"
proof (rule sys_invI)
  let ?s' = "on_restart_timer cfg spawned net r s"
  let ?n = "length (heap s)"
  note D = sys_invD [OF inv]
  from reg obtain k where k: "(k, r) \<in> set (instances s)" by (auto simp: value_refs_def)
  note S = restart_shape [OF D(1) shut k, where cfg = cfg and spawned = spawned and net = net]
  from S(7) obtain h where new: "deref ?s' ?n =
      (new_instance k (key (deref s r)) (port (deref s r))
         (new_child (build_args cfg (key (deref s r)) (port (deref s r))) spawned) (now s))
      \<lparr>healthy := h\<rparr>" ..
  have unreg: "q < ?n \<and> (q = r \<or> q \<notin> set (value_refs s))"
    if "q < length (heap ?s')" "q \<notin> set (value_refs ?s')" for q
    using that by (auto simp: S(2,3))
  show "wf ?s'" using D(1) by simp
  show "distinct (map snd (timers ?s'))" using D(5) by (simp add: S(4))
  show "\<not> running (process (deref ?s' q))" if "q < length (heap ?s')" "q \<notin> set (value_refs ?s')" for q
    using unreg [OF that] dead D(2) [of q] by (auto simp: S(6))
  show "(t, q) \<notin> set (timers ?s')" if "q < length (heap ?s')" "q \<notin> set (value_refs ?s')" for q t
    using unreg [OF that] no_timer D(3) [of q t] by (auto simp: S(4) image_iff)
  show "\<not> running (process (deref ?s' q))" if "(t, q) \<in> set (timers ?s')" for t q
  proof -
    from that have m: "(t, q) \<in> set (timers s)" by (simp add: S(4))
    with D(1) have "q < ?n" by (rule wfD_timer)
    with D(4) [OF m] show ?thesis by (auto simp: S(6))
  qed
  show "restartCount (deref ?s' q) = 0" if "q \<in> set (value_refs ?s')" for q
  proof (cases "q = ?n")
    case True
    then show ?thesis by (simp add: new)
  next
    case False
    with that have q: "q \<in> set (value_refs s)" "q \<noteq> r" by (auto simp: S(2))
    with D(1) have "q < ?n" by (auto dest: value_refs_valid)
    with q D(6) [of q] show ?thesis by (simp add: S(6))
  qed
  show "settled (deref ?s' q)" if "isShuttingDown ?s'" "q \<in> set (value_refs ?s')" for q
    using that S(5) by simp
  show "SIGKILL \<notin> set (received (process (deref ?s' q)))" if "q < length (heap ?s')" for q
  proof (cases "q = ?n")
    case True
    then show ?thesis by (simp add: new)
  next
    case False
    with that have "q < ?n" by (simp add: S(3))
    with D(8) [of q] show ?thesis by (auto simp: S(6))
  qed
qed

lemma sys_inv_fire_timer:
  assumes inv: "sys_inv s" and e: "e \<in> set (timers s)"
  shows "sys_inv (fire_timer cfg spawned net e s)"
proof (cases "isShuttingDown s")
  case True
  with sys_inv_drop_timer [OF inv, of e] show ?thesis by (simp add: fire_timer_def)
next
  case False
  let ?s1 = "s\<lparr>timers := remove1 e (timers s)\<rparr>"
  note D = sys_invD [OF inv]
  obtain t r where tr: "e = (t, r)" by (cases e)
  from e D(1) have r: "r < length (heap s)" by (auto simp: tr dest: wfD_timer)
  from e D(3) [of r t] r have reg: "r \<in> set (value_refs ?s1)" by (auto simp: tr)
  from e D(4) [of t r] have dead: "\<not> running (process (deref ?s1 r))" by (simp add: tr)
  have "r \<notin> snd ` set (timers ?s1)"
    using remove1_ref_gone [OF D(5), of t r] e by (auto simp: tr)
  with sys_inv_drop_timer [OF inv, of e] False reg dead
  have "sys_inv (on_restart_timer cfg spawned net r ?s1)"
    by (intro sys_inv_restart) simp_all
  then show ?thesis by (simp add: fire_timer_def tr)
qed

lemma sys_inv_shutdown_begin:
  assumes inv: "sys_inv s"
  shows "sys_inv (shutdown_begin s)"
proof (rule sys_invI)
  let ?s' = "shutdown_begin s"
  note D = sys_invD [OF inv]
  note d = deref_shutdown_begin [OF D(1)]
  show "wf ?s'" using D(1) by simp
  show "distinct (map snd (timers ?s'))" using D(5) by simp
  show "\<not> running (process (deref ?s' q))" if "q < length (heap ?s')" "q \<notin> set (value_refs ?s')" for q
    using that D(2) [of q] by (simp add: d)
  show "(t, q) \<notin> set (timers ?s')" if "q < length (heap ?s')" "q \<notin> set (value_refs ?s')" for q t
    using that D(3) [of q t] by simp
  show "\<not> running (process (deref ?s' q))" if "(t, q) \<in> set (timers ?s')" for t q
    using that D(4) [of t q] by (simp add: d)
  show "restartCount (deref ?s' q) = 0" if "q \<in> set (value_refs ?s')" for q
    using that D(6) [of q] by (simp add: d)
  show "settled (deref ?s' q)" if "isShuttingDown ?s'" "q \<in> set (value_refs ?s')" for q
    using that by (simp add: d)
  show "SIGKILL \<notin> set (received (process (deref ?s' q)))" if "q < length (heap ?s')" for q
    using that D(8) [of q] by (simp add: d received_signal_inst)
qed

lemma quiet_same_heap:
  assumes "heap s' = heap s" and "instances s' = instances s" and "timers s' = timers s"
    and "isShuttingDown s' = isShuttingDown s"
  shows "quiet s s'"
  unfolding quiet_def deref_def using assms by simp

lemma sys_inv_shutdown_finish:
  assumes inv: "sys_inv s" and shut: "isShuttingDown s"
  shows "sys_inv (shutdown_finish s)"
proof -
  note D = sys_invD [OF inv]
  from D(7) [OF shut] have "\<forall>r\<in>set (value_refs s). settled (deref s r)" by simp
  with D(1) have "heap (shutdown_finish s) = heap s" by (rule shutdown_finish_settled)
  then have "quiet s (shutdown_finish s)" by (rule quiet_same_heap) simp_all
  moreover from D(1) have "wf (shutdown_finish s)" by simp
  ultimately show ?thesis by (rule sys_inv_quiet [OF inv])
qed

lemma quiet_refl [simp]: "quiet s s"
  by (simp add: quiet_def)

lemma sys_inv_step:
  assumes "sys_inv s" and "step cfg s ev s'"
  shows "sys_inv s'"
proof -
  note w = sys_invD(1) [OF assms(1)]
  from assms(2) have en: "enabled ev s" and s': "s' = apply_event cfg ev s"
    by (auto elim: stepE)
  show ?thesis
  proof (cases ev)
    case (Request url)
    show ?thesis unfolding s' Request apply_event.simps using assms(1)
      by (rule sys_inv_quiet) (simp_all add: quiet_events w)
  next
    case (ProxyResponse r c)
    show ?thesis unfolding s' ProxyResponse apply_event.simps using assms(1)
      by (rule sys_inv_quiet) (simp_all add: quiet_events w on_proxy_response_def)
  next
    case (ProxyError r)
    show ?thesis unfolding s' ProxyError apply_event.simps using assms(1)
      by (rule sys_inv_quiet) (simp_all add: quiet_events w)
  next
    case (HealthTick net)
    show ?thesis unfolding s' HealthTick apply_event.simps using assms(1)
      by (rule sys_inv_quiet) (simp_all add: quiet_events w)
  next
    case (ChildExit r code)
    with assms(1) en show ?thesis unfolding s' by (simp add: sys_inv_child_exit)
  next
    case (ChildError r)
    show ?thesis unfolding s' ChildError apply_event.simps using assms(1)
      by (rule sys_inv_quiet) (simp_all add: quiet_events w)
  next
    case (TimerFires e spawned net)
    with assms(1) en show ?thesis unfolding s' by (simp add: sys_inv_fire_timer)
  next
    case Signal
    with assms(1) show ?thesis unfolding s' by (simp add: sys_inv_shutdown_begin)
  next
    case GraceOver
    with assms(1) en show ?thesis unfolding s' by (simp add: sys_inv_shutdown_finish)
  next
    case (Elapse d)
    show ?thesis unfolding s' Elapse apply_event.simps using assms(1)
      by (rule sys_inv_quiet) (simp_all add: quiet_events w)
  qed
qed

lemma sys_inv_reachable:
  assumes "reachable cfg s0 s" and "sys_inv s0"
  shows "sys_inv s"
  using assms by induction (auto intro: sys_inv_step)

section \<open>The state after start-up\<close>

lemma sys_inv_started:
  assumes "valid_config cfg" and "start cfg w (new_manager t) = Normal s"
  shows "sys_inv s"
proof (rule sys_invI)
  from start_valid [OF assms(1), of w t] assms(2)
  have w: "wf s" and v: "value_refs s = [0..<instance_count cfg]"
    and l: "length (heap s) = instance_count cfg"
    and L: "\<forall>j<instance_count cfg. same_launch (deref s j) (launched cfg w j (instance_key cfg j) 0)"
    and t: "timers s = []" and sh: "\<not> isShuttingDown s"
    by auto
  show "wf s" by (rule w)
  show "distinct (map snd (timers s))" by (simp add: t)
  show "\<not> running (process (deref s r))" if "r < length (heap s)" "r \<notin> set (value_refs s)" for r
    using that by (simp add: v l)
  show "(t', r) \<notin> set (timers s)" for t' r by (simp add: t)
  show "\<not> running (process (deref s r))" if "(t', r) \<in> set (timers s)" for t' r
    using that by (simp add: t)
  show "restartCount (deref s r) = 0" if "r \<in> set (value_refs s)" for r
    using that L by (auto simp: v dest!: spec [of _ r] same_launchD(1))
  show "settled (deref s r)" if "isShuttingDown s" for r
    using that sh by simp
  show "SIGKILL \<notin> set (received (process (deref s r)))" if "r < length (heap s)" for r
    using that L by (auto simp: l dest!: spec [of _ r] same_launchD(2))
qed

lemma sys_inv_after_start:
  assumes "valid_config cfg" and "start cfg w (new_manager t) = Normal s0"
    and "reachable cfg s0 s"
  shows "sys_inv s"
  using assms(3) sys_inv_started [OF assms(1,2)] by (rule sys_inv_reachable)

lemma reachable_one:
  "exitCode s = None \<Longrightarrow> enabled ev s \<Longrightarrow> reachable cfg s (apply_event cfg ev s)"
  by (rule reachable.after [OF reachable.init]) (rule stepI)

section \<open>What every step keeps\<close>

lemmas event_defs = snd_handle_request on_proxy_response_def on_proxy_error_def
  on_child_error_def fire_timer_def timers_on_close

lemma apply_event_keeps:
  "handlers (apply_event cfg ev s) = handlers s"
  "listening (apply_event cfg ev s) = listening s"
  "isShuttingDown s \<Longrightarrow> isShuttingDown (apply_event cfg ev s)"
  "healthCheckInterval s \<noteq> Some True \<Longrightarrow> healthCheckInterval (apply_event cfg ev s) \<noteq> Some True"
  by (cases ev; simp add: event_defs)+

lemma apply_event_shutting_down:
  assumes "isShuttingDown s"
  shows "instances (apply_event cfg ev s) = instances s"
    and "length (heap (apply_event cfg ev s)) = length (heap s)"
    and "set (timers (apply_event cfg ev s)) \<subseteq> set (timers s)"
  using assms by (cases ev; simp add: event_defs set_remove1_subset)+

text \<open>
  No step assigns the id, the key or the port of an object. The handlers of a child read
  them from the object their closure was created with; they are therefore the values
  the closure captured.
\<close>

lemma launch_spec_kept:
  assumes "step cfg s ev s'" and "wf s" and "r < length (heap s)"
  shows "instanceId (deref s' r) = instanceId (deref s r) \<and> key (deref s' r) = key (deref s r) \<and>
         port (deref s' r) = port (deref s r)"
proof -
  from assms(1) have s': "s' = apply_event cfg ev s" by (auto elim: stepE)
  show ?thesis
  proof (cases ev)
    case (TimerFires e spawned net)
    obtain t q where e: "e = (t, q)" by (cases e)
    show ?thesis
    proof (cases "isShuttingDown s")
      case True
      then show ?thesis by (simp add: s' TimerFires fire_timer_def deref_def)
    next
      case False
      from assms(1) assms(2) have q: "q < length (heap s)"
        by (auto simp: step_iff TimerFires e dest: wfD_timer)
      with False assms(3) show ?thesis
        by (simp add: s' TimerFires e fire_timer_def on_restart_timer_eq deref_startInstance_old
            deref_update_inst)
    qed
  qed (use assms(2,3) in \<open>simp_all add: s' event_defs deref_update_inst deref_child_exit
        deref_shutdown_begin deref_shutdown_finish deref_def [of "s\<lparr>now := _\<rparr>"]\<close>)
qed

lemma reachable_keeps:
  assumes "reachable cfg s0 s"
  shows "handlers s = handlers s0" and "listening s = listening s0"
  using assms by (induction; auto simp: apply_event_keeps elim!: stepE)+

lemma reachable_shutting_down:
  assumes "reachable cfg s1 s2" and "isShuttingDown s1" and "healthCheckInterval s1 \<noteq> Some True"
  shows "isShuttingDown s2 \<and> healthCheckInterval s2 \<noteq> Some True \<and>
         instances s2 = instances s1 \<and> length (heap s2) = length (heap s1) \<and>
         set (timers s2) \<subseteq> set (timers s1)"
  using assms
proof induction
  case init
  then show ?case by simp
next
  case (after s ev s')
  from after.hyps(2) have s': "s' = apply_event cfg ev s" by (auto elim: stepE)
  from after have s: "isShuttingDown s" "healthCheckInterval s \<noteq> Some True" by simp_all
  with after.IH after.prems apply_event_keeps(3,4) [of s cfg ev]
    apply_event_shutting_down [OF s(1), of cfg ev]
  show ?case unfolding s' by auto
qed

lemma sys_inv_running_registered:
  assumes "sys_inv s" and "r < length (heap s)" and "running (process (deref s r))"
  shows "map_get s (instanceId (deref s r)) = Some r"
proof -
  note D = sys_invD [OF assms(1)]
  from D(2) [of r] assms(2,3) have "r \<in> set (value_refs s)" by blast
  then obtain k where k: "(k, r) \<in> set (instances s)" by (auto simp: value_refs_def)
  with D(1) have "instanceId (deref s r) = k" by (rule wfD_id)
  moreover from D(1) k have "map_of (instances s) k = Some r"
    by (simp add: map_of_distinct_mem [symmetric] wfD_keys)
  ultimately show ?thesis by (simp add: map_get_def)
qed

section \<open>A crash is followed by a restart\<close>

lemma restart_run:
  assumes inv: "sys_inv s" and live: "exitCode s = None" "\<not> isShuttingDown s"
    and r: "r < length (heap s)" "running (process (deref s r))" and code: "code \<noteq> Some 0"
  shows "\<exists>s'. run cfg [ChildExit r code, Elapse RESTART_DELAY,
                  TimerFires (now s + RESTART_DELAY, r) spawned net] s = Some s' \<and>
           exitCode s' = None \<and>
           map_get s' (instanceId (deref s r)) = Some (length (heap s)) \<and>
           running (process (deref s' (length (heap s)))) = spawned \<and>
           key (deref s' (length (heap s))) = key (deref s r) \<and>
           port (deref s' (length (heap s))) = port (deref s r) \<and>
           healthy (deref s' (length (heap s))) = ready_within net 0 0 READY_TIMEOUT"
proof -
  let ?e = "(now s + RESTART_DELAY, r)"
  let ?s1 = "on_close r code (update_inst r exited s)"
  let ?s2 = "?s1\<lparr>now := now ?s1 + RESTART_DELAY\<rparr>"
  let ?s2' = "?s2\<lparr>timers := remove1 ?e (timers ?s2)\<rparr>"
  let ?s3 = "on_restart_timer cfg spawned net r ?s2'"
  let ?k = "instanceId (deref s r)"
  note D = sys_invD [OF inv]
  from sys_inv_running_registered [OF inv r]
  have "map_of (instances s) ?k = Some r" by (simp add: map_get_def)
  then have "(?k, r) \<in> set (instances s)" by (rule map_of_SomeD)
  then have k: "(?k, r) \<in> set (instances ?s2')" by simp
  have t1: "timers ?s1 = timers s @ [?e]" using live code by (simp add: timers_on_close)
  have "wf ?s1" using sys_inv_child_exit [OF inv r] by (rule sys_invD(1))
  then have w: "wf ?s2'" by (intro wf_timers_remove1) simp
  have sh: "\<not> isShuttingDown ?s2'" using live by simp
  have old: "deref ?s2' r = set_healthy False (exited (deref s r))"
    using r(1) deref_child_exit [of r code s r] by (simp add: deref_def)
  have len: "length (heap ?s2') = length (heap s)" by simp
  note S = restart_shape [OF w sh k, where cfg = cfg and spawned = spawned and net = net]
  from S(7) obtain h where new: "deref ?s3 (length (heap s)) =
      (new_instance ?k (key (deref s r)) (port (deref s r))
         (new_child (build_args cfg (key (deref s r)) (port (deref s r))) spawned) (now ?s2'))
      \<lparr>healthy := h\<rparr>"
    unfolding len old by auto
  have run: "run cfg [ChildExit r code, Elapse RESTART_DELAY,
                  TimerFires (now s + RESTART_DELAY, r) spawned net] s = Some ?s3"
    using live r by (simp add: t1 fire_timer_def)
  have "map_get ?s3 ?k = Some (length (heap s))"
    using S(1) by (simp add: map_get_def)
  moreover have "healthy (deref ?s3 (length (heap s))) = ready_within net 0 0 READY_TIMEOUT"
    using restart_verdict [OF sh, of r cfg spawned net] r(1) by simp
  moreover have "exitCode ?s3 = None" using live by simp
  ultimately show ?thesis using new by (intro exI [of _ ?s3] conjI run) simp_all
qed

text \<open>
  A termination signal is always followed by the exit: in a manager that has not exited
  and has its handlers installed, \<open>Signal\<close> and then \<open>GraceOver\<close> can occur, and
  the exit status is 0.
\<close>

lemma signal_leads_to_exit:
  assumes "exitCode s = None" and "handlers s"
  shows "\<exists>s'. run cfg [Signal, GraceOver] s = Some s' \<and> exitCode s' = Some 0"
  using assms by simp

section \<open>Properties of the running system\<close>

lemma demo_crash_reachable:
  "reachable demo_cfg demo_started (apply_event demo_cfg (ChildExit 0 (Some 1)) demo_started)"
  by (rule reachable_one) (simp_all add: demo_started_facts demo_started_running)

text \<open>
  \<^bold>\<open>C5\<close> (invariant). In every state that the manager reaches after a successful
  start-up, whatever the workers, the probes and the clients do, each entry of the
  \<^verbatim>\<open>/status\<close> body reports \<^verbatim>\<open>restartCount: 0\<close>: the counter is incremented on the object
  that the restart replaces in the registry, never on a registered one.
\<close>

theorem status_never_reports_a_restart:
  assumes "valid_config cfg" and "start cfg w (new_manager t) = Normal s0"
    and "reachable cfg s0 s"
  shows "\<forall>d\<in>set (map (detail_of s) (value_refs s)). s_restartCount d = 0"
  using sys_invD(6) [OF sys_inv_after_start [OF assms]] by (auto simp: detail_of_def)

theorem status_never_reports_a_restart_witness:
  "valid_config demo_cfg \<and> start demo_cfg demo_world (new_manager 0) = Normal demo_started \<and>
   reachable demo_cfg demo_started (apply_event demo_cfg (ChildExit 0 (Some 1)) demo_started) \<and>
   map s_restartCount
     (map (detail_of (apply_event demo_cfg (ChildExit 0 (Some 1)) demo_started))
        (value_refs (apply_event demo_cfg (ChildExit 0 (Some 1)) demo_started))) = [0, 0, 0]"
proof -
  have "value_refs (apply_event demo_cfg (ChildExit 0 (Some 1)) demo_started) = [0, 1, 2]"
    using demo_started_facts(6) by (simp add: value_refs_def)
  with status_never_reports_a_restart [OF demo_cfg_valid demo_start demo_crash_reachable]
    demo_cfg_valid demo_start demo_crash_reachable
  show ?thesis by simp
qed

text \<open>
  \<^bold>\<open>C6\<close> (safety). At most one live child per instance id: in every reachable state
  an object whose child is running is the one registered under its id, so two
  different objects with running children have different ids. A restart never starts a
  second worker beside a live one.
\<close>

theorem one_live_child_per_instance:
  assumes "valid_config cfg" and "start cfg w (new_manager t) = Normal s0"
    and "reachable cfg s0 s"
    and "r < length (heap s)" and "running (process (deref s r))"
  shows "map_get s (instanceId (deref s r)) = Some r \<and>
         (\<forall>q<length (heap s). q \<noteq> r \<and> running (process (deref s q)) \<longrightarrow>
            instanceId (deref s q) \<noteq> instanceId (deref s r))"
proof -
  note inv = sys_inv_after_start [OF assms(1-3)]
  note reg = sys_inv_running_registered [OF inv]
  from reg [OF assms(4,5)] show ?thesis using reg by (metis option.inject)
qed

theorem one_live_child_per_instance_witness:
  "valid_config demo_cfg \<and> start demo_cfg demo_world (new_manager 0) = Normal demo_started \<and>
   reachable demo_cfg demo_started demo_started \<and>
   (1::nat) < length (heap demo_started) \<and> running (process (deref demo_started 1)) \<and>
   map_get demo_started (instanceId (deref demo_started 1)) = Some 1"
  using one_live_child_per_instance [OF demo_cfg_valid demo_start reachable.init, of 1]
    demo_cfg_valid demo_start reachable.init [of demo_cfg demo_started]
  by (simp add: demo_started_facts demo_started_running)

text \<open>
  \<^bold>\<open>C8\<close> (safety). Shutting down is terminal: in every state reached after the
  first termination signal the flag is still set, the periodic health check is not
  armed, the registry and the number of objects are those at the time of the signal (no
  worker is started again, even when one exits with a failure in the meantime), and no
  restart has been scheduled.
\<close>

theorem shutdown_is_terminal:
  assumes "step cfg s Signal s1" and "reachable cfg s1 s2"
  shows "isShuttingDown s2 \<and> healthCheckInterval s2 \<noteq> Some True \<and>
         instances s2 = instances s1 \<and> length (heap s2) = length (heap s1) \<and>
         set (timers s2) \<subseteq> set (timers s)"
proof -
  from assms(1) have s1: "s1 = shutdown_begin s" by (auto elim: stepE)
  have "isShuttingDown s1" "healthCheckInterval s1 \<noteq> Some True" "timers s1 = timers s"
    by (simp_all add: s1 option.map_sel split: option.splits)
  with reachable_shutting_down [OF assms(2)] show ?thesis by simp
qed

theorem shutdown_is_terminal_witness:
  "step demo_cfg demo_started Signal (shutdown_begin demo_started) \<and>
   reachable demo_cfg (shutdown_begin demo_started)
     (apply_event demo_cfg (ChildExit 0 (Some 1)) (shutdown_begin demo_started)) \<and>
   timers (apply_event demo_cfg (ChildExit 0 (Some 1)) (shutdown_begin demo_started)) = []"
proof -
  have a: "step demo_cfg demo_started Signal (shutdown_begin demo_started)"
    using stepI [of demo_started Signal demo_cfg] by (simp add: demo_started_facts)
  have b: "reachable demo_cfg (shutdown_begin demo_started)
     (apply_event demo_cfg (ChildExit 0 (Some 1)) (shutdown_begin demo_started))"
    by (rule reachable_one)
       (simp_all add: demo_started_facts demo_started_running deref_shutdown_begin)
  from shutdown_is_terminal [OF a b] a b show ?thesis by (simp add: demo_started_facts)
qed

text \<open>
  \<^bold>\<open>C7\<close> (liveness). A crash is followed by a restart: in every reachable state in
  which the manager runs and is not shutting down, when the child of an object exits
  with a status other than 0, then this exit, the passing of the 5000 ms restart delay
  and the firing of the timer are three steps that can occur in this order, and they
  lead to a state in which the id of the object is registered to a new object with the
  same key and port and a running child, healthy exactly when its readiness gate
  succeeded within 60 s.
\<close>

theorem crash_leads_to_restart:
  assumes "valid_config cfg" and "start cfg w (new_manager t) = Normal s0"
    and "reachable cfg s0 s"
    and "exitCode s = None" and "\<not> isShuttingDown s"
    and "r < length (heap s)" and "running (process (deref s r))" and "code \<noteq> Some 0"
  shows "\<exists>s'. run cfg [ChildExit r code, Elapse 5000, TimerFires (now s + 5000, r) True net] s
                 = Some s' \<and> exitCode s' = None \<and>
           map_get s' (instanceId (deref s r)) = Some (length (heap s)) \<and>
           running (process (deref s' (length (heap s)))) \<and>
           key (deref s' (length (heap s))) = key (deref s r) \<and>
           port (deref s' (length (heap s))) = port (deref s r) \<and>
           healthy (deref s' (length (heap s))) = ready_within net 0 0 60000"
  using restart_run [OF sys_inv_after_start [OF assms(1-3)] assms(4-8), of cfg True net]
  by (simp add: RESTART_DELAY_def READY_TIMEOUT_def del: run.simps)

theorem crash_leads_to_restart_witness:
  "valid_config demo_cfg \<and> start demo_cfg demo_world (new_manager 0) = Normal demo_started \<and>
   reachable demo_cfg demo_started demo_started \<and> exitCode demo_started = None \<and>
   \<not> isShuttingDown demo_started \<and> (1::nat) < length (heap demo_started) \<and>
   running (process (deref demo_started 1)) \<and> Some (1::int) \<noteq> Some 0 \<and>
   (\<exists>s'. run demo_cfg [ChildExit 1 (Some 1), Elapse 5000,
              TimerFires (now demo_started + 5000, 1) True (snd (demo_world 0))] demo_started
            = Some s' \<and>
      map_get s' (instance_name 1) = Some 3 \<and> healthy (deref s' 3))"
proof -
  have r: "(1::nat) < length (heap demo_started)" "running (process (deref demo_started 1))"
    by (simp_all add: demo_started_facts demo_started_running)
  have i: "instanceId (deref demo_started 1) = instance_name 1"
    by (simp add: demo_started_running)
  from crash_leads_to_restart [OF demo_cfg_valid demo_start reachable.init
      demo_started_facts(1,4) r, of "Some 1" "snd (demo_world 0)"]
  obtain s' where "run demo_cfg [ChildExit 1 (Some 1), Elapse 5000,
        TimerFires (now demo_started + 5000, 1) True (snd (demo_world 0))] demo_started = Some s'"
    and "map_get s' (instance_name 1) = Some 3"
    and "healthy (deref s' 3) = ready_within (snd (demo_world 0)) 0 0 60000"
    unfolding i demo_started_facts by (auto simp del: run.simps)
  with demo_world_ready [of 0] r demo_cfg_valid demo_start
    reachable.init [of demo_cfg demo_started] demo_started_facts(1,4)
  show ?thesis by (simp add: READY_TIMEOUT_def del: run.simps)
qed

text \<open>
  \<^bold>\<open>C36\<close> (type). No dangling reference: in every state reached after a successful
  start-up the store is well formed, every id registered in the \<^verbatim>\<open>Map\<close> leads to an
  object of the store that carries this id, and the cursor of the selection, when set,
  is an object of the store. No handler of the running system meets \<^verbatim>\<open>undefined\<close> where
  it expects an instance.
\<close>

theorem reachable_states_well_formed:
  assumes "valid_config cfg" and "start cfg w (new_manager t) = Normal s0"
    and "reachable cfg s0 s"
  shows "wf s \<and>
         (\<forall>k r. map_get s k = Some r \<longrightarrow> r < length (heap s) \<and> instanceId (deref s r) = k) \<and>
         (\<forall>r. currentActiveInstance s = Some r \<longrightarrow> r < length (heap s))"
proof -
  from sys_inv_after_start [OF assms] have w: "wf s" by (rule sys_invD(1))
  have "r < length (heap s) \<and> instanceId (deref s r) = k" if "map_get s k = Some r" for k r
  proof -
    from that have "(k, r) \<in> set (instances s)" by (auto simp: map_get_def dest: map_of_SomeD)
    with w show ?thesis by (simp add: wfD_ref wfD_id)
  qed
  moreover from w have "r < length (heap s)" if "currentActiveInstance s = Some r" for r
    using that by (simp add: wf_def)
  ultimately show ?thesis using w by blast
qed

theorem reachable_states_well_formed_witness:
  "valid_config demo_cfg \<and> start demo_cfg demo_world (new_manager 0) = Normal demo_started \<and>
   reachable demo_cfg demo_started (apply_event demo_cfg (ChildExit 0 (Some 1)) demo_started) \<and>
   wf (apply_event demo_cfg (ChildExit 0 (Some 1)) demo_started)"
  using reachable_states_well_formed [OF demo_cfg_valid demo_start demo_crash_reachable]
    demo_cfg_valid demo_start demo_crash_reachable
  by blast

end
