(* ===== verification/EventLoop.thy ===== *)
theory EventLoop
  imports System
begin

text \<open>
  The manager at the grain of the event loop. The \<^verbatim>\<open>async\<close> methods of \<^verbatim>\<open>router-ha.js\<close> give
  up control at every \<^verbatim>\<open>await\<close>, and any other callback may run before they resume. In
  theory \<open>System\<close> the readiness gate of a restart and the interval callback run as one
  step; here each runs from one \<^verbatim>\<open>await\<close> to the next, and the calls that are suspended
  are part of the state:
  \<^item> a \<open>gate\<close> is a call of \<^verbatim>\<open>waitForInstanceReady\<close> suspended in its loop, either at the
    probe (\<open>Answer\<close>) or at \<^verbatim>\<open>sleep(1000)\<close> (\<open>Timer\<close>, with the time at which it is due); it
    holds the arguments and \<^verbatim>\<open>startTime\<close>, and who awaits it: the loop of \<^verbatim>\<open>start()\<close> for
    the key \<open>i\<close> (\<open>Some i\<close>), or nobody, when a restart timer made the call;
  \<^item> a \<open>pass\<close> is a run of the interval callback suspended at the probe of one entry of
    the \<^verbatim>\<open>Map\<close>; it holds the position of the iterator, the entry, and \<^verbatim>\<open>wasHealthy\<close>;
  \<^item> \<open>booting\<close> is where \<^verbatim>\<open>start()\<close> stands: suspended at \<^verbatim>\<open>await this.startInstance\<close>
    (\<open>Launching\<close>), at \<^verbatim>\<open>await this.sleep(2000)\<close> after the key \<open>i\<close> (\<open>Staggering\<close>), or done.
  \<open>loop\<close> is the manager together with these. Each operation below is the code between
  two suspension points; \<open>loop_event\<close> lists what the event loop can run next,
  \<open>loop_enabled\<close> says when, and \<open>loop_apply\<close> runs it. The callbacks of theory \<open>System\<close>
  that contain no \<^verbatim>\<open>await\<close> are taken over as they are (\<open>Sync\<close>). The answer of a probe is
  carried by the event that delivers it; a gate or a pass that is resumed is taken out
  of the list of suspended calls and, when it suspends again, put back at its end.

  A \<^verbatim>\<open>TypeError\<close> in a gate that \<^verbatim>\<open>start()\<close> awaits rejects \<^verbatim>\<open>start()\<close>, and the entry point
  exits with status 1; in a gate that a restart timer started nobody awaits the
  rejection. Theory \<open>Interleaving\<close> shows that neither occurs, and what else holds in every
  reachable state; theory \<open>Schedules\<close> relates this system to the one of theory \<open>System\<close>.
\<close>

section \<open>Suspended calls\<close>

datatype awaiting = Answer | Timer millis

record gate =
  g_instanceId :: string
  g_port :: jsnum
  g_startTime :: millis
  g_maxWait :: millis
  g_awaiting :: awaiting
  g_caller :: "nat option"

record pass =
  p_index :: nat
  p_instanceId :: string
  p_instance :: ref
  p_wasHealthy :: bool

datatype booting = Launching | Staggering nat millis | Booted

record loop =
  mgr :: manager
  gates :: "gate list"
  passes :: "pass list"
  boot :: booting

section \<open>The code between two suspension points\<close>

definition finish_start :: "loop \<Rightarrow> loop" where
  "finish_start l =
     l\<lparr>mgr := startLoadBalancer (setupSignalHandlers (startHealthCheck (mgr l))), boot := Booted\<rparr>"

definition resume_start :: "config \<Rightarrow> wait_result \<Rightarrow> nat \<Rightarrow> loop \<Rightarrow> loop" where
  "resume_start cfg res i l =
     (case res of
        TypeError \<Rightarrow> l\<lparr>mgr := process_exit 1 (mgr l)\<rparr>
      | Returned b \<Rightarrow>
          if KEYS cfg \<noteq> [] then l\<lparr>boot := Staggering i (now (mgr l) + STAGGER)\<rparr>
          else finish_start l)"

definition gate_done :: "config \<Rightarrow> gate \<Rightarrow> wait_result \<Rightarrow> loop \<Rightarrow> loop" where
  "gate_done cfg g res l = (case g_caller g of None \<Rightarrow> l | Some i \<Rightarrow> resume_start cfg res i l)"

definition gate_head :: "config \<Rightarrow> gate \<Rightarrow> loop \<Rightarrow> loop" where
  "gate_head cfg g l =
     (if int (now (mgr l)) - int (g_startTime g) < int (g_maxWait g)
      then l\<lparr>gates := gates l @ [g\<lparr>g_awaiting := Answer\<rparr>]\<rparr>
      else gate_done cfg g (Returned False) l)"

definition gate_answer :: "config \<Rightarrow> gate \<Rightarrow> probe_outcome \<Rightarrow> loop \<Rightarrow> loop" where
  "gate_answer cfg g out l =
     (let l1 = l\<lparr>gates := remove1 g (gates l)\<rparr> in
      if checkInstanceHealth out then
        (case mark_ready (g_instanceId g) (mgr l1) of
           None \<Rightarrow> gate_done cfg g TypeError l1
         | Some m \<Rightarrow> gate_done cfg g (Returned True) (l1\<lparr>mgr := m\<rparr>))
      else l1\<lparr>gates := gates l1 @ [g\<lparr>g_awaiting := Timer (now (mgr l1) + 1000)\<rparr>]\<rparr>)"

definition gate_wake :: "config \<Rightarrow> gate \<Rightarrow> loop \<Rightarrow> loop" where
  "gate_wake cfg g l = gate_head cfg g (l\<lparr>gates := remove1 g (gates l)\<rparr>)"

definition enter_gate :: "string \<Rightarrow> jsnum \<Rightarrow> millis \<Rightarrow> nat option \<Rightarrow> gate" where
  "enter_gate instanceId' port' t caller =
     \<lparr>g_instanceId = instanceId', g_port = port', g_startTime = t, g_maxWait = READY_TIMEOUT,
      g_awaiting = Answer, g_caller = caller\<rparr>"

definition launch ::
  "config \<Rightarrow> bool \<Rightarrow> string \<Rightarrow> string option \<Rightarrow> jsnum \<Rightarrow> nat option \<Rightarrow> loop \<Rightarrow> loop" where
  "launch cfg spawned instanceId' key' port' caller l =
     (let m = snd (spawn_instance cfg spawned instanceId' key' port' (mgr l))
      in gate_head cfg (enter_gate instanceId' port' (now m) caller) (l\<lparr>mgr := m\<rparr>))"

definition restart_fires :: "config \<Rightarrow> bool \<Rightarrow> millis \<times> ref \<Rightarrow> loop \<Rightarrow> loop" where
  "restart_fires cfg spawned e l =
     (let m = (mgr l)\<lparr>timers := remove1 e (timers (mgr l))\<rparr>; r = snd e in
      if \<not> isShuttingDown m then
        (let m1 = update_inst r bump_restartCount m;
             instance = deref m1 r
         in launch cfg spawned (instanceId instance) (key instance) (port instance) None
              (l\<lparr>mgr := m1\<rparr>))
      else l\<lparr>mgr := m\<rparr>)"

definition pass_next :: "nat \<Rightarrow> loop \<Rightarrow> loop" where
  "pass_next idx l =
     (if idx < length (instances (mgr l)) then
        (let e = instances (mgr l) ! idx in
         l\<lparr>passes := passes l @
              [\<lparr>p_index = idx, p_instanceId = fst e, p_instance = snd e,
                p_wasHealthy = healthy (deref (mgr l) (snd e))\<rparr>]\<rparr>)
      else l)"

definition tick_fires :: "loop \<Rightarrow> loop" where
  "tick_fires l = pass_next 0 l"

definition pass_answer :: "pass \<Rightarrow> probe_outcome \<Rightarrow> loop \<Rightarrow> loop" where
  "pass_answer p out l =
     (let l1 = l\<lparr>passes := remove1 p (passes l)\<rparr>;
          m = mgr l1;
          m1 = update_inst (p_instance p) (record_probe (checkInstanceHealth out) (now m)) m;
          m2 = m1\<lparr>console := console m1 @
                 transition_log (p_instanceId p) (p_wasHealthy p)
                   (healthy (deref m1 (p_instance p)))\<rparr>
      in pass_next (Suc (p_index p)) (l1\<lparr>mgr := m2\<rparr>))"

definition boot_begin :: "config \<Rightarrow> bool \<Rightarrow> millis \<Rightarrow> loop" where
  "boot_begin cfg spawned t =
     (let l = \<lparr>mgr = new_manager t, gates = [], passes = [], boot = Launching\<rparr> in
      if PROVIDERS cfg = [] \<and> DIRECT_ENDPOINTS cfg = [] then l\<lparr>mgr := process_exit 1 (mgr l)\<rparr>
      else if PROVIDERS cfg \<noteq> [] \<and> KEYS cfg = [] then l\<lparr>mgr := process_exit 1 (mgr l)\<rparr>
      else if KEYS cfg \<noteq> []
      then launch cfg spawned (instance_name 0) (Some (KEYS cfg ! 0)) (instance_port cfg 0)
             (Some 0) l
      else launch cfg spawned ''router-0'' None (base_port cfg) (Some 0) l)"

definition boot_wake :: "config \<Rightarrow> bool \<Rightarrow> loop \<Rightarrow> loop" where
  "boot_wake cfg spawned l =
     (case boot l of
        Staggering i due \<Rightarrow>
          if Suc i < length (KEYS cfg)
          then launch cfg spawned (instance_name (Suc i)) (Some (KEYS cfg ! Suc i))
                 (instance_port cfg (Suc i)) (Some (Suc i)) (l\<lparr>boot := Launching\<rparr>)
          else finish_start l
      | Launching \<Rightarrow> l
      | Booted \<Rightarrow> l)"

lemmas loop_defs [op_defs] =
  finish_start_def resume_start_def gate_done_def gate_head_def gate_answer_def gate_wake_def
  enter_gate_def launch_def restart_fires_def pass_next_def tick_fires_def pass_answer_def boot_begin_def
  boot_wake_def

section \<open>Events and steps\<close>

datatype loop_event =
    Sync event
  | RestartFires "millis \<times> ref" bool
  | GateAnswer gate probe_outcome
  | GateWake gate
  | TickFires
  | PassAnswer pass probe_outcome
  | BootWake bool

fun atomic :: "event \<Rightarrow> bool" where
  "atomic (HealthTick net) \<longleftrightarrow> False"
| "atomic (TimerFires e spawned net) \<longleftrightarrow> False"
| "atomic ev \<longleftrightarrow> True"

fun loop_apply :: "config \<Rightarrow> loop_event \<Rightarrow> loop \<Rightarrow> loop" where
  "loop_apply cfg (Sync ev) l = l\<lparr>mgr := apply_event cfg ev (mgr l)\<rparr>"
| "loop_apply cfg (RestartFires e spawned) l = restart_fires cfg spawned e l"
| "loop_apply cfg (GateAnswer g out) l = gate_answer cfg g out l"
| "loop_apply cfg (GateWake g) l = gate_wake cfg g l"
| "loop_apply cfg TickFires l = tick_fires l"
| "loop_apply cfg (PassAnswer p out) l = pass_answer p out l"
| "loop_apply cfg (BootWake spawned) l = boot_wake cfg spawned l"

fun loop_enabled :: "loop_event \<Rightarrow> loop \<Rightarrow> bool" where
  "loop_enabled (Sync ev) l \<longleftrightarrow> atomic ev \<and> enabled ev (mgr l)"
| "loop_enabled (RestartFires e spawned) l \<longleftrightarrow>
     e \<in> set (timers (mgr l)) \<and> fst e \<le> now (mgr l)"
| "loop_enabled (GateAnswer g out) l \<longleftrightarrow> g \<in> set (gates l) \<and> g_awaiting g = Answer"
| "loop_enabled (GateWake g) l \<longleftrightarrow>
     g \<in> set (gates l) \<and> (case g_awaiting g of Timer due \<Rightarrow> due \<le> now (mgr l) | Answer \<Rightarrow> False)"
| "loop_enabled TickFires l \<longleftrightarrow> healthCheckInterval (mgr l) = Some True"
| "loop_enabled (PassAnswer p out) l \<longleftrightarrow> p \<in> set (passes l)"
| "loop_enabled (BootWake spawned) l \<longleftrightarrow>
     (case boot l of Staggering i due \<Rightarrow> due \<le> now (mgr l) | Launching \<Rightarrow> False
      | Booted \<Rightarrow> False)"

inductive loop_step :: "config \<Rightarrow> loop \<Rightarrow> loop_event \<Rightarrow> loop \<Rightarrow> bool" for cfg where
  loop_stepI:
    "exitCode (mgr l) = None \<Longrightarrow> loop_enabled ev l \<Longrightarrow> loop_step cfg l ev (loop_apply cfg ev l)"

inductive loop_reachable :: "config \<Rightarrow> loop \<Rightarrow> loop \<Rightarrow> bool" for cfg l0 where
  loop_init: "loop_reachable cfg l0 l0"
| loop_after: "loop_reachable cfg l0 l \<Longrightarrow> loop_step cfg l ev l' \<Longrightarrow> loop_reachable cfg l0 l'"

fun loop_run :: "config \<Rightarrow> loop_event list \<Rightarrow> loop \<Rightarrow> loop option" where
  "loop_run cfg [] l = Some l"
| "loop_run cfg (ev # evs) l =
     (if exitCode (mgr l) = None \<and> loop_enabled ev l then loop_run cfg evs (loop_apply cfg ev l)
      else None)"

inductive_cases loop_stepE: "loop_step cfg l ev l'"

inductive_simps loop_step_iff: "loop_step cfg l ev l'"

section \<open>Runs and reachability\<close>

lemma loop_run_append:
  "loop_run cfg (evs @ evs') l =
     (case loop_run cfg evs l of None \<Rightarrow> None | Some l' \<Rightarrow> loop_run cfg evs' l')"
  by (induction evs arbitrary: l) simp_all

lemma loop_run_reachable:
  "loop_run cfg evs l = Some l' \<Longrightarrow> loop_reachable cfg l l'"
proof (induction evs arbitrary: l' rule: rev_induct)
  case Nil
  then show ?case by (simp add: loop_init)
next
  case (snoc ev evs)
  then obtain l1 where l1: "loop_run cfg evs l = Some l1" and "loop_run cfg [ev] l1 = Some l'"
    by (auto simp: loop_run_append split: option.splits)
  then have "loop_step cfg l1 ev l'"
    by (auto simp: loop_step_iff split: if_splits)
  with snoc.IH [OF l1] show ?case by (rule loop_after)
qed

lemma loop_reachable_trans:
  assumes "loop_reachable cfg l1 l2" and "loop_reachable cfg l0 l1"
  shows "loop_reachable cfg l0 l2"
  using assms by induction (auto intro: loop_after)

end
