(* ===== verification/Interleaving.thy ===== *)
theory Interleaving
  imports EventLoop
begin

text \<open>
  What holds under every interleaving. \<open>loop_inv\<close> is the invariant of the event loop of
  theory \<open>EventLoop\<close>: the invariant of theory \<open>System\<close>, that the id of every suspended
  readiness gate is registered, that every suspended pass holds an allocated object, and
  how far \<^verbatim>\<open>start()\<close> has come (\<open>boot_ok\<close>). Every operation keeps it; it therefore holds in
  every state reachable from the first line of \<^verbatim>\<open>start()\<close> (\<open>loop_inv_booted\<close>), for every
  configuration and whatever the workers and the probes do.

  The proofs rest on two observations. The resumptions of gates and passes change the
  manager only calmly (\<open>calm\<close>: registry, timers, children, ids and restart counts stay),
  and calm changes keep the invariant of theory \<open>System\<close>. And a launch registers an
  object either under a new id, during \<^verbatim>\<open>start()\<close>, or in place of one whose child has
  exited, in a restart.
\<close>

section \<open>Steps that leave the registry alone\<close>

text \<open>
  \<open>calm m m'\<close>: from \<open>m\<close> to \<open>m'\<close> the registry, the timers, the shutdown flag, the cursor and,
  of every object, the child, the id and the restart count are unchanged. Health flags,
  the clock, the console, the exit status and the three flags of \<^verbatim>\<open>start()\<close> may differ.
  Calm changes keep the store well formed and keep the invariant of theory \<open>System\<close>.
\<close>

definition calm :: "manager \<Rightarrow> manager \<Rightarrow> bool" where
  "calm m m' \<longleftrightarrow>
     quiet m m' \<and> currentActiveInstance m' = currentActiveInstance m \<and>
     (\<forall>r. instanceId (deref m' r) = instanceId (deref m r))"

lemma calmI:
  assumes "instances m' = instances m" and "timers m' = timers m"
    and "length (heap m') = length (heap m)" and "isShuttingDown m' = isShuttingDown m"
    and "currentActiveInstance m' = currentActiveInstance m"
    and "\<And>r. process (deref m' r) = process (deref m r)"
    and "\<And>r. restartCount (deref m' r) = restartCount (deref m r)"
    and "\<And>r. instanceId (deref m' r) = instanceId (deref m r)"
  shows "calm m m'"
  using assms by (simp add: calm_def quiet_def)

lemma calmD:
  assumes "calm m m'"
  shows "instances m' = instances m" and "timers m' = timers m"
    and "length (heap m') = length (heap m)" and "isShuttingDown m' = isShuttingDown m"
    and "currentActiveInstance m' = currentActiveInstance m"
    and "process (deref m' r) = process (deref m r)"
    and "restartCount (deref m' r) = restartCount (deref m r)"
    and "instanceId (deref m' r) = instanceId (deref m r)"
    and "value_refs m' = value_refs m" and "map_get m' k = map_get m k"
  using assms by (simp_all add: calm_def quiet_def value_refs_def map_get_def)

lemma calm_refl [simp]: "calm m m"
  by (rule calmI) simp_all

lemma calm_sym: "calm m m' \<Longrightarrow> calm m' m"
  by (rule calmI) (simp_all add: calmD)

lemma calm_trans: "calm m m' \<Longrightarrow> calm m' m'' \<Longrightarrow> calm m m''"
  by (rule calmI) (simp_all add: calmD)

lemma calm_wf: "wf m \<Longrightarrow> calm m m' \<Longrightarrow> wf m'"
  unfolding wf_def using calmD [of m m'] by (simp add: deref_def split: option.splits)

lemma calm_sys_inv: "sys_inv m \<Longrightarrow> calm m m' \<Longrightarrow> sys_inv m'"
  by (rule sys_inv_quiet) (auto simp: calm_def intro: calm_wf dest: sys_invD(1))

lemma calm_fields [simp]:
  "calm m (m\<lparr>now := t\<rparr>)" "calm m (m\<lparr>console := c\<rparr>)" "calm m (m\<lparr>exitCode := x\<rparr>)"
  "calm m (m\<lparr>handlers := b\<rparr>)" "calm m (m\<lparr>listening := b\<rparr>)"
  "calm m (m\<lparr>healthCheckInterval := h\<rparr>)"
  by (rule calmI; simp)+

lemma calm_update_inst:
  assumes "\<And>i. process (f i) = process i" and "\<And>i. restartCount (f i) = restartCount i"
    and "\<And>i. instanceId (f i) = instanceId i"
  shows "calm m (update_inst r f m)"
  by (rule calmI) (simp_all add: deref_update_inst assms)

lemma calm_mark_ready: "mark_ready i m = Some m' \<Longrightarrow> calm m m'"
  by (auto simp: mark_ready_def split: option.splits intro!: calm_update_inst)

lemma calm_waitForInstanceReady:
  assumes "map_get m i = Some r" and "r < length (heap m)"
  shows "calm m (snd (waitForInstanceReady net i mw m))"
  by (rule calmI) (simp_all add: deref_wait_ready [OF assms])

section \<open>What each operation does to the manager\<close>

lemma calm_finish_start [simp]: "calm (mgr l) (mgr (finish_start l))"
  by (rule calmI) (simp_all add: finish_start_def startLoadBalancer_def setupSignalHandlers_def
      startHealthCheck_def)

lemma calm_resume_start [simp]: "calm (mgr l) (mgr (resume_start cfg res i l))"
  by (cases res) (simp_all add: resume_start_def process_exit_def)

lemma calm_gate_done [simp]: "calm (mgr l) (mgr (gate_done cfg g res l))"
  by (simp add: gate_done_def split: option.splits)

lemma calm_gate_head [simp]: "calm (mgr l) (mgr (gate_head cfg g l))"
  by (simp add: gate_head_def)

lemma calm_gate_wake [simp]: "calm (mgr l) (mgr (gate_wake cfg g l))"
  using calm_gate_head [of "l\<lparr>gates := remove1 g (gates l)\<rparr>" cfg g] by (simp add: gate_wake_def)

lemma calm_gate_answer [simp]: "calm (mgr l) (mgr (gate_answer cfg g out l))"
proof (cases "mark_ready (g_instanceId g) (mgr l)")
  case None
  then show ?thesis
    using calm_gate_done [of "l\<lparr>gates := remove1 g (gates l)\<rparr>" cfg g TypeError]
    by (simp add: gate_answer_def Let_def del: mark_ready_None)
next
  case (Some m)
  then have "calm (mgr l) m" by (rule calm_mark_ready)
  with Some show ?thesis
    using calm_gate_done [of "l\<lparr>gates := remove1 g (gates l), mgr := m\<rparr>" cfg g "Returned True"]
    by (auto simp: gate_answer_def Let_def intro: calm_trans)
qed

lemma mgr_pass_next [simp]: "mgr (pass_next idx l) = mgr l"
  by (simp add: pass_next_def Let_def)

lemma calm_pass_answer [simp]: "calm (mgr l) (mgr (pass_answer p out l))"
  by (rule calmI) (simp_all add: pass_answer_def Let_def deref_update_inst)

lemma mgr_launch:
  "calm (snd (spawn_instance cfg spawned i k p (mgr l))) (mgr (launch cfg spawned i k p c l))"
  using calm_gate_head [of "l\<lparr>mgr := snd (spawn_instance cfg spawned i k p (mgr l))\<rparr>" cfg]
  by (simp add: launch_def Let_def)

section \<open>Launching keeps the invariant of the running system\<close>

lemma spawn_fresh_shape:
  assumes "map_get m i = None"
  shows "instances (snd (spawn_instance cfg spawned i k p m)) = instances m @ [(i, length (heap m))]"
    and "value_refs (snd (spawn_instance cfg spawned i k p m)) = value_refs m @ [length (heap m)]"
    and "heap (snd (spawn_instance cfg spawned i k p m)) =
           heap m @ [new_instance i k p (new_child (build_args cfg k p) spawned) (now m)]"
proof -
  from assms have "i \<notin> fst ` set (instances m)"
    by (simp add: map_get_def map_of_eq_None_iff)
  then show "instances (snd (spawn_instance cfg spawned i k p m)) =
      instances m @ [(i, length (heap m))]"
    by (simp add: spawn_instance_eq update_absent_append)
  then show "value_refs (snd (spawn_instance cfg spawned i k p m)) =
      value_refs m @ [length (heap m)]"
    by (simp add: value_refs_def)
  show "heap (snd (spawn_instance cfg spawned i k p m)) =
      heap m @ [new_instance i k p (new_child (build_args cfg k p) spawned) (now m)]"
    by (simp add: spawn_instance_eq)
qed

lemma spawn_instance_frame [simp, frame]:
  "timers (snd (spawn_instance cfg spawned i k p m)) = timers m"
  "isShuttingDown (snd (spawn_instance cfg spawned i k p m)) = isShuttingDown m"
  "handlers (snd (spawn_instance cfg spawned i k p m)) = handlers m"
  "listening (snd (spawn_instance cfg spawned i k p m)) = listening m"
  "healthCheckInterval (snd (spawn_instance cfg spawned i k p m)) = healthCheckInterval m"
  "exitCode (snd (spawn_instance cfg spawned i k p m)) = exitCode m"
  "now (snd (spawn_instance cfg spawned i k p m)) = now m"
  "length (heap (snd (spawn_instance cfg spawned i k p m))) = Suc (length (heap m))"
  "wf m \<Longrightarrow> wf (snd (spawn_instance cfg spawned i k p m))"
  "map_get (snd (spawn_instance cfg spawned i k p m)) i = Some (length (heap m))"
  by (simp_all add: spawn_instance_eq map_get_register)

lemma sys_inv_spawn_fresh:
  assumes inv: "sys_inv m" and shut: "\<not> isShuttingDown m" and fresh: "map_get m i = None"
  shows "sys_inv (snd (spawn_instance cfg spawned i k p m))"
proof (rule sys_invI)
  let ?m' = "snd (spawn_instance cfg spawned i k p m)"
  let ?n = "length (heap m)"
  note D = sys_invD [OF inv]
  note S = spawn_fresh_shape [OF fresh, of cfg spawned k p]
  have old: "deref ?m' q = deref m q" if "q < ?n" for q
    using that by (simp add: deref_def S(3))
  have new: "deref ?m' ?n = new_instance i k p (new_child (build_args cfg k p) spawned) (now m)"
    by (simp add: deref_def S(3))
  have lt: "q < ?n" if "(t, q) \<in> set (timers m)" for t q
    using D(1) that by (rule wfD_timer)
  show "wf ?m'" using D(1) by simp
  show "distinct (map snd (timers ?m'))" using D(5) by simp
  show "\<not> running (process (deref ?m' q))" if "q < length (heap ?m')" "q \<notin> set (value_refs ?m')" for q
    using that D(2) [of q] by (auto simp: S(2) old less_Suc_eq)
  show "(t, q) \<notin> set (timers ?m')" if "q < length (heap ?m')" "q \<notin> set (value_refs ?m')" for q t
    using that D(3) [of q t] by (auto simp: S(2) less_Suc_eq)
  show "\<not> running (process (deref ?m' q))" if "(t, q) \<in> set (timers ?m')" for t q
    using that D(4) [of t q] lt [of t q] by (simp add: old)
  show "restartCount (deref ?m' q) = 0" if "q \<in> set (value_refs ?m')" for q
    using that D(6) [of q] value_refs_valid [OF D(1), of q] by (auto simp: S(2) old new)
  show "settled (deref ?m' q)" if "isShuttingDown ?m'" for q
    using that shut by simp
  show "SIGKILL \<notin> set (received (process (deref ?m' q)))" if "q < length (heap ?m')" for q
    using that D(8) [of q] by (auto simp: less_Suc_eq old new)
qed

text \<open>
  The restart timer at this grain is the first part of the one-step restart of theory
  \<open>Supervisor\<close>: that step is this one followed by the readiness gate.
\<close>

lemma mgr_restart_fires:
  "mgr (restart_fires cfg spawned e l) =
     (let m = (mgr l)\<lparr>timers := remove1 e (timers (mgr l))\<rparr> in
      if isShuttingDown m then m
      else snd (spawn_instance cfg spawned (instanceId (deref m (snd e))) (key (deref m (snd e)))
                  (port (deref m (snd e))) (update_inst (snd e) bump_restartCount m)))"
  by (simp add: restart_fires_def launch_def gate_head_def gate_done_def Let_def READY_TIMEOUT_def
      enter_gate_def deref_update_inst)

lemma fire_timer_after_restart_fires:
  assumes "wf (mgr l)" and "e \<in> set (timers (mgr l))"
  shows "fire_timer cfg spawned net e (mgr l) = mgr (restart_fires cfg spawned e l) \<or>
         (\<exists>i. fire_timer cfg spawned net e (mgr l) =
                snd (waitForInstanceReady net i READY_TIMEOUT (mgr (restart_fires cfg spawned e l))) \<and>
              map_get (mgr (restart_fires cfg spawned e l)) i = Some (length (heap (mgr l))))"
proof (cases "isShuttingDown (mgr l)")
  case True
  then show ?thesis by (simp add: fire_timer_def mgr_restart_fires)
next
  case False
  from assms have r: "snd e < length (heap (mgr l))" by (cases e) (auto dest: wfD_timer)
  let ?m = "(mgr l)\<lparr>timers := remove1 e (timers (mgr l))\<rparr>"
  from False r have "fire_timer cfg spawned net e (mgr l) =
      snd (waitForInstanceReady net (instanceId (deref ?m (snd e))) READY_TIMEOUT
             (mgr (restart_fires cfg spawned e l)))"
    by (simp add: fire_timer_def on_restart_timer_eq startInstance_eq mgr_restart_fires)
  moreover have "map_get (mgr (restart_fires cfg spawned e l)) (instanceId (deref ?m (snd e))) =
      Some (length (heap (mgr l)))"
    using False r by (simp add: mgr_restart_fires deref_update_inst)
  ultimately show ?thesis by blast
qed

lemma sys_inv_restart_fires:
  assumes inv: "sys_inv (mgr l)" and e: "e \<in> set (timers (mgr l))"
  shows "sys_inv (mgr (restart_fires cfg spawned e l))"
proof -
  let ?m' = "mgr (restart_fires cfg spawned e l)"
  let ?net = "\<lambda>k::nat. (RequestError, 0::nat)"
  have big: "sys_inv (fire_timer cfg spawned ?net e (mgr l))"
    using inv e by (rule sys_inv_fire_timer)
  from fire_timer_after_restart_fires [OF sys_invD(1) [OF inv] e, of cfg spawned ?net]
  show ?thesis
  proof
    assume "fire_timer cfg spawned ?net e (mgr l) = ?m'"
    with big show ?thesis by simp
  next
    assume "\<exists>i. fire_timer cfg spawned ?net e (mgr l) =
        snd (waitForInstanceReady ?net i READY_TIMEOUT ?m') \<and>
        map_get ?m' i = Some (length (heap (mgr l)))"
    then obtain i where f: "fire_timer cfg spawned ?net e (mgr l) =
        snd (waitForInstanceReady ?net i READY_TIMEOUT ?m')"
      and g: "map_get ?m' i = Some (length (heap (mgr l)))" by blast
    have "length (heap (mgr l)) < length (heap ?m')"
      using g by (auto simp: mgr_restart_fires Let_def map_get_def split: if_splits
          dest!: map_of_SomeD wfD_ref [OF sys_invD(1) [OF inv]])
    with g have "calm ?m' (snd (waitForInstanceReady ?net i READY_TIMEOUT ?m'))"
      by (rule calm_waitForInstanceReady)
    then have "calm (fire_timer cfg spawned ?net e (mgr l)) ?m'"
      unfolding f by (rule calm_sym)
    with big show ?thesis by (rule calm_sys_inv)
  qed
qed

section \<open>The invariant of the event loop\<close>

text \<open>
  \<open>caller_gates\<close> are the readiness gates that \<^verbatim>\<open>start()\<close> awaits, \<open>quiet_boot\<close> says that
  nothing of what \<^verbatim>\<open>start()\<close> sets up at its end is there yet, and \<open>boot_ok\<close> relates the
  position of \<^verbatim>\<open>start()\<close> to the registry: the ids are \<^verbatim>\<open>router-0\<close>, \<^verbatim>\<open>router-1\<close>, ... in
  this order; while \<^verbatim>\<open>start()\<close> awaits a launch, exactly one gate has a caller, and it is
  the gate of the instance registered last; between two launches and after the last no
  gate has a caller. \<open>loop_inv\<close> adds the invariant of theory \<open>System\<close>, that the id of
  every suspended gate is registered, and that every suspended pass holds an allocated
  object.
\<close>

definition caller_gates :: "loop \<Rightarrow> gate list" where
  "caller_gates l = filter (\<lambda>g. g_caller g \<noteq> None) (gates l)"

definition quiet_boot :: "loop \<Rightarrow> bool" where
  "quiet_boot l \<longleftrightarrow>
     \<not> handlers (mgr l) \<and> \<not> listening (mgr l) \<and> healthCheckInterval (mgr l) = None \<and>
     \<not> isShuttingDown (mgr l) \<and> passes l = []"

definition boot_ok :: "config \<Rightarrow> loop \<Rightarrow> bool" where
  "boot_ok cfg l \<longleftrightarrow>
     map fst (instances (mgr l)) = map instance_name [0..<length (instances (mgr l))] \<and>
     length (instances (mgr l)) \<le> instance_count cfg \<and>
     (case boot l of
        Launching \<Rightarrow>
          quiet_boot l \<and>
          (exitCode (mgr l) = None \<longrightarrow>
             map g_caller (caller_gates l) = [Some (length (instances (mgr l)) - 1)] \<and>
             instances (mgr l) \<noteq> [])
      | Staggering i due \<Rightarrow>
          quiet_boot l \<and> caller_gates l = [] \<and> Suc i = length (instances (mgr l)) \<and>
          KEYS cfg \<noteq> []
      | Booted \<Rightarrow> caller_gates l = [] \<and> length (instances (mgr l)) = instance_count cfg)"

definition loop_inv :: "config \<Rightarrow> loop \<Rightarrow> bool" where
  "loop_inv cfg l \<longleftrightarrow>
     sys_inv (mgr l) \<and>
     list_all (\<lambda>g. map_get (mgr l) (g_instanceId g) \<noteq> None) (gates l) \<and>
     list_all (\<lambda>p. p_instance p < length (heap (mgr l))) (passes l) \<and>
     boot_ok cfg l"

lemma loop_invD:
  assumes "loop_inv cfg l"
  shows "sys_inv (mgr l)" and "wf (mgr l)"
    and "g \<in> set (gates l) \<Longrightarrow> map_get (mgr l) (g_instanceId g) \<noteq> None"
    and "p \<in> set (passes l) \<Longrightarrow> p_instance p < length (heap (mgr l))"
    and "boot_ok cfg l"
  using assms by (auto simp: loop_inv_def list_all_iff dest: sys_invD(1))

lemma loop_invI:
  assumes "sys_inv (mgr l)"
    and "\<And>g. g \<in> set (gates l) \<Longrightarrow> map_get (mgr l) (g_instanceId g) \<noteq> None"
    and "\<And>p. p \<in> set (passes l) \<Longrightarrow> p_instance p < length (heap (mgr l))"
    and "boot_ok cfg l"
  shows "loop_inv cfg l"
  using assms by (simp add: loop_inv_def list_all_iff)

lemma caller_gates_simps [simp]:
  "caller_gates (l\<lparr>mgr := m\<rparr>) = caller_gates l"
  "caller_gates (l\<lparr>passes := ps\<rparr>) = caller_gates l"
  "caller_gates (l\<lparr>boot := b\<rparr>) = caller_gates l"
  "caller_gates (l\<lparr>gates := gs @ [g]\<rparr>) =
     filter (\<lambda>g. g_caller g \<noteq> None) gs @ (if g_caller g \<noteq> None then [g] else [])"
  "caller_gates (l\<lparr>gates := remove1 g (gates l)\<rparr>) = remove1 g (caller_gates l)"
  by (simp_all add: caller_gates_def filter_remove1)

lemma quiet_boot_simps [simp]:
  "quiet_boot (l\<lparr>gates := gs\<rparr>) = quiet_boot l"
  "quiet_boot (l\<lparr>boot := b\<rparr>) = quiet_boot l"
  by (simp_all add: quiet_boot_def)

text \<open>
  \<open>still m m'\<close>: a calm change that also leaves the flags of \<^verbatim>\<open>start()\<close> and the exit status
  as they are.
\<close>

definition still :: "manager \<Rightarrow> manager \<Rightarrow> bool" where
  "still m m' \<longleftrightarrow>
     calm m m' \<and> handlers m' = handlers m \<and> listening m' = listening m \<and>
     healthCheckInterval m' = healthCheckInterval m \<and> exitCode m' = exitCode m"

lemma still_refl [simp]: "still m m"
  by (simp add: still_def)

lemma still_mark_ready: "mark_ready i m = Some m' \<Longrightarrow> still m m'"
  by (auto simp: still_def calm_mark_ready) (auto simp: mark_ready_def split: option.splits)

lemma loop_inv_still:
  assumes "loop_inv cfg l" and "still (mgr l) m"
  shows "loop_inv cfg (l\<lparr>mgr := m\<rparr>)"
proof -
  from assms(2) have c: "calm (mgr l) m" by (simp add: still_def)
  note C = calmD [OF c]
  from assms have "boot_ok cfg (l\<lparr>mgr := m\<rparr>)"
    by (auto simp: boot_ok_def quiet_boot_def still_def C(1,4) dest!: loop_invD(5)
        split: booting.splits)
  with assms(1) c show ?thesis
    by (intro loop_invI) (auto simp: C(3,10) dest: loop_invD intro: calm_sys_inv)
qed

section \<open>The readiness gate keeps the invariant\<close>

lemma boot_ok_callers:
  assumes "boot_ok cfg l" and "exitCode (mgr l) = None"
  shows "length (caller_gates l) \<le> 1"
proof (cases "boot l")
  case Launching
  with assms have "length (map g_caller (caller_gates l)) = 1"
    by (simp add: boot_ok_def)
  then show ?thesis by simp
qed (use assms in \<open>simp_all add: boot_ok_def\<close>)

lemma awaited_gate:
  assumes "boot_ok cfg l" and "exitCode (mgr l) = None"
    and "g \<in> set (gates l)" and "g_caller g = Some i"
  shows "boot l = Launching" and "caller_gates l = [g]" and "Suc i = length (instances (mgr l))"
proof -
  from assms(3,4) have m: "g \<in> set (caller_gates l)" by (simp add: caller_gates_def)
  with assms(1) show b: "boot l = Launching"
    by (cases "boot l") (auto simp: boot_ok_def)
  with assms(1,2) have c: "map g_caller (caller_gates l) = [Some (length (instances (mgr l)) - 1)]"
    and n: "instances (mgr l) \<noteq> []" by (simp_all add: boot_ok_def)
  from c obtain g' where g': "caller_gates l = [g']" by auto
  with m show "caller_gates l = [g]" by simp
  with c assms(4) n show "Suc i = length (instances (mgr l))" by simp
qed

lemma caller_gates_requeue:
  assumes "g \<in> set (gates l)" and "g_caller g' = g_caller g" and "length (caller_gates l) \<le> 1"
  shows "map g_caller (caller_gates (l\<lparr>gates := remove1 g (gates l) @ [g']\<rparr>)) =
         map g_caller (caller_gates l)"
proof (cases "g_caller g")
  case None
  then have "g \<notin> set (caller_gates l)" by (simp add: caller_gates_def)
  then have "remove1 g (caller_gates l) = caller_gates l" by (rule remove1_idem)
  with None assms(2) show ?thesis by (simp add: caller_gates_def filter_remove1)
next
  case (Some i)
  with assms(1) have "g \<in> set (caller_gates l)" by (simp add: caller_gates_def)
  with assms(3) have "caller_gates l = [g]"
    by (cases "caller_gates l") auto
  with Some assms(2) show ?thesis by (simp add: caller_gates_def filter_remove1)
qed

lemma loop_inv_requeue:
  assumes inv: "loop_inv cfg l" and g: "g \<in> set (gates l)" and exit: "exitCode (mgr l) = None"
    and c: "g_caller g' = g_caller g" and i: "g_instanceId g' = g_instanceId g"
  shows "loop_inv cfg (l\<lparr>gates := remove1 g (gates l) @ [g']\<rparr>)"
proof (rule loop_invI)
  let ?l' = "l\<lparr>gates := remove1 g (gates l) @ [g']\<rparr>"
  note D = loop_invD [OF inv]
  show "sys_inv (mgr ?l')" using D(1) by simp
  show "map_get (mgr ?l') (g_instanceId h) \<noteq> None" if "h \<in> set (gates ?l')" for h
    using that D(3) [of h] D(3) [OF g] i by (auto dest: notin_set_remove1)
  show "p_instance p < length (heap (mgr ?l'))" if "p \<in> set (passes ?l')" for p
    using that D(4) [of p] by simp
  have q: "map g_caller (caller_gates ?l') = map g_caller (caller_gates l)"
    using g c boot_ok_callers [OF D(5) exit] by (rule caller_gates_requeue)
  then have "caller_gates ?l' = [] \<longleftrightarrow> caller_gates l = []"
    by (metis map_is_Nil_conv)
  with D(5) q show "boot_ok cfg ?l'"
    by (simp add: boot_ok_def split: booting.splits)
qed

lemma loop_inv_gate_done:
  assumes inv: "loop_inv cfg l" and g: "g \<in> set (gates l)" and exit: "exitCode (mgr l) = None"
    and st: "still (mgr l) m"
  shows "loop_inv cfg (gate_done cfg g res (l\<lparr>gates := remove1 g (gates l), mgr := m\<rparr>))"
proof -
  let ?l0 = "l\<lparr>mgr := m\<rparr>"
  let ?l1 = "l\<lparr>gates := remove1 g (gates l), mgr := m\<rparr>"
  from inv st have inv0: "loop_inv cfg ?l0" by (rule loop_inv_still)
  note D = loop_invD [OF inv0]
  from st exit have exit0: "exitCode m = None" by (simp add: still_def)
  have sub: "h \<in> set (gates l)" if "h \<in> set (remove1 g (gates l))" for h
    using that set_remove1_subset [of g "gates l"] by auto
  show ?thesis
  proof (cases "g_caller g")
    case None
    then have "g \<notin> set (caller_gates l)" by (simp add: caller_gates_def)
    then have "remove1 g (caller_gates l) = caller_gates l" by (rule remove1_idem)
    with D(5) have "boot_ok cfg ?l1"
      by (simp add: boot_ok_def quiet_boot_def split: booting.splits)
    with D(1) D(3) D(4) have "loop_inv cfg ?l1"
      by (intro loop_invI) (auto dest: sub)
    with None show ?thesis by (simp add: gate_done_def)
  next
    case (Some i)
    from awaited_gate [OF D(5) _ _ Some] g exit0
    have b: "boot l = Launching" and cg: "caller_gates l = [g]"
      and n: "Suc i = length (instances m)" by simp_all
    from D(5) b have qb: "quiet_boot ?l0" and names:
      "map fst (instances m) = map instance_name [0..<length (instances m)]"
      and le: "length (instances m) \<le> instance_count cfg"
      by (simp_all add: boot_ok_def)
    have "boot_ok cfg (resume_start cfg res i ?l1)"
    proof (cases res)
      case TypeError
      with qb names le b show ?thesis
        by (simp add: resume_start_def boot_ok_def quiet_boot_def process_exit_def)
    next
      case (Returned x)
      show ?thesis
      proof (cases "KEYS cfg = []")
        case True
        with le n have "length (instances m) = instance_count cfg"
          by (simp add: instance_count_def)
        with True Returned names cg show ?thesis
          by (simp add: resume_start_def finish_start_def boot_ok_def startLoadBalancer_def
              setupSignalHandlers_def startHealthCheck_def)
      next
        case False
        with Returned qb names le n cg show ?thesis
          by (simp add: resume_start_def boot_ok_def quiet_boot_def)
      qed
    qed
    moreover have "sys_inv (mgr (resume_start cfg res i ?l1))"
      using D(1) calm_resume_start [of ?l1 cfg res i] by (auto intro: calm_sys_inv)
    moreover have "gates (resume_start cfg res i ?l1) = remove1 g (gates l)"
      "passes (resume_start cfg res i ?l1) = passes l"
      by (simp_all add: resume_start_def finish_start_def split: wait_result.splits)
    moreover note calmD(3,10) [OF calm_resume_start [of ?l1 cfg res i]]
    ultimately have "loop_inv cfg (resume_start cfg res i ?l1)"
      using D(3) D(4) by (intro loop_invI) (auto dest: sub)
    with Some show ?thesis by (simp add: gate_done_def)
  qed
qed

lemma loop_inv_gate_head:
  assumes "loop_inv cfg l" and "g \<in> set (gates l)" and "exitCode (mgr l) = None"
  shows "loop_inv cfg (gate_head cfg g (l\<lparr>gates := remove1 g (gates l)\<rparr>))"
  using loop_inv_requeue [OF assms, of "g\<lparr>g_awaiting := Answer\<rparr>"]
    loop_inv_gate_done [OF assms still_refl, of "Returned False"]
  by (simp add: gate_head_def)

lemma loop_inv_gate_wake:
  assumes "loop_inv cfg l" and "g \<in> set (gates l)" and "exitCode (mgr l) = None"
  shows "loop_inv cfg (gate_wake cfg g l)"
  unfolding gate_wake_def using assms by (rule loop_inv_gate_head)

lemma loop_inv_gate_answer:
  assumes inv: "loop_inv cfg l" and g: "g \<in> set (gates l)" and exit: "exitCode (mgr l) = None"
  shows "loop_inv cfg (gate_answer cfg g out l)"
proof (cases "checkInstanceHealth out")
  case False
  with loop_inv_requeue [OF assms, of "g\<lparr>g_awaiting := Timer (now (mgr l) + 1000)\<rparr>"]
  show ?thesis by (simp add: gate_answer_def)
next
  case True
  from loop_invD(3) [OF inv g] obtain m where m: "mark_ready (g_instanceId g) (mgr l) = Some m"
    by (auto simp del: mark_ready_None simp: mark_ready_None [symmetric])
  then have "still (mgr l) m" by (rule still_mark_ready)
  from loop_inv_gate_done [OF assms this, of "Returned True"] True m
  show ?thesis by (simp add: gate_answer_def del: mark_ready_None)
qed

section \<open>The periodic check keeps the invariant\<close>

lemma loop_inv_pass_next:
  assumes inv: "loop_inv cfg l" and b: "boot l = Booted"
  shows "loop_inv cfg (pass_next idx l)"
proof (cases "idx < length (instances (mgr l))")
  case False
  with inv show ?thesis by (simp add: pass_next_def)
next
  case True
  note D = loop_invD [OF inv]
  from True have "instances (mgr l) ! idx \<in> set (instances (mgr l))" by simp
  with D(2) have "snd (instances (mgr l) ! idx) < length (heap (mgr l))"
    by (cases "instances (mgr l) ! idx") (auto dest: wfD_ref)
  moreover from D(5) b have "boot_ok cfg (pass_next idx l)"
    by (simp add: boot_ok_def pass_next_def Let_def caller_gates_def)
  ultimately show ?thesis
    using D(1) D(3) D(4) True
    by (intro loop_invI) (auto simp: pass_next_def Let_def)
qed

lemma booted_when_checking:
  assumes "boot_ok cfg l" and "healthCheckInterval (mgr l) \<noteq> None \<or> passes l \<noteq> []"
  shows "boot l = Booted"
  using assms by (cases "boot l") (auto simp: boot_ok_def quiet_boot_def)

lemma loop_inv_tick_fires:
  assumes "loop_inv cfg l" and "healthCheckInterval (mgr l) = Some True"
  shows "loop_inv cfg (tick_fires l)"
  unfolding tick_fires_def using assms
  by (intro loop_inv_pass_next booted_when_checking [of cfg]) (auto dest: loop_invD(5))

lemma still_probe:
  "still m ((update_inst r (record_probe h t) m)\<lparr>console := c\<rparr>)"
  unfolding still_def by (intro conjI calmI) (simp_all add: deref_update_inst)

lemma loop_inv_pass_answer:
  assumes inv: "loop_inv cfg l" and p: "p \<in> set (passes l)"
  shows "loop_inv cfg (pass_answer p out l)"
proof -
  let ?m = "(update_inst (p_instance p) (record_probe (checkInstanceHealth out) (now (mgr l)))
      (mgr l))\<lparr>console := console (mgr l) @ transition_log (p_instanceId p) (p_wasHealthy p)
        (healthy (deref (update_inst (p_instance p)
           (record_probe (checkInstanceHealth out) (now (mgr l))) (mgr l)) (p_instance p)))\<rparr>"
  let ?l1 = "l\<lparr>passes := remove1 p (passes l), mgr := ?m\<rparr>"
  have eq: "pass_answer p out l = pass_next (Suc (p_index p)) ?l1"
    by (simp add: pass_answer_def Let_def)
  from loop_invD(5) [OF inv] p have b: "boot l = Booted"
    by (intro booted_when_checking [of cfg]) auto
  from inv still_probe have inv0: "loop_inv cfg (l\<lparr>mgr := ?m\<rparr>)" by (rule loop_inv_still)
  note D = loop_invD [OF inv0]
  from D(5) b have "boot_ok cfg ?l1" by (simp add: boot_ok_def caller_gates_def)
  with D(1) D(3) D(4) have "loop_inv cfg ?l1"
    using set_remove1_subset [of p "passes l"] by (intro loop_invI) auto
  with b show ?thesis unfolding eq by (intro loop_inv_pass_next) simp_all
qed

section \<open>The callbacks without a suspension point keep the invariant\<close>

lemma atomic_keeps:
  assumes "atomic ev"
  shows "instances (apply_event cfg ev m) = instances m"
    and "length (heap (apply_event cfg ev m)) = length (heap m)"
  using assms by (cases ev; simp add: event_defs)+

lemma atomic_booting:
  assumes "atomic ev" and "enabled ev m" and "\<not> handlers m" and "\<not> isShuttingDown m"
  shows "\<not> isShuttingDown (apply_event cfg ev m)"
    and "healthCheckInterval (apply_event cfg ev m) = healthCheckInterval m"
    and "exitCode (apply_event cfg ev m) = exitCode m"
  using assms by (cases ev; simp add: event_defs)+

lemma loop_inv_sync:
  assumes inv: "loop_inv cfg l" and a: "atomic ev" and en: "enabled ev (mgr l)"
    and exit: "exitCode (mgr l) = None"
  shows "loop_inv cfg (l\<lparr>mgr := apply_event cfg ev (mgr l)\<rparr>)"
proof (rule loop_invI)
  let ?l' = "l\<lparr>mgr := apply_event cfg ev (mgr l)\<rparr>"
  note D = loop_invD [OF inv]
  note K = atomic_keeps [OF a, of cfg "mgr l"]
  from exit en have "step cfg (mgr l) ev (apply_event cfg ev (mgr l))" by (rule stepI)
  with D(1) show "sys_inv (mgr ?l')" by (simp add: sys_inv_step)
  show "map_get (mgr ?l') (g_instanceId g) \<noteq> None" if "g \<in> set (gates ?l')" for g
    using that D(3) [of g] by (simp add: map_get_def K(1))
  show "p_instance p < length (heap (mgr ?l'))" if "p \<in> set (passes ?l')" for p
    using that D(4) [of p] by (simp add: K(2))
  show "boot_ok cfg ?l'"
  proof (cases "boot l = Booted")
    case True
    with D(5) show ?thesis by (simp add: boot_ok_def K(1))
  next
    case False
    with D(5) have q: "quiet_boot l" by (cases "boot l") (simp_all add: boot_ok_def)
    then have "\<not> handlers (mgr l)" "\<not> isShuttingDown (mgr l)" by (simp_all add: quiet_boot_def)
    note B = atomic_booting [OF a en this, of cfg]
    from q B have "quiet_boot ?l'" by (simp add: quiet_boot_def apply_event_keeps)
    with D(5) False show ?thesis
      by (cases "boot l") (simp_all add: boot_ok_def K(1) B(3))
  qed
qed

section \<open>Launches keep the invariant\<close>

lemma enter_gate_simps [simp]:
  "g_instanceId (enter_gate i p t c) = i" "g_port (enter_gate i p t c) = p"
  "g_startTime (enter_gate i p t c) = t" "g_maxWait (enter_gate i p t c) = READY_TIMEOUT"
  "g_awaiting (enter_gate i p t c) = Answer" "g_caller (enter_gate i p t c) = c"
  by (simp_all add: enter_gate_def)

lemma launch_eq:
  "launch cfg spawned i k p c l =
     l\<lparr>mgr := snd (spawn_instance cfg spawned i k p (mgr l)),
       gates := gates l @ [enter_gate i p (now (mgr l)) c]\<rparr>"
  by (simp add: launch_def gate_head_def READY_TIMEOUT_def Let_def enter_gate_def)

lemma timer_registered:
  assumes "sys_inv m" and "e \<in> set (timers m)"
  shows "snd e < length (heap m)" and "(instanceId (deref m (snd e)), snd e) \<in> set (instances m)"
proof -
  obtain t r where e: "e = (t, r)" by (cases e)
  note D = sys_invD [OF assms(1)]
  from assms(2) D(1) show r: "snd e < length (heap m)" by (auto simp: e dest: wfD_timer)
  with D(3) [of r t] assms(2) have "r \<in> set (value_refs m)" by (auto simp: e)
  then obtain k where k: "(k, r) \<in> set (instances m)" by (auto simp: value_refs_def)
  with D(1) have "instanceId (deref m r) = k" by (rule wfD_id)
  with k show "(instanceId (deref m (snd e)), snd e) \<in> set (instances m)" by (simp add: e)
qed

lemma loop_inv_restart_fires:
  assumes inv: "loop_inv cfg l" and e: "e \<in> set (timers (mgr l))"
  shows "loop_inv cfg (restart_fires cfg spawned e l)"
proof (rule loop_invI)
  let ?l' = "restart_fires cfg spawned e l"
  let ?m = "(mgr l)\<lparr>timers := remove1 e (timers (mgr l))\<rparr>"
  let ?i = "instanceId (deref (mgr l) (snd e))"
  note D = loop_invD [OF inv]
  note T = timer_registered [OF D(1) e]
  from T(2) have key: "?i \<in> fst ` set (instances (mgr l))" by (rule image_eqI [rotated]) simp
  have gs: "set (gates ?l') \<subseteq> set (gates l) \<union> {g. g_instanceId g = ?i}"
    "passes ?l' = passes l" "boot ?l' = boot l" "caller_gates ?l' = caller_gates l"
    by (auto simp: restart_fires_def launch_eq Let_def caller_gates_def deref_update_inst T(1))
  have keys: "map fst (instances (mgr ?l')) = map fst (instances (mgr l))"
    using key T(1)
    by (simp add: mgr_restart_fires Let_def spawn_instance_eq update_present_keys
        deref_update_inst)
  then have len: "length (instances (mgr ?l')) = length (instances (mgr l))"
    by (rule map_eq_imp_length_eq)
  from arg_cong [OF keys, of set]
  have dom: "fst ` set (instances (mgr ?l')) = fst ` set (instances (mgr l))" by simp
  have get: "map_get (mgr ?l') k \<noteq> None" if "map_get (mgr l) k \<noteq> None \<or> k = ?i" for k
    using that key by (auto simp: map_get_def map_of_eq_None_iff dom)
  have flags: "handlers (mgr ?l') = handlers (mgr l)" "listening (mgr ?l') = listening (mgr l)"
    "healthCheckInterval (mgr ?l') = healthCheckInterval (mgr l)"
    "isShuttingDown (mgr ?l') = isShuttingDown (mgr l)" "exitCode (mgr ?l') = exitCode (mgr l)"
    "length (heap (mgr l)) \<le> length (heap (mgr ?l'))"
    by (simp_all add: mgr_restart_fires Let_def)
  show "sys_inv (mgr ?l')" using D(1) e by (rule sys_inv_restart_fires)
  show "map_get (mgr ?l') (g_instanceId g) \<noteq> None" if "g \<in> set (gates ?l')" for g
    using that gs(1) D(3) [of g] by (intro get) auto
  show "p_instance p < length (heap (mgr ?l'))" if "p \<in> set (passes ?l')" for p
    using that D(4) [of p] flags(6) by (simp add: gs(2))
  from len have ne: "instances (mgr ?l') = [] \<longleftrightarrow> instances (mgr l) = []"
    by (metis length_0_conv)
  from D(5) show "boot_ok cfg ?l'"
    by (simp add: boot_ok_def quiet_boot_def gs keys len flags ne split: booting.splits)
qed

lemma loop_inv_launch:
  assumes inv: "sys_inv (mgr l)"
    and gs: "\<And>g. g \<in> set (gates l) \<Longrightarrow> map_get (mgr l) (g_instanceId g) \<noteq> None"
    and q: "quiet_boot l" and c: "caller_gates l = []"
    and names: "map fst (instances (mgr l)) = map instance_name [0..<n]"
    and n: "n < instance_count cfg"
  shows "loop_inv cfg (launch cfg spawned (instance_name n) k p (Some n) (l\<lparr>boot := Launching\<rparr>))"
proof (rule loop_invI)
  let ?l' = "launch cfg spawned (instance_name n) k p (Some n) (l\<lparr>boot := Launching\<rparr>)"
  from arg_cong [OF names, of length] have len: "length (instances (mgr l)) = n" by simp
  from arg_cong [OF names, of set] have "instance_name n \<notin> fst ` set (instances (mgr l))"
    by auto
  then have fresh: "map_get (mgr l) (instance_name n) = None"
    by (simp add: map_get_def map_of_eq_None_iff)
  note S = spawn_fresh_shape [OF fresh, of cfg spawned k p]
  from q have shut: "\<not> isShuttingDown (mgr l)" and ps: "passes l = []"
    by (simp_all add: quiet_boot_def)
  show "sys_inv (mgr ?l')"
    using inv shut fresh by (simp add: launch_eq sys_inv_spawn_fresh)
  show "map_get (mgr ?l') (g_instanceId g) \<noteq> None" if "g \<in> set (gates ?l')" for g
    using that gs [of g] by (auto simp: launch_eq map_get_def S(1))
  show "p_instance p < length (heap (mgr ?l'))" if "p \<in> set (passes ?l')" for p
    using that ps by (simp add: launch_eq)
  from q c names n show "boot_ok cfg ?l'"
    by (simp add: boot_ok_def quiet_boot_def launch_eq S(1) len caller_gates_def)
qed

lemma sys_inv_new_manager [simp]: "sys_inv (new_manager t)"
  by (rule sys_invI) (simp_all add: value_refs_def)

lemma loop_inv_boot_begin: "loop_inv cfg (boot_begin cfg spawned t)"
proof -
  let ?l = "\<lparr>mgr = new_manager t, gates = [], passes = [], boot = Launching\<rparr>"
  have exit: "loop_inv cfg (?l\<lparr>mgr := process_exit 1 (mgr ?l)\<rparr>)"
    by (rule loop_invI)
       (simp_all add: process_exit_def boot_ok_def quiet_boot_def calm_sys_inv [of "new_manager t"])
  have "loop_inv cfg (launch cfg spawned (instance_name 0) k p (Some 0) (?l\<lparr>boot := Launching\<rparr>))"
    for k p
    using instance_count_pos [of cfg]
    by (intro loop_inv_launch) (simp_all add: quiet_boot_def caller_gates_def)
  with exit show ?thesis
    by (simp add: boot_begin_def Let_def instance_name_0 del: instance_port_0)
qed

lemma loop_inv_boot_wake:
  assumes inv: "loop_inv cfg l" and b: "boot l = Staggering i due"
  shows "loop_inv cfg (boot_wake cfg spawned l)"
proof (cases "Suc i < length (KEYS cfg)")
  case True
  note D = loop_invD [OF inv]
  from D(5) b have q: "quiet_boot l" and c: "caller_gates l = []"
    and names: "map fst (instances (mgr l)) = map instance_name [0..<Suc i]"
    and k: "KEYS cfg \<noteq> []"
    by (simp_all add: boot_ok_def)
  from True k have "Suc i < instance_count cfg" by (simp add: instance_count_def)
  with D(1) D(3) q c names
  have "loop_inv cfg (launch cfg spawned (instance_name (Suc i)) (Some (KEYS cfg ! Suc i))
      (instance_port cfg (Suc i)) (Some (Suc i)) (l\<lparr>boot := Launching\<rparr>))"
    by (intro loop_inv_launch) simp_all
  with True b show ?thesis by (simp add: boot_wake_def)
next
  case False
  note D = loop_invD [OF inv]
  from D(5) b False have "boot_ok cfg (finish_start l)"
    by (auto simp: boot_ok_def finish_start_def startLoadBalancer_def setupSignalHandlers_def
        startHealthCheck_def instance_count_def)
  moreover note C = calmD [OF calm_finish_start [of l]]
  moreover from D(1) have "sys_inv (mgr (finish_start l))"
    by (rule calm_sys_inv) simp
  ultimately have "loop_inv cfg (finish_start l)"
    using D(3) D(4) by (intro loop_invI) (simp_all add: C(3,10) finish_start_def)
  with False b show ?thesis by (simp add: boot_wake_def)
qed

section \<open>Every reachable state satisfies the invariant\<close>

lemma loop_inv_step:
  assumes "loop_inv cfg l" and "loop_step cfg l ev l'"
  shows "loop_inv cfg l'"
proof -
  from assms(2) have exit: "exitCode (mgr l) = None" and en: "loop_enabled ev l"
    and l': "l' = loop_apply cfg ev l" by (auto elim: loop_stepE)
  show ?thesis
  proof (cases ev)
    case (Sync e)
    with assms(1) en exit show ?thesis by (simp add: l' loop_inv_sync)
  next
    case (RestartFires e spawned)
    with assms(1) en show ?thesis by (simp add: l' loop_inv_restart_fires)
  next
    case (GateAnswer g out)
    with assms(1) en exit show ?thesis by (simp add: l' loop_inv_gate_answer)
  next
    case (GateWake g)
    with assms(1) en exit show ?thesis by (simp add: l' loop_inv_gate_wake)
  next
    case TickFires
    with assms(1) en show ?thesis by (simp add: l' loop_inv_tick_fires)
  next
    case (PassAnswer p out)
    with assms(1) en show ?thesis by (simp add: l' loop_inv_pass_answer)
  next
    case (BootWake spawned)
    with en obtain i due where "boot l = Staggering i due" by (cases "boot l") auto
    with assms(1) BootWake show ?thesis by (simp add: l' loop_inv_boot_wake)
  qed
qed

lemma loop_inv_reachable:
  assumes "loop_reachable cfg l0 l" and "loop_inv cfg l0"
  shows "loop_inv cfg l"
  using assms by induction (auto intro: loop_inv_step)

lemma loop_inv_booted:
  assumes "loop_reachable cfg (boot_begin cfg spawned t) l"
  shows "loop_inv cfg l"
  using assms loop_inv_boot_begin by (rule loop_inv_reachable)

section \<open>The exit status\<close>

text \<open>
  From a state that satisfies the invariant no step ends the process with status 1: the
  one statement after start-up that could, the rejection of \<^verbatim>\<open>start()\<close> by a \<^verbatim>\<open>TypeError\<close> of
  a readiness gate, needs a gate whose id is not registered.
\<close>

lemma exit_gate_done:
  "res \<noteq> TypeError \<Longrightarrow> exitCode (mgr (gate_done cfg g res l)) = exitCode (mgr l)"
  by (cases res)
     (simp_all add: gate_done_def resume_start_def finish_start_def startLoadBalancer_def
        setupSignalHandlers_def startHealthCheck_def split: option.splits)

lemma exit_gate_head: "exitCode (mgr (gate_head cfg g l)) = exitCode (mgr l)"
  by (simp add: gate_head_def exit_gate_done)

lemma exit_gate_answer:
  assumes "map_get (mgr l) (g_instanceId g) \<noteq> None"
  shows "exitCode (mgr (gate_answer cfg g out l)) = exitCode (mgr l)"
proof -
  from assms obtain m where m: "mark_ready (g_instanceId g) (mgr l) = Some m"
    by (auto simp del: mark_ready_None simp: mark_ready_None [symmetric])
  then have "exitCode m = exitCode (mgr l)"
    by (auto simp: mark_ready_def split: option.splits)
  with m show ?thesis
    by (simp add: gate_answer_def Let_def exit_gate_done del: mark_ready_None)
qed

lemma atomic_exit:
  "atomic ev \<Longrightarrow>
   exitCode (apply_event cfg ev m) = exitCode m \<or> exitCode (apply_event cfg ev m) = Some 0"
  by (cases ev) (simp_all add: event_defs)

lemma step_exit:
  assumes inv: "loop_inv cfg l" and st: "loop_step cfg l ev l'"
  shows "exitCode (mgr l') = None \<or> exitCode (mgr l') = Some 0"
proof -
  from st have exit: "exitCode (mgr l) = None" and en: "loop_enabled ev l"
    and l': "l' = loop_apply cfg ev l" by (auto elim: loop_stepE)
  show ?thesis
  proof (cases ev)
    case (Sync e)
    with en exit atomic_exit [of e cfg "mgr l"] show ?thesis by (auto simp: l')
  next
    case (RestartFires e spawned)
    with exit show ?thesis by (simp add: l' mgr_restart_fires Let_def)
  next
    case (GateAnswer g out)
    with en exit loop_invD(3) [OF inv, of g] show ?thesis by (simp add: l' exit_gate_answer)
  next
    case (GateWake g)
    with exit show ?thesis by (simp add: l' gate_wake_def exit_gate_head)
  next
    case TickFires
    with exit show ?thesis by (simp add: l' tick_fires_def)
  next
    case (PassAnswer p out)
    with exit show ?thesis by (simp add: l' pass_answer_def Let_def)
  next
    case (BootWake spawned)
    with exit show ?thesis
      by (simp add: l' boot_wake_def launch_eq finish_start_def startLoadBalancer_def
          setupSignalHandlers_def startHealthCheck_def split: booting.splits)
  qed
qed

lemma exit_boot_begin:
  "valid_config cfg \<Longrightarrow> exitCode (mgr (boot_begin cfg spawned t)) = None"
  by (auto simp: valid_config_def boot_begin_def Let_def launch_eq)

lemma reachable_exit:
  assumes "loop_reachable cfg (boot_begin cfg spawned t) l" and "valid_config cfg"
  shows "exitCode (mgr l) = None \<or> exitCode (mgr l) = Some 0"
  using assms(1)
proof cases
  case loop_init
  with assms(2) show ?thesis by (simp add: exit_boot_begin)
next
  case (loop_after l1 ev)
  from loop_after(1) have "loop_inv cfg l1" by (rule loop_inv_booted)
  then show ?thesis using loop_after(2) by (rule step_exit)
qed

section \<open>An example\<close>

text \<open>
  The example environment: \<open>demo_boot\<close> is the event loop when \<^verbatim>\<open>start()\<close> has launched
  \<^verbatim>\<open>router-0\<close> and awaits its gate, \<open>demo_gate\<close> is this gate, and \<open>demo_retry\<close> the state after
  the first probe of the gate has failed.
\<close>

definition demo_boot :: loop where
  "demo_boot = boot_begin demo_cfg True 0"

definition demo_gate :: gate where
  "demo_gate = enter_gate (instance_name 0) (instance_port demo_cfg 0) 0 (Some 0)"

definition demo_retry :: loop where
  "demo_retry = loop_apply demo_cfg (GateAnswer demo_gate RequestError) demo_boot"

lemma demo_boot_eq:
  "demo_boot =
     \<lparr>mgr = snd (spawn_instance demo_cfg True (instance_name 0) (Some ''k0'')
                   (instance_port demo_cfg 0) (new_manager 0)),
      gates = [demo_gate], passes = [], boot = Launching\<rparr>"
  by (simp add: demo_boot_def demo_gate_def boot_begin_def Let_def launch_eq demo_cfg_eq
      del: instance_port_0)

lemma demo_boot_facts:
  "exitCode (mgr demo_boot) = None" "boot demo_boot = Launching" "gates demo_boot = [demo_gate]"
  "length (heap (mgr demo_boot)) = 1" "running (process (deref (mgr demo_boot) 0))"
  "instanceId (deref (mgr demo_boot) 0) = instance_name 0"
  "instances (mgr demo_boot) = [(instance_name 0, 0)]"
  by (simp_all add: demo_boot_eq spawn_instance_eq deref_def del: instance_port_0)

lemma demo_retry_eq:
  "demo_retry = demo_boot\<lparr>gates := [demo_gate\<lparr>g_awaiting := Timer 1000\<rparr>]\<rparr>"
  by (simp add: demo_retry_def gate_answer_def checkInstanceHealth_def Let_def demo_boot_facts)
     (simp add: demo_boot_eq spawn_instance_eq)

lemma demo_retry_reachable: "loop_reachable demo_cfg demo_boot demo_retry"
  unfolding demo_retry_def
  by (rule loop_after [OF loop_init], rule loop_stepI)
     (simp_all add: demo_boot_facts demo_gate_def)

section \<open>Properties of the event loop\<close>

text \<open>
  \<^bold>\<open>C12\<close> (invariant). Under every interleaving of the callbacks, from the first line of
  \<^verbatim>\<open>start()\<close> on and whatever the configuration, the workers and the probes do: the
  invariant of the running system holds at every suspension point, and an object whose
  child is running is the one registered under its id. The suspended readiness gates
  and health checks, which only write health flags, cannot bring up a second worker for
  an id or lose track of a running one.
\<close>

theorem interleaving_keeps_invariant:
  assumes "loop_reachable cfg (boot_begin cfg spawned t) l"
    and "r < length (heap (mgr l))" and "running (process (deref (mgr l) r))"
  shows "sys_inv (mgr l) \<and> map_get (mgr l) (instanceId (deref (mgr l) r)) = Some r"
  using loop_invD(1) [OF loop_inv_booted [OF assms(1)]] assms(2,3)
  by (simp add: sys_inv_running_registered)

theorem interleaving_keeps_invariant_witness:
  "loop_reachable demo_cfg (boot_begin demo_cfg True 0) demo_retry \<and>
   0 < length (heap (mgr demo_retry)) \<and> running (process (deref (mgr demo_retry) 0)) \<and>
   map_get (mgr demo_retry) ''router-0'' = Some 0"
proof -
  have r: "loop_reachable demo_cfg (boot_begin demo_cfg True 0) demo_retry"
    using demo_retry_reachable by (simp add: demo_boot_def)
  have f: "0 < length (heap (mgr demo_retry))" "running (process (deref (mgr demo_retry) 0))"
    "instanceId (deref (mgr demo_retry) 0) = ''router-0''"
    by (simp_all add: demo_retry_eq demo_boot_facts instance_name_0)
  from interleaving_keeps_invariant [OF r f(1,2)] r f show ?thesis by simp
qed

text \<open>
  \<^bold>\<open>C15\<close> (error). With a valid configuration no readiness gate can raise: the id that
  a suspended gate will look up in the \<^verbatim>\<open>Map\<close> when its probe succeeds is registered, so
  \<^verbatim>\<open>this.instances.get(instanceId).healthy = true\<close> finds its object, \<^verbatim>\<open>start()\<close> is never
  rejected, and the manager never exits with status 1.
\<close>

theorem no_gate_raises:
  assumes "loop_reachable cfg (boot_begin cfg spawned t) l" and "valid_config cfg"
    and "g \<in> set (gates l)"
  shows "mark_ready (g_instanceId g) (mgr l) \<noteq> None \<and> exitCode (mgr l) \<noteq> Some 1"
  using loop_invD(3) [OF loop_inv_booted [OF assms(1)] assms(3)] reachable_exit [OF assms(1,2)]
  by auto

theorem no_gate_raises_witness:
  "loop_reachable demo_cfg (boot_begin demo_cfg True 0) demo_retry \<and> valid_config demo_cfg \<and>
   gates demo_retry = [demo_gate\<lparr>g_awaiting := Timer 1000\<rparr>] \<and>
   mark_ready ''router-0'' (mgr demo_retry) \<noteq> None \<and> exitCode (mgr demo_retry) \<noteq> Some 1"
proof -
  have r: "loop_reachable demo_cfg (boot_begin demo_cfg True 0) demo_retry"
    using demo_retry_reachable by (simp add: demo_boot_def)
  have g: "gates demo_retry = [demo_gate\<lparr>g_awaiting := Timer 1000\<rparr>]"
    by (simp add: demo_retry_eq)
  then have "demo_gate\<lparr>g_awaiting := Timer 1000\<rparr> \<in> set (gates demo_retry)" by simp
  from no_gate_raises [OF r demo_cfg_valid this] r g demo_cfg_valid show ?thesis
    by (simp add: demo_gate_def instance_name_0 del: mark_ready_None)
qed

text \<open>
  \<^bold>\<open>C13\<close> (safety). \<^verbatim>\<open>start()\<close> launches the workers one after the other and sets up the rest
  only at its end. While it runs, no termination signal is handled, no request is
  accepted and no periodic check takes place; the ids registered so far are
  \<^verbatim>\<open>router-0\<close>, \<^verbatim>\<open>router-1\<close>, ... without a gap; and \<^verbatim>\<open>start()\<close> awaits exactly the gate of the
  instance registered last, or no gate during the pause between two launches. The next
  worker is therefore not spawned before the gate of the previous one has ended.
\<close>

theorem start_is_sequential:
  assumes "loop_reachable cfg (boot_begin cfg spawned t) l"
    and "boot l \<noteq> Booted" and "exitCode (mgr l) = None"
  shows "\<not> loop_enabled (Sync Signal) l \<and> \<not> loop_enabled (Sync (Request url)) l \<and>
         \<not> loop_enabled TickFires l \<and>
         map fst (instances (mgr l)) = map instance_name [0..<length (instances (mgr l))] \<and>
         map g_caller (caller_gates l) =
           (if boot l = Launching then [Some (length (instances (mgr l)) - 1)] else [])"
  using loop_invD(5) [OF loop_inv_booted [OF assms(1)]] assms(2,3)
  by (cases "boot l") (simp_all add: boot_ok_def quiet_boot_def)

theorem start_is_sequential_witness:
  "loop_reachable demo_cfg (boot_begin demo_cfg True 0) demo_retry \<and>
   boot demo_retry \<noteq> Booted \<and> exitCode (mgr demo_retry) = None \<and>
   \<not> loop_enabled (Sync Signal) demo_retry \<and>
   map fst (instances (mgr demo_retry)) = [''router-0''] \<and>
   map g_caller (caller_gates demo_retry) = [Some 0]"
proof -
  have r: "loop_reachable demo_cfg (boot_begin demo_cfg True 0) demo_retry"
    using demo_retry_reachable by (simp add: demo_boot_def)
  have f: "boot demo_retry \<noteq> Booted" "exitCode (mgr demo_retry) = None"
    "boot demo_retry = Launching" "instances (mgr demo_retry) = [(instance_name 0, 0)]"
    by (simp_all add: demo_retry_eq demo_boot_facts)
  from start_is_sequential [OF r f(1,2), of "''/health''"] r f show ?thesis
    by (simp add: instance_name_0)
qed

end
