(* ===== verification/Schedules.thy ===== *)
theory Schedules
  imports Interleaving
begin

text \<open>
  The one-step operations of the component theories are the uninterrupted schedules of
  the event loop of theory \<open>EventLoop\<close>. For each of \<open>healthCheckTick\<close>, \<open>waitLoop\<close>,
  \<open>startInstance\<close>, \<open>fire_timer\<close> and \<open>start\<close> this theory defines the list of events in which the
  suspended call is resumed as soon as its probe has been answered or its timer is due
  and nothing else runs (\<open>pass_events\<close>, \<open>gate_events\<close>, \<open>restart_events\<close>, \<open>keys_events\<close>,
  \<open>start_events\<close>), and shows that running the event loop on it gives the state that the
  one-step operation returns. \<open>schedules\<close> puts them together for a run of theory \<open>System\<close>.
  The clock advances by \<open>Elapse\<close> events for the duration of each probe and each sleep, as
  the one-step operations advance it.
\<close>

section \<open>The one-step periodic check is the uninterrupted pass\<close>

text \<open>
  \<open>pass_events net m idx es\<close> is the schedule in which a pass that stands at position
  \<open>idx\<close> of the registry, with the entries \<open>es\<close> still to visit, runs to its end without
  any other callback in between: for each entry the time the probe takes elapses, then
  its answer arrives. \<open>net\<close> gives the answer and the duration of a probe by port, as in
  \<open>healthCheckTick\<close>.
\<close>

fun pass_events :: "network \<Rightarrow> manager \<Rightarrow> nat \<Rightarrow> (string \<times> ref) list \<Rightarrow> loop_event list" where
  "pass_events net m idx [] = []"
| "pass_events net m idx (e # es) =
     Sync (Elapse (snd (net (port (deref m (snd e)))))) #
     PassAnswer \<lparr>p_index = idx, p_instanceId = fst e, p_instance = snd e,
                 p_wasHealthy = healthy (deref m (snd e))\<rparr>
       (fst (net (port (deref m (snd e))))) #
     pass_events net (health_pass net e m) (Suc idx) es"

lemma pass_answer_health_pass:
  assumes "passes l = [p]" and "p_instance p = r" and "p_instanceId p = k"
    and "p_wasHealthy p = healthy (deref (mgr l) r)"
    and "net (port (deref (mgr l) r)) = (out, d)"
  shows "pass_answer p out (l\<lparr>mgr := (mgr l)\<lparr>now := now (mgr l) + d\<rparr>\<rparr>) =
         pass_next (Suc (p_index p)) (l\<lparr>mgr := health_pass net (k, r) (mgr l), passes := []\<rparr>)"
  using assms
  by (simp add: pass_answer_def health_pass_eq Let_def)
     (intro arg_cong [where f = "pass_next (Suc (p_index p))"] loop.equality; simp)

lemma pass_schedule:
  assumes "exitCode (mgr l) = None" and "passes l = []" and "drop idx (instances (mgr l)) = es"
  shows "loop_run cfg (pass_events net (mgr l) idx es) (pass_next idx l) =
         Some (l\<lparr>mgr := fold (health_pass net) es (mgr l)\<rparr>)"
  using assms
proof (induction es arbitrary: l idx)
  case Nil
  then show ?case by (simp add: pass_next_def)
next
  case (Cons e es)
  obtain k r where e: "e = (k, r)" by (cases e)
  obtain out d where n: "net (port (deref (mgr l) r)) = (out, d)" by (cases "net (port (deref (mgr l) r))")
  let ?p = "\<lparr>p_index = idx, p_instanceId = k, p_instance = r,
      p_wasHealthy = healthy (deref (mgr l) r)\<rparr>"
  let ?l1 = "l\<lparr>passes := [?p]\<rparr>"
  let ?l2 = "l\<lparr>mgr := health_pass net (k, r) (mgr l)\<rparr>"
  from Cons.prems(3) have idx: "idx < length (instances (mgr l))"
    by (cases "idx < length (instances (mgr l))") simp_all
  from Cons.prems(3) have at: "instances (mgr l) ! idx = (k, r)"
    unfolding e by (rule nth_via_drop)
  have "drop (Suc idx) (instances (mgr l)) = tl (drop idx (instances (mgr l)))"
    by (simp add: drop_Suc tl_drop)
  with Cons.prems(3) have rest: "drop (Suc idx) (instances (mgr l)) = es" by simp
  from idx at Cons.prems(2) have enter: "pass_next idx l = ?l1"
    by (simp add: pass_next_def)
  have "pass_answer ?p out (?l1\<lparr>mgr := (mgr ?l1)\<lparr>now := now (mgr ?l1) + d\<rparr>\<rparr>) =
      pass_next (Suc (p_index ?p)) (?l1\<lparr>mgr := health_pass net (k, r) (mgr ?l1), passes := []\<rparr>)"
    using n by (intro pass_answer_health_pass) simp_all
  moreover from Cons.prems(2)
  have "?l1\<lparr>mgr := health_pass net (k, r) (mgr ?l1), passes := []\<rparr> = ?l2"
    by (intro loop.equality) simp_all
  ultimately have ans: "pass_answer ?p out (?l1\<lparr>mgr := (mgr l)\<lparr>now := now (mgr l) + d\<rparr>\<rparr>) =
      pass_next (Suc idx) ?l2" by simp
  from Cons.prems(1,2) rest
  have "loop_run cfg (pass_events net (mgr ?l2) (Suc idx) es) (pass_next (Suc idx) ?l2) =
      Some (?l2\<lparr>mgr := fold (health_pass net) es (mgr ?l2)\<rparr>)"
    by (intro Cons.IH) simp_all
  with Cons.prems(1) show ?case
    by (simp add: e n enter ans)
qed

lemma tick_schedule:
  assumes "exitCode (mgr l) = None" and "passes l = []"
    and "healthCheckInterval (mgr l) = Some True"
  shows "loop_run cfg (TickFires # pass_events net (mgr l) 0 (instances (mgr l))) l =
         Some (l\<lparr>mgr := healthCheckTick net (mgr l)\<rparr>)"
  using assms pass_schedule [of l 0 "instances (mgr l)" cfg net]
  by (simp add: tick_fires_def healthCheckTick_def)

section \<open>The one-step readiness gate is the uninterrupted gate\<close>

text \<open>
  \<open>gate_events net k g t\<close> is the schedule in which the gate \<open>g\<close>, at the head of its loop
  at time \<open>t\<close> with \<open>k\<close> probes sent so far, runs to its end without any other callback in
  between: the time the probe takes elapses and its answer arrives; after a failed
  probe one second elapses and the gate wakes up. \<open>net\<close> gives the answer and the
  duration of the \<open>k\<close>-th probe, as in \<open>waitLoop\<close>. The recursion ends because every round
  moves the clock towards the deadline of the gate.
\<close>

function gate_events :: "probes \<Rightarrow> nat \<Rightarrow> gate \<Rightarrow> millis \<Rightarrow> loop_event list" where
  "gate_events net k g t =
     (if int t - int (g_startTime g) < int (g_maxWait g) then
        Sync (Elapse (snd (net k))) # GateAnswer g (fst (net k)) #
        (if checkInstanceHealth (fst (net k)) then []
         else Sync (Elapse 1000) #
              GateWake (g\<lparr>g_awaiting := Timer (t + snd (net k) + 1000)\<rparr>) #
              gate_events net (Suc k) g (t + snd (net k) + 1000))
      else [])"
  by pat_completeness auto
termination
  by (relation "measure (\<lambda>(net, k, g, t). g_startTime g + g_maxWait g - t)") auto

declare gate_events.simps [simp del]

lemma loop_swap:
  "l\<lparr>mgr := m, gates := gs\<rparr> = l\<lparr>gates := gs, mgr := m\<rparr>"
  "l\<lparr>mgr := m, passes := ps\<rparr> = l\<lparr>passes := ps, mgr := m\<rparr>"
  "l\<lparr>mgr := m, boot := b\<rparr> = l\<lparr>boot := b, mgr := m\<rparr>"
  by (intro loop.equality; simp)+

lemma gate_head_awaiting [simp]: "gate_head cfg (g\<lparr>g_awaiting := a\<rparr>) l = gate_head cfg g l"
  by (simp add: gate_head_def gate_done_def)

lemma gate_done_frame [simp]:
  "gate_done cfg (g\<lparr>g_awaiting := a\<rparr>) res l = gate_done cfg g res l"
  by (simp add: gate_done_def)

lemma gate_schedule:
  assumes a: "g_awaiting g = Answer"
  shows "mgr l = s \<Longrightarrow> exitCode s = None \<Longrightarrow>
     loop_run cfg (gate_events net k g (now s)) (gate_head cfg g (l\<lparr>gates := []\<rparr>)) =
       Some (gate_done cfg g
               (fst (waitLoop net k (g_instanceId g) (g_startTime g) (g_maxWait g) s))
               (l\<lparr>gates := [],
                  mgr := snd (snd (waitLoop net k (g_instanceId g) (g_startTime g) (g_maxWait g) s))\<rparr>))"
proof (induction k s arbitrary: l rule: waitLoop_induct [where st = "g_startTime g"
      and mw = "g_maxWait g" and net = net])
  case (step k s)
  let ?W = "waitLoop net k (g_instanceId g) (g_startTime g) (g_maxWait g) s"
  note m = \<open>mgr l = s\<close> and exit = \<open>exitCode s = None\<close>
  from a have g: "g\<lparr>g_awaiting := Answer\<rparr> = g" by simp
  show ?case
  proof (cases "int (now s) - int (g_startTime g) < int (g_maxWait g)")
    case False
    then have W: "?W = (Returned False, k, s)" by (subst waitLoop_unfold) simp
    from m have eq: "l\<lparr>gates := [], mgr := s\<rparr> = l\<lparr>gates := []\<rparr>"
      by (intro loop.equality) simp_all
    from False m show ?thesis
      by (subst gate_events.simps) (simp add: gate_head_def W eq)
  next
    case guard: True
    let ?s1 = "s\<lparr>now := now s + snd (net k)\<rparr>"
    from guard m have head: "gate_head cfg g (l\<lparr>gates := []\<rparr>) = l\<lparr>gates := [g]\<rparr>"
      by (simp add: gate_head_def g)
    show ?thesis
    proof (cases "checkInstanceHealth (fst (net k))")
      case ok: True
      have "gate_answer cfg g (fst (net k)) (l\<lparr>gates := [g], mgr := ?s1\<rparr>) =
          gate_done cfg g (fst ?W) (l\<lparr>gates := [], mgr := snd (snd ?W)\<rparr>)"
        using ok guard
        by (subst (1 2) waitLoop_unfold)
           (simp add: gate_answer_def Let_def loop_swap del: mark_ready_None split: option.splits)
      with ok guard m exit a show ?thesis
        by (subst gate_events.simps) (simp add: head)
    next
      case bad: False
      let ?s2 = "s\<lparr>now := now s + snd (net k) + 1000\<rparr>"
      let ?g' = "g\<lparr>g_awaiting := Timer (now s + snd (net k) + 1000)\<rparr>"
      from guard bad have W: "?W = waitLoop net (Suc k) (g_instanceId g) (g_startTime g)
          (g_maxWait g) ?s2" by (subst waitLoop_unfold) simp
      have ans: "gate_answer cfg g (fst (net k)) (l\<lparr>gates := [g], mgr := ?s1\<rparr>) =
          l\<lparr>gates := [?g'], mgr := ?s1\<rparr>"
        using bad by (simp add: gate_answer_def Let_def)
      have wake: "gate_wake cfg ?g' (l\<lparr>gates := [?g'], mgr := ?s2\<rparr>) =
          gate_head cfg g ((l\<lparr>mgr := ?s2\<rparr>)\<lparr>gates := []\<rparr>)"
        by (simp add: gate_wake_def)
      from exit have "loop_run cfg (gate_events net (Suc k) g (now ?s2))
          (gate_head cfg g ((l\<lparr>mgr := ?s2\<rparr>)\<lparr>gates := []\<rparr>)) =
        Some (gate_done cfg g (fst ?W) ((l\<lparr>mgr := ?s2\<rparr>)\<lparr>gates := [], mgr := snd (snd ?W)\<rparr>))"
        unfolding W by (intro step.IH [OF guard bad]) simp_all
      moreover have "(l\<lparr>mgr := ?s2\<rparr>)\<lparr>gates := [], mgr := snd (snd ?W)\<rparr> =
          l\<lparr>gates := [], mgr := snd (snd ?W)\<rparr>"
        by (intro loop.equality) simp_all
      ultimately show ?thesis
        using bad guard m exit a
        by (subst gate_events.simps) (simp add: head ans wake)
    qed
  qed
qed

section \<open>A launch and its gate, uninterrupted\<close>

lemma launch_schedule:
  assumes "exitCode m = None"
  shows "loop_run cfg (gate_events net 0 (enter_gate i p (now m) c) (now m))
           (launch cfg spawned i k p c \<lparr>mgr = m, gates = [], passes = ps, boot = b\<rparr>) =
         Some (gate_done cfg (enter_gate i p (now m) c) (fst (startInstance cfg spawned net i k p m))
                 \<lparr>mgr = snd (startInstance cfg spawned net i k p m), gates = [], passes = ps,
                  boot = b\<rparr>)"
proof -
  let ?m1 = "snd (spawn_instance cfg spawned i k p m)"
  let ?g = "enter_gate i p (now m) c"
  from assms have "exitCode ?m1 = None" by simp
  from gate_schedule [of ?g "\<lparr>mgr = ?m1, gates = [], passes = ps, boot = b\<rparr>" ?m1 cfg net 0, OF _ _ this]
  show ?thesis
    by (simp add: launch_def Let_def startInstance_eq waitForInstanceReady_def case_prod_unfold)
qed

text \<open>
  The restart of theory \<open>Supervisor\<close>, which runs the readiness gate to its end within
  the timer callback, is the schedule in which the timer fires and the gate then runs
  without interruption.
\<close>

definition restart_events :: "probes \<Rightarrow> bool \<Rightarrow> millis \<times> ref \<Rightarrow> manager \<Rightarrow> loop_event list" where
  "restart_events net spawned e m =
     RestartFires e spawned #
     (if isShuttingDown m then []
      else gate_events net 0
             (enter_gate (instanceId (deref m (snd e))) (port (deref m (snd e))) (now m) None)
             (now m))"

lemma restart_schedule:
  assumes exit: "exitCode m = None" and e: "e \<in> set (timers m)" and due: "fst e \<le> now m"
    and r: "snd e < length (heap m)"
  shows "loop_run cfg (restart_events net spawned e m) \<lparr>mgr = m, gates = [], passes = ps, boot = b\<rparr> =
         Some \<lparr>mgr = fire_timer cfg spawned net e m, gates = [], passes = ps, boot = b\<rparr>"
proof (cases "isShuttingDown m")
  case True
  with exit e due show ?thesis
    by (simp add: restart_events_def restart_fires_def fire_timer_def)
next
  case False
  let ?m1 = "update_inst (snd e) bump_restartCount (m\<lparr>timers := remove1 e (timers m)\<rparr>)"
  let ?i = "instanceId (deref m (snd e))" and ?k = "key (deref m (snd e))"
  let ?p = "port (deref m (snd e))"
  from exit have "exitCode ?m1 = None" by simp
  from launch_schedule [OF this, of cfg net ?i ?p None spawned ?k ps b] False r
  have "loop_run cfg (gate_events net 0 (enter_gate ?i ?p (now m) None) (now m))
      (restart_fires cfg spawned e \<lparr>mgr = m, gates = [], passes = ps, boot = b\<rparr>) =
    Some \<lparr>mgr = fire_timer cfg spawned net e m, gates = [], passes = ps, boot = b\<rparr>"
    by (simp add: restart_fires_def Let_def deref_update_inst gate_done_def fire_timer_def
        on_restart_timer_eq)
  with False exit e due show ?thesis by (simp add: restart_events_def)
qed

section \<open>The one-step start-up is the uninterrupted start-up\<close>

text \<open>
  \<open>keys_events cfg w i ks m\<close> is the schedule of the loop of \<^verbatim>\<open>start()\<close> from the moment the
  instance for the key \<open>i\<close> has been launched in the state \<open>m\<close>, with the keys \<open>ks\<close> from \<open>i\<close>
  on: the gate of the instance runs without interruption, two seconds elapse, \<^verbatim>\<open>start()\<close>
  wakes up and launches the next instance. \<open>start_events\<close> is the schedule of the whole
  of \<^verbatim>\<open>start()\<close>, and \<open>idle b m\<close> the state of the event loop in which nothing is suspended.
\<close>

fun keys_events :: "config \<Rightarrow> world \<Rightarrow> nat \<Rightarrow> string list \<Rightarrow> manager \<Rightarrow> loop_event list" where
  "keys_events cfg w i [] m = []"
| "keys_events cfg w i (key' # rest) m =
     gate_events (snd (w i)) 0 (enter_gate (instance_name i) (instance_port cfg i) (now m) (Some i))
       (now m) @
     (case startInstance cfg (fst (w i)) (snd (w i)) (instance_name i) (Some key')
             (instance_port cfg i) m of
        (TypeError, m1) \<Rightarrow> []
      | (Returned b, m1) \<Rightarrow>
          Sync (Elapse STAGGER) # BootWake (fst (w (Suc i))) #
          keys_events cfg w (Suc i) rest (m1\<lparr>now := now m1 + STAGGER\<rparr>))"

definition start_events :: "config \<Rightarrow> world \<Rightarrow> millis \<Rightarrow> loop_event list" where
  "start_events cfg w t =
     (if KEYS cfg \<noteq> [] then keys_events cfg w 0 (KEYS cfg) (new_manager t)
      else gate_events (snd (w 0)) 0 (enter_gate ''router-0'' (base_port cfg) t (Some 0)) t)"

definition idle :: "booting \<Rightarrow> manager \<Rightarrow> loop" where
  "idle b m = \<lparr>mgr = m, gates = [], passes = [], boot = b\<rparr>"

definition started :: "manager completion \<Rightarrow> loop" where
  "started c =
     (case c of Normal m \<Rightarrow> idle Booted m | Throw m \<Rightarrow> idle Launching (process_exit 1 m))"

definition set_up :: "manager completion \<Rightarrow> manager completion" where
  "set_up c =
     (case c of
        Normal m \<Rightarrow> Normal (startLoadBalancer (setupSignalHandlers (startHealthCheck m)))
      | Throw m \<Rightarrow> Throw m)"

lemma keys_schedule:
  assumes "exitCode m = None" and "drop i (KEYS cfg) = key' # rest"
  shows "loop_run cfg (keys_events cfg w i (key' # rest) m)
           (launch cfg (fst (w i)) (instance_name i) (Some key') (instance_port cfg i) (Some i)
              (idle Launching m)) =
         Some (started (set_up (start_keys cfg w i (key' # rest) m)))"
  using assms
proof (induction rest arbitrary: i key' m)
  case Nil
  then have k: "KEYS cfg \<noteq> []" and last: "\<not> Suc i < length (KEYS cfg)"
    by (auto simp: drop_Suc tl_drop dest: arg_cong [where f = length])
  obtain res m1 where S: "startInstance cfg (fst (w i)) (snd (w i)) (instance_name i) (Some key')
      (instance_port cfg i) m = (res, m1)" by (cases "startInstance cfg (fst (w i)) (snd (w i))
      (instance_name i) (Some key') (instance_port cfg i) m")
  from arg_cong [OF S, of "\<lambda>x. exitCode (snd x)"] Nil.prems(1)
  have exit1: "exitCode m1 = None" by simp
  from launch_schedule [OF Nil.prems(1), of cfg "snd (w i)" "instance_name i" "instance_port cfg i"
      "Some i" "fst (w i)" "Some key'" "[]" Launching] S k last exit1
  show ?case
    by (cases res)
       (simp_all add: idle_def started_def set_up_def loop_run_append gate_done_def
          resume_start_def boot_wake_def finish_start_def process_exit_def)
next
  case (Cons key'' rest)
  then have k: "KEYS cfg \<noteq> []" and more: "Suc i < length (KEYS cfg)"
    by (auto dest: arg_cong [where f = length])
  have "drop (Suc i) (KEYS cfg) = tl (drop i (KEYS cfg))" by (simp add: drop_Suc tl_drop)
  with Cons.prems(2) have d: "drop (Suc i) (KEYS cfg) = key'' # rest" by simp
  then have at: "KEYS cfg ! Suc i = key''" by (rule nth_via_drop)
  obtain res m1 where S: "startInstance cfg (fst (w i)) (snd (w i)) (instance_name i) (Some key')
      (instance_port cfg i) m = (res, m1)" by (cases "startInstance cfg (fst (w i)) (snd (w i))
      (instance_name i) (Some key') (instance_port cfg i) m")
  from arg_cong [OF S, of "\<lambda>x. exitCode (snd x)"] Cons.prems(1)
  have exit1: "exitCode m1 = None" by simp
  then have "exitCode (m1\<lparr>now := now m1 + STAGGER\<rparr>) = None" by simp
  note IH = Cons.IH [OF this d]
  from launch_schedule [OF Cons.prems(1), of cfg "snd (w i)" "instance_name i" "instance_port cfg i"
      "Some i" "fst (w i)" "Some key'" "[]" Launching] S k more exit1 at IH
  show ?case
    by (cases res)
       (simp_all add: idle_def started_def set_up_def loop_run_append gate_done_def
          resume_start_def boot_wake_def process_exit_def)
qed

lemma start_schedule:
  assumes "valid_config cfg"
  shows "loop_run cfg (start_events cfg w t) (boot_begin cfg (fst (w 0)) t) =
         Some (started (start cfg w (new_manager t)))"
proof (cases "KEYS cfg = []")
  case True
  with assms have v: "\<not> (PROVIDERS cfg = [] \<and> DIRECT_ENDPOINTS cfg = [])" "PROVIDERS cfg = []"
    by (auto simp: valid_config_def)
  obtain res m1 where S: "startInstance cfg (fst (w 0)) (snd (w 0)) ''router-0'' None
      (base_port cfg) (new_manager t) = (res, m1)"
    by (cases "startInstance cfg (fst (w 0)) (snd (w 0)) ''router-0'' None (base_port cfg)
      (new_manager t)")
  from launch_schedule [of "new_manager t" cfg "snd (w 0)" "''router-0''" "base_port cfg" "Some 0"
      "fst (w 0)" None "[]" Launching] S True v
  show ?thesis
    by (cases res)
       (simp_all add: start_events_def boot_begin_def Let_def start_valid_eq [OF assms]
          start_single_def started_def idle_def gate_done_def resume_start_def finish_start_def
          process_exit_def)
next
  case False
  then obtain key' rest where ks: "KEYS cfg = key' # rest" by (cases "KEYS cfg") auto
  from assms False have v: "\<not> (PROVIDERS cfg = [] \<and> DIRECT_ENDPOINTS cfg = [])"
    by (auto simp: valid_config_def)
  have run: "loop_run cfg (keys_events cfg w 0 (key' # rest) (new_manager t))
      (launch cfg (fst (w 0)) (instance_name 0) (Some key') (instance_port cfg 0) (Some 0)
         (idle Launching (new_manager t))) =
    Some (started (set_up (start_keys cfg w 0 (key' # rest) (new_manager t))))"
    by (rule keys_schedule) (simp_all add: ks)
  from False v have B: "boot_begin cfg (fst (w 0)) t =
      launch cfg (fst (w 0)) (instance_name 0) (Some key') (instance_port cfg 0) (Some 0)
        (idle Launching (new_manager t))"
    by (auto simp: boot_begin_def Let_def ks idle_def simp del: instance_port_0)
  have E: "start_events cfg w t = keys_events cfg w 0 (key' # rest) (new_manager t)"
    by (simp add: start_events_def ks del: keys_events.simps)
  have S: "start cfg w (new_manager t) = set_up (start_keys cfg w 0 (key' # rest) (new_manager t))"
    by (simp add: start_valid_eq [OF assms] ks set_up_def del: start_keys.simps)
  from run show ?thesis by (simp only: B E S)
qed

section \<open>Every run of the one-step system is a schedule of the event loop\<close>

text \<open>
  \<open>schedule ev m\<close> is the uninterrupted schedule for the step \<open>ev\<close> of theory \<open>System\<close> in the
  state \<open>m\<close>, and \<open>schedules\<close> the one for a list of steps.
\<close>

fun schedule :: "event \<Rightarrow> manager \<Rightarrow> loop_event list" where
  "schedule (HealthTick net) m = TickFires # pass_events net m 0 (instances m)"
| "schedule (TimerFires e spawned net) m = restart_events net spawned e m"
| "schedule ev m = [Sync ev]"

fun schedules :: "config \<Rightarrow> event list \<Rightarrow> manager \<Rightarrow> loop_event list" where
  "schedules cfg [] m = []"
| "schedules cfg (ev # evs) m = schedule ev m @ schedules cfg evs (apply_event cfg ev m)"

lemma idle_simps [simp]:
  "mgr (idle b m) = m" "gates (idle b m) = []" "passes (idle b m) = []" "boot (idle b m) = b"
  "(idle b m)\<lparr>mgr := m'\<rparr> = idle b m'"
  by (simp_all add: idle_def)

lemma schedule_step:
  assumes exit: "exitCode m = None" and en: "enabled ev m" and w: "wf m"
  shows "loop_run cfg (schedule ev m) (idle b m) = Some (idle b (apply_event cfg ev m))"
proof (cases "atomic ev")
  case True
  with exit en show ?thesis by (cases ev) simp_all
next
  case False
  then consider net where "ev = HealthTick net"
    | e spawned net where "ev = TimerFires e spawned net" by (cases ev) auto
  then show ?thesis
  proof cases
    case 1
    with exit en tick_schedule [of "idle b m" cfg net] show ?thesis by simp
  next
    case 2
    with en w have "snd e < length (heap m)" by (cases e) (auto dest: wfD_timer)
    with 2 exit en restart_schedule [of m e cfg net spawned "[]" b] show ?thesis
      by (simp add: idle_def)
  qed
qed

lemma schedules_run:
  assumes "run cfg evs m = Some m'" and "sys_inv m"
  shows "loop_run cfg (schedules cfg evs m) (idle b m) = Some (idle b m')"
  using assms
proof (induction evs arbitrary: m)
  case Nil
  then show ?case by simp
next
  case (Cons ev evs)
  from Cons.prems(1) have exit: "exitCode m = None" and en: "enabled ev m"
    and rest: "run cfg evs (apply_event cfg ev m) = Some m'"
    by (simp_all split: if_splits)
  from exit en have "step cfg m ev (apply_event cfg ev m)" by (rule stepI)
  with Cons.prems(2) have "sys_inv (apply_event cfg ev m)" by (rule sys_inv_step)
  with rest have "loop_run cfg (schedules cfg evs (apply_event cfg ev m))
      (idle b (apply_event cfg ev m)) = Some (idle b m')" by (rule Cons.IH)
  with schedule_step [OF exit en sys_invD(1) [OF Cons.prems(2)], of cfg b]
  show ?case by (simp add: loop_run_append)
qed

section \<open>The refinement\<close>

text \<open>
  \<^bold>\<open>C14\<close> (refinement). The one-step system of theory \<open>System\<close> is this system with every
  \<^verbatim>\<open>async\<close> call run to its end without interruption: after a successful \<^verbatim>\<open>start()\<close>, every
  run of the one-step system from the state it returns is the run of the event loop
  from the first line of \<^verbatim>\<open>start()\<close> under the schedule that lets \<^verbatim>\<open>start()\<close>, each restart
  with its readiness gate, and each periodic check finish before anything else runs;
  both end in the same state of the manager, with nothing left suspended.
\<close>

theorem atomic_runs_are_schedules:
  assumes "valid_config cfg" and "start cfg w (new_manager t) = Normal s0"
    and "run cfg evs s0 = Some s"
  shows "loop_run cfg (start_events cfg w t @ schedules cfg evs s0) (boot_begin cfg (fst (w 0)) t) =
         Some (idle Booted s)"
  using start_schedule [OF assms(1), of w t]
    schedules_run [OF assms(3) sys_inv_started [OF assms(1,2)], of Booted]
  by (simp add: loop_run_append assms(2) started_def)

theorem atomic_runs_are_schedules_witness:
  "valid_config demo_cfg \<and> start demo_cfg demo_world (new_manager 0) = Normal demo_started \<and>
   run demo_cfg [ChildExit 0 (Some 1)] demo_started =
     Some (apply_event demo_cfg (ChildExit 0 (Some 1)) demo_started) \<and>
   loop_run demo_cfg (start_events demo_cfg demo_world 0 @ [Sync (ChildExit 0 (Some 1))])
     (boot_begin demo_cfg True 0) =
     Some (idle Booted (apply_event demo_cfg (ChildExit 0 (Some 1)) demo_started))"
proof -
  have r: "run demo_cfg [ChildExit 0 (Some 1)] demo_started =
      Some (apply_event demo_cfg (ChildExit 0 (Some 1)) demo_started)"
    by (simp add: demo_started_facts demo_started_running)
  from atomic_runs_are_schedules [OF demo_cfg_valid demo_start r] r demo_cfg_valid demo_start
  show ?thesis by (simp add: demo_world_def)
qed

end
