(* ===== verification/Tester.thy ===== *)
theory Tester
  imports JsLib
begin

text \<open>
  The serving capability test of \<^verbatim>\<open>test-serving-capability.js\<close>: the class
  \<^verbatim>\<open>ServingCapabilityTester\<close> and the entry point of the script.

  \<^item> The script drives a third-party SDK (ethers, the broker, the OpenAI client). What
    these calls return is decided outside the program; \<open>sdk_world\<close> holds, for each call
    the script makes, whether it returns or throws and what it returns. The arguments
    the script passes are arguments of these fields.
  \<^item> \<open>tester\<close> is the object with its \<^verbatim>\<open>results\<close> and the fields the tests assign, together
    with the two pieces of process state the script changes: the three methods of the
    global \<^verbatim>\<open>console\<close> and what has been written to the standard streams.
  \<^item> Each \<^verbatim>\<open>async\<close> method is a function from the state to its return value and the new
    state, with its \<^verbatim>\<open>try\<close>/\<^verbatim>\<open>catch\<close> written out. \<open>createAccount\<close> is the one method whose
    \<^verbatim>\<open>catch\<close> block can itself throw (it reads \<^verbatim>\<open>error.message.includes\<close>), so its result is
    an \<open>outcome\<close>.
  \<^item> \<open>try_block\<close> is the \<^verbatim>\<open>try\<close> block of \<^verbatim>\<open>runAllTests\<close> with its seven early returns,
    \<open>catch_block\<close> is its \<^verbatim>\<open>catch\<close> block, and \<open>runAllTests\<close> adds the redirection of the
    console and the \<^verbatim>\<open>finally\<close>.
    \<open>run_stages\<close> is the reference it is compared with: run a list of stages up to the
    first that does not return \<^verbatim>\<open>true\<close>.

  Time stamps (\<^verbatim>\<open>new Date().toISOString()\<close>) are left out of log lines and test entries.
  A line of the log is its level and its message; the report is the object that
  \<^verbatim>\<open>generateReport\<close> passes to \<^verbatim>\<open>JSON.stringify\<close>. Thrown values are objects or primitives
  (not \<^verbatim>\<open>null\<close> or \<^verbatim>\<open>undefined\<close>), described by their \<^verbatim>\<open>message\<close> property. The success rate
  is kept in hundredths of a percent, which is what \<^verbatim>\<open>toFixed(2)\<close> leaves of it; the
  rounding of the model is exact, and agrees with the rounding of the double for fewer
  than 32 tests, because no tie occurs below that; a run records at most 7.
\<close>

section \<open>Constants\<close>

definition DEFAULT_PRIVATE_KEY :: string where
  "DEFAULT_PRIVATE_KEY = ''0x59c6995e998f97a5a0044966f0945389dc9e86dae88c7a8412f4603b6b78690d''"

definition HARDHAT_RPC_URL :: string where
  "HARDHAT_RPC_URL = ''http://127.0.0.1:8545''"

definition PROVIDER_ADDRESS :: string where
  "PROVIDER_ADDRESS = ''0x70997970C51812dc3A010C7d01b50e0d17dc79C8''"

definition SERVING_CONTRACT :: string where
  "SERVING_CONTRACT = ''0x8A791620dd6260079BF849Dc5567aDC3F2FdC318''"

definition SERVING_CONTRACT_2 :: string where
  "SERVING_CONTRACT_2 = ''0x0165878A594ca255338adfa4d48449f69242Eb8F''"

definition SERVING_CONTRACT_3 :: string where
  "SERVING_CONTRACT_3 = ''0x9fE46736679d2D9a65F0992F2272dE9f3c7fa6e0''"

definition TEST_TIMEOUT :: nat where
  "TEST_TIMEOUT = 60000"

section \<open>Built-ins\<close>

text \<open>
  \<open>js_includes\<close> is \<^verbatim>\<open>String.prototype.includes\<close>, \<open>substring\<close> is \<^verbatim>\<open>substring(0, n)\<close>,
  \<open>bool_toString\<close> and \<open>opt_toString\<close> are what a template literal makes of a boolean and
  of a string that may be \<^verbatim>\<open>undefined\<close>, and \<open>or_default\<close> is \<^verbatim>\<open>a || b\<close> on such strings.
\<close>

primrec starts_with :: "string \<Rightarrow> string \<Rightarrow> bool" where
  "starts_with s [] \<longleftrightarrow> True"
| "starts_with s (c # cs) \<longleftrightarrow> (case s of [] \<Rightarrow> False | d # ds \<Rightarrow> d = c \<and> starts_with ds cs)"

primrec js_includes :: "string \<Rightarrow> string \<Rightarrow> bool" where
  "js_includes [] needle \<longleftrightarrow> needle = []"
| "js_includes (c # cs) needle \<longleftrightarrow> starts_with (c # cs) needle \<or> js_includes cs needle"

definition substring :: "nat \<Rightarrow> string \<Rightarrow> string" where
  "substring n s = take n s"

definition bool_toString :: "bool \<Rightarrow> string" where
  "bool_toString b = (if b then ''true'' else ''false'')"

definition opt_toString :: "string option \<Rightarrow> string" where
  "opt_toString v = (case v of None \<Rightarrow> ''undefined'' | Some s \<Rightarrow> s)"

definition or_default :: "string option \<Rightarrow> string \<Rightarrow> string" where
  "or_default v d = (if truthy_opt v then the v else d)"

section \<open>Thrown values and the world outside\<close>

datatype thrown = Thrown "string option"

definition message_of :: "thrown \<Rightarrow> string option" where
  "message_of e = (case e of Thrown m \<Rightarrow> m)"

datatype 'a result = Resolved 'a | Rejected thrown

text \<open>
  The tests reach the SDK through \<^verbatim>\<open>this.broker\<close>, which is \<^verbatim>\<open>undefined\<close> until \<^verbatim>\<open>createBroker\<close> has
  assigned it. \<open>UNDEFINED_READ p\<close> is the message of the \<^verbatim>\<open>TypeError\<close> that reading the property
  \<open>p\<close> of \<^verbatim>\<open>undefined\<close> throws; \<open>via_broker\<close> and \<open>via_broker_do\<close> are a call through
  \<^verbatim>\<open>this.broker.p\<close>: the call itself when the broker is there, this error when it is not.
\<close>

definition UNDEFINED_READ :: "string \<Rightarrow> string" where
  "UNDEFINED_READ p =
     ''Cannot read properties of undefined (reading '' @ [CHR 0x27] @ p @ [CHR 0x27] @ '')''"

definition via_broker :: "bool \<Rightarrow> string \<Rightarrow> 'a result \<Rightarrow> 'a result" where
  "via_broker present p call =
     (if present then call else Rejected (Thrown (Some (UNDEFINED_READ p))))"

definition via_broker_do :: "bool \<Rightarrow> string \<Rightarrow> thrown option \<Rightarrow> thrown option" where
  "via_broker_do present p call =
     (if present then call else Some (Thrown (Some (UNDEFINED_READ p))))"

record chat_message =
  role :: string
  content :: string

record chat_completion =
  c_id :: string
  c_content :: "string option"

record sdk_world =
  ZG_PRIVATE_KEY :: "string option"
  newProvider :: "string \<Rightarrow> thrown option"
  newWallet :: "string \<Rightarrow> thrown option"
  getBlockNumber :: "nat result"
  createZGComputeNetworkBroker ::
    "string option \<Rightarrow> string \<Rightarrow> string \<Rightarrow> string \<Rightarrow> thrown option"
  addLedger :: "thrown option"
  listService :: "string option list result"
  getServiceMetadata :: "string \<Rightarrow> (string option \<times> string option) result"
  acknowledgeProviderSigner :: "string \<Rightarrow> thrown option"
  getRequestHeaders :: "string \<Rightarrow> chat_message list \<Rightarrow> thrown option"
  chat_create :: "string option \<Rightarrow> string option \<Rightarrow> chat_message list \<Rightarrow> chat_completion result"
  processResponse :: "string \<Rightarrow> string \<Rightarrow> string \<Rightarrow> bool result"

section \<open>The tester and the process state\<close>

datatype details = NoDetails | MetadataDetails string string | ResponseDetails nat bool

record test =
  t_name :: string
  t_success :: bool
  t_message :: string
  t_details :: details

record results =
  total :: nat
  passed :: nat
  failed :: nat
  tests :: "test list"

record report =
  r_total :: nat
  r_passed :: nat
  r_failed :: nat
  r_successRate :: nat
  r_allPassed :: bool
  r_tests :: "test list"

datatype stream = Stdout | Stderr

datatype item = Line string string | Report report

datatype console_fn = Native | Via_console_error | Stderr_write

record console =
  c_log :: console_fn
  c_warn :: console_fn
  c_error :: console_fn

record tester =
  results :: results
  provider :: "string option"
  wallet :: "string option"
  broker :: bool
  services :: "string option list option"
  serviceEndpoint :: "string option"
  serviceModel :: "string option"
  console :: console
  written :: "(stream \<times> item) list"
  exitCode :: "int option"

definition native_console :: console where
  "native_console = \<lparr>c_log = Native, c_warn = Native, c_error = Native\<rparr>"

definition new_tester :: tester where
  "new_tester =
     \<lparr>results = \<lparr>total = 0, passed = 0, failed = 0, tests = []\<rparr>,
      provider = None, wallet = None, broker = False, services = None,
      serviceEndpoint = None, serviceModel = None,
      console = native_console, written = [], exitCode = None\<rparr>"

definition log_stream :: "console \<Rightarrow> stream" where
  "log_stream c = (case c_log c of Native \<Rightarrow> Stdout | Via_console_error \<Rightarrow> Stderr
                   | Stderr_write \<Rightarrow> Stderr)"

definition log :: "string \<Rightarrow> string \<Rightarrow> tester \<Rightarrow> tester" where
  "log level message t = t\<lparr>written := written t @ [(Stderr, Line level message)]\<rparr>"

definition recordTest :: "string \<Rightarrow> bool \<Rightarrow> string \<Rightarrow> details \<Rightarrow> tester \<Rightarrow> tester" where
  "recordTest name success message details' t =
     (let t1 = t\<lparr>results := (results t)\<lparr>total := total (results t) + 1\<rparr>\<rparr>;
          t2 = (if success
                then log ''SUCCESS'' (name @ '': '' @ message)
                       (t1\<lparr>results := (results t1)\<lparr>passed := passed (results t1) + 1\<rparr>\<rparr>)
                else log ''ERROR'' (name @ '': '' @ message)
                       (t1\<lparr>results := (results t1)\<lparr>failed := failed (results t1) + 1\<rparr>\<rparr>))
      in t2\<lparr>results := (results t2)\<lparr>tests := tests (results t2) @
            [\<lparr>t_name = name, t_success = success, t_message = message, t_details = details'\<rparr>]\<rparr>\<rparr>)"

definition failed_with :: "string \<Rightarrow> thrown \<Rightarrow> tester \<Rightarrow> bool \<times> tester" where
  "failed_with name error t =
     (False, recordTest name False (''Failed: '' @ opt_toString (message_of error)) NoDetails t)"

section \<open>The tests\<close>

definition setupProvider :: "sdk_world \<Rightarrow> tester \<Rightarrow> bool \<times> tester" where
  "setupProvider w t =
     (let t1 = log ''INFO'' ''Setting up provider and wallet...'' t;
          privateKey = or_default (ZG_PRIVATE_KEY w) DEFAULT_PRIVATE_KEY
      in case newProvider w HARDHAT_RPC_URL of
           Some error \<Rightarrow> failed_with ''Provider Setup'' error t1
         | None \<Rightarrow>
             (let t2 = t1\<lparr>provider := Some HARDHAT_RPC_URL\<rparr> in
              case newWallet w privateKey of
                Some error \<Rightarrow> failed_with ''Provider Setup'' error t2
              | None \<Rightarrow>
                  (let t3 = t2\<lparr>wallet := Some privateKey\<rparr> in
                   case getBlockNumber w of
                     Rejected error \<Rightarrow> failed_with ''Provider Setup'' error t3
                   | Resolved blockNumber \<Rightarrow>
                       (let t4 = log ''INFO'' (''Connected to Hardhat node, current block: '' @
                                   nat_toString blockNumber) t3
                        in (True, recordTest ''Provider Setup'' True
                                    (''Connected to block '' @ nat_toString blockNumber)
                                    NoDetails t4)))))"

definition createBroker :: "sdk_world \<Rightarrow> tester \<Rightarrow> bool \<times> tester" where
  "createBroker w t =
     (let t1 = log ''INFO'' ''Creating ZG Compute Network Broker...'' t
      in case createZGComputeNetworkBroker w (wallet t1) SERVING_CONTRACT
                SERVING_CONTRACT_2 SERVING_CONTRACT_3 of
           Some error \<Rightarrow> failed_with ''Broker Creation'' error t1
         | None \<Rightarrow>
             (True, recordTest ''Broker Creation'' True ''Broker created successfully'' NoDetails
                      (t1\<lparr>broker := True\<rparr>)))"

definition service_line :: "nat \<Rightarrow> string option \<Rightarrow> string" where
  "service_line index service =
     ''Service '' @ nat_toString (index + 1) @ '': '' @
       (case service of Some serviceStr \<Rightarrow> serviceStr
        | None \<Rightarrow> ''[Object with non-serializable values]'')"

definition log_services :: "string option list \<Rightarrow> tester \<Rightarrow> tester" where
  "log_services svcs t =
     fold (\<lambda>(index, service). log ''INFO'' (service_line index service))
       (zip [0..<length svcs] svcs) t"

definition listServices :: "sdk_world \<Rightarrow> tester \<Rightarrow> bool \<times> tester" where
  "listServices w t =
     (let t1 = log ''INFO'' ''Listing available services...'' t
      in case via_broker (broker t1) ''inference'' (listService w) of
           Rejected error \<Rightarrow> failed_with ''Service Discovery'' error t1
         | Resolved svcs \<Rightarrow>
             (let t2 = log ''INFO'' (''Found '' @ nat_toString (length svcs) @ '' services'') t1
              in if length svcs = 0
                 then (False, recordTest ''Service Discovery'' False ''No services found''
                                NoDetails t2)
                 else
                   (let t3 = log_services svcs t2;
                        t4 = recordTest ''Service Discovery'' True
                               (''Found '' @ nat_toString (length svcs) @ '' services'')
                               NoDetails t3
                    in (True, t4\<lparr>services := Some svcs\<rparr>))))"

definition testServiceMetadata :: "sdk_world \<Rightarrow> tester \<Rightarrow> bool \<times> tester" where
  "testServiceMetadata w t =
     (let t1 = log ''INFO'' ''Testing service metadata retrieval...'' t
      in case via_broker (broker t1) ''inference'' (getServiceMetadata w PROVIDER_ADDRESS) of
           Rejected error \<Rightarrow> failed_with ''Service Metadata'' error t1
         | Resolved (endpoint, model) \<Rightarrow>
             (let t2 = log ''INFO'' (''Service endpoint: '' @ opt_toString endpoint) t1;
                  t3 = log ''INFO'' (''Service model: '' @ opt_toString model) t2
              in if \<not> truthy_opt endpoint \<or> \<not> truthy_opt model
                 then failed_with ''Service Metadata''
                        (Thrown (Some ''Invalid service metadata received'')) t3
                 else
                   (let t4 = recordTest ''Service Metadata'' True
                               (''Endpoint: '' @ the endpoint @ '', Model: '' @ the model)
                               (MetadataDetails (the endpoint) (the model)) t3
                    in (True, t4\<lparr>serviceEndpoint := endpoint, serviceModel := model\<rparr>))))"

datatype 'a outcome = Returns 'a | Raises thrown

definition INCLUDES_TYPE_ERROR :: string where
  "INCLUDES_TYPE_ERROR = UNDEFINED_READ ''includes''"

definition createAccount :: "sdk_world \<Rightarrow> tester \<Rightarrow> bool outcome \<times> tester" where
  "createAccount w t =
     (let t1 = log ''INFO'' ''Creating ledger account...'' t
      in case via_broker_do (broker t1) ''ledger'' (addLedger w) of
           None \<Rightarrow>
             (Returns True, recordTest ''Account Creation'' True
                              ''Account created with balance 0.01'' NoDetails t1)
         | Some error \<Rightarrow>
             (case message_of error of
                None \<Rightarrow> (Raises (Thrown (Some INCLUDES_TYPE_ERROR)), t1)
              | Some m \<Rightarrow>
                  if js_includes m ''account already exists'' \<or>
                     js_includes m ''already have an account''
                  then
                    (let t2 = log ''INFO'' ''Account already exists, continuing...'' t1
                     in (Returns True, recordTest ''Account Creation'' True
                                         ''Account already exists'' NoDetails t2))
                  else (Returns False, recordTest ''Account Creation'' False
                                         (''Failed: '' @ m) NoDetails t1)))"

definition testProviderAcknowledgment :: "sdk_world \<Rightarrow> tester \<Rightarrow> bool \<times> tester" where
  "testProviderAcknowledgment w t =
     (let t1 = log ''INFO'' ''Testing provider signer acknowledgment...'' t
      in case via_broker_do (broker t1) ''inference''
                (acknowledgeProviderSigner w PROVIDER_ADDRESS) of
           Some error \<Rightarrow> failed_with ''Provider Acknowledgment'' error t1
         | None \<Rightarrow>
             (True, recordTest ''Provider Acknowledgment'' True ''Provider signer acknowledged''
                      NoDetails t1))"

record answer =
  a_output :: string
  a_verified :: bool
  a_history :: "chat_message list"

definition askLLM ::
  "sdk_world \<Rightarrow> tester \<Rightarrow> string \<Rightarrow> string \<Rightarrow> chat_message list \<Rightarrow> answer result" where
  "askLLM w t providerAddress inputParam history =
     (let messages = history @ [\<lparr>role = ''user'', content = inputParam\<rparr>]
      in case via_broker_do (broker t) ''inference''
                (getRequestHeaders w providerAddress messages) of
           Some error \<Rightarrow> Rejected error
         | None \<Rightarrow>
             (case chat_create w (serviceEndpoint t) (serviceModel t) messages of
                Rejected error \<Rightarrow> Rejected error
              | Resolved completion \<Rightarrow>
                  (let chatID = c_id completion;
                       content' = (case c_content completion of None \<Rightarrow> '''' | Some c \<Rightarrow> c)
                   in case processResponse w providerAddress content' chatID of
                        Rejected error \<Rightarrow> Rejected error
                      | Resolved verified \<Rightarrow>
                          Resolved \<lparr>a_output = content', a_verified = verified,
                                    a_history = messages @
                                      [\<lparr>role = ''assistant'', content = content'\<rparr>]\<rparr>)))"

definition testServingCapability :: "sdk_world \<Rightarrow> tester \<Rightarrow> bool \<times> tester" where
  "testServingCapability w t =
     (let t1 = log ''INFO'' ''Testing complete serving capability...'' t;
          testMessage = ''What is the capital of France?'';
          history = [\<lparr>role = ''system'',
                      content = ''You are a helpful assistant that provides accurate information.''\<rparr>]
      in case askLLM w t1 PROVIDER_ADDRESS testMessage history of
           Rejected error \<Rightarrow> failed_with ''Serving Capability'' error t1
         | Resolved result \<Rightarrow>
             if \<not> truthy (a_output result)
             then failed_with ''Serving Capability''
                    (Thrown (Some ''No response received from service'')) t1
             else
               (let t2 = log ''INFO'' (''Service Response: '' @ substring 100 (a_output result) @
                           ''...'') t1;
                    t3 = log ''INFO'' (''Response verified: '' @
                           bool_toString (a_verified result)) t2
                in (True, recordTest ''Serving Capability'' True
                            ''Successfully received and processed response''
                            (ResponseDetails (length (a_output result)) (a_verified result))
                            t3)))"

section \<open>The report and the run\<close>

definition successRate :: "nat \<Rightarrow> nat \<Rightarrow> nat" where
  "successRate passed' total' =
     (if total' > 0 then (20000 * passed' + total') div (2 * total') else 0)"

definition generateReport :: "tester \<Rightarrow> int \<times> tester" where
  "generateReport t =
     (let r = results t;
          report = \<lparr>r_total = total r, r_passed = passed r, r_failed = failed r,
                    r_successRate = successRate (passed r) (total r),
                    r_allPassed = (failed r = 0), r_tests = tests r\<rparr>
      in (if failed r = 0 then 0 else 1,
          t\<lparr>written := written t @ [(log_stream (console t), Report report)]\<rparr>))"

datatype flow = Return int | Completed | Thrown_out thrown

definition early_return :: "tester \<Rightarrow> flow \<times> tester" where
  "early_return t = (case generateReport t of (code, t') \<Rightarrow> (Return code, t'))"

definition try_block :: "sdk_world \<Rightarrow> tester \<Rightarrow> flow \<times> tester" where
  "try_block w t =
     (case setupProvider w t of
        (False, t1) \<Rightarrow> early_return t1
      | (True, t1) \<Rightarrow>
     (case createBroker w t1 of
        (False, t2) \<Rightarrow> early_return t2
      | (True, t2) \<Rightarrow>
     (case createAccount w t2 of
        (Raises error, t3) \<Rightarrow> (Thrown_out error, t3)
      | (Returns False, t3) \<Rightarrow> early_return t3
      | (Returns True, t3) \<Rightarrow>
     (case listServices w t3 of
        (False, t4) \<Rightarrow> early_return t4
      | (True, t4) \<Rightarrow>
     (case testServiceMetadata w t4 of
        (False, t5) \<Rightarrow> early_return t5
      | (True, t5) \<Rightarrow>
     (case testProviderAcknowledgment w t5 of
        (False, t6) \<Rightarrow> early_return t6
      | (True, t6) \<Rightarrow>
     (case testServingCapability w t6 of
        (False, t7) \<Rightarrow> early_return t7
      | (True, t7) \<Rightarrow> (Completed, t7))))))))"

definition catch_block :: "thrown \<Rightarrow> tester \<Rightarrow> tester" where
  "catch_block error t =
     (let t1 = log ''ERROR'' (''Unexpected error: '' @ opt_toString (message_of error)) t
      in recordTest ''Unexpected Error'' False
           (case message_of error of None \<Rightarrow> '''' | Some m \<Rightarrow> m) NoDetails t1)"

definition redirected :: console where
  "redirected = \<lparr>c_log = Via_console_error, c_warn = Via_console_error, c_error = Stderr_write\<rparr>"

definition runAllTests :: "sdk_world \<Rightarrow> tester \<Rightarrow> int \<times> tester" where
  "runAllTests w t =
     (let t1 = log ''INFO'' ''Starting 0G Serving Capability Test Suite'' t;
          t2 = log ''INFO'' ''=========================================='' t1;
          original = console t2;
          t3 = t2\<lparr>console := redirected\<rparr>
      in case try_block w t3 of
           (Return code, t4) \<Rightarrow> (code, t4\<lparr>console := original\<rparr>)
         | (Completed, t4) \<Rightarrow> generateReport (t4\<lparr>console := original\<rparr>)
         | (Thrown_out error, t4) \<Rightarrow>
             generateReport ((catch_block error t4)\<lparr>console := original\<rparr>))"

definition tester_main :: "sdk_world \<Rightarrow> tester" where
  "tester_main w = (case runAllTests w new_tester of (code, t) \<Rightarrow> t\<lparr>exitCode := Some code\<rparr>)"

lemmas tester_defs [op_defs] =
  log_def recordTest_def failed_with_def setupProvider_def createBroker_def listServices_def
  testServiceMetadata_def createAccount_def testProviderAcknowledgment_def askLLM_def
  testServingCapability_def generateReport_def early_return_def try_block_def catch_block_def
  runAllTests_def
  tester_main_def new_tester_def native_console_def redirected_def log_stream_def
  service_line_def log_services_def successRate_def message_of_def opt_toString_def
  or_default_def bool_toString_def substring_def truthy_def truthy_opt_def
  via_broker_def via_broker_do_def

section \<open>The reference the run is compared with\<close>

text \<open>
  \<open>add_result\<close> is what recording one test does to the results, \<open>run_stages\<close> runs a list of
  stages up to the first that does not return \<^verbatim>\<open>true\<close>, and \<open>stages\<close> is the list of the seven
  tests in the order of \<^verbatim>\<open>runAllTests\<close>. \<open>stdout_of\<close> and \<open>stderr_of\<close> are what has been written
  to each stream.
\<close>

definition add_result :: "test \<Rightarrow> results \<Rightarrow> results" where
  "add_result e r =
     \<lparr>total = total r + 1,
      passed = passed r + (if t_success e then 1 else 0),
      failed = failed r + (if t_success e then 0 else 1),
      tests = tests r @ [e]\<rparr>"

definition plain :: "(tester \<Rightarrow> bool \<times> tester) \<Rightarrow> tester \<Rightarrow> bool outcome \<times> tester" where
  "plain f t = (case f t of (b, t') \<Rightarrow> (Returns b, t'))"

fun run_stages :: "(tester \<Rightarrow> bool outcome \<times> tester) list \<Rightarrow> tester \<Rightarrow> flow \<times> tester" where
  "run_stages [] t = (Completed, t)"
| "run_stages (f # fs) t =
     (case f t of
        (Returns True, t') \<Rightarrow> run_stages fs t'
      | (Returns False, t') \<Rightarrow> early_return t'
      | (Raises error, t') \<Rightarrow> (Thrown_out error, t'))"

definition stages :: "sdk_world \<Rightarrow> (tester \<Rightarrow> bool outcome \<times> tester) list" where
  "stages w =
     [plain (setupProvider w), plain (createBroker w), createAccount w, plain (listServices w),
      plain (testServiceMetadata w), plain (testProviderAcknowledgment w),
      plain (testServingCapability w)]"

definition STAGE_NAMES :: "string list" where
  "STAGE_NAMES =
     [''Provider Setup'', ''Broker Creation'', ''Account Creation'', ''Service Discovery'',
      ''Service Metadata'', ''Provider Acknowledgment'', ''Serving Capability'']"

definition stdout_of :: "tester \<Rightarrow> item list" where
  "stdout_of t = map snd (filter (\<lambda>x. fst x = Stdout) (written t))"

definition stderr_of :: "tester \<Rightarrow> item list" where
  "stderr_of t = map snd (filter (\<lambda>x. fst x = Stderr) (written t))"

definition report_of :: "results \<Rightarrow> report" where
  "report_of r =
     \<lparr>r_total = total r, r_passed = passed r, r_failed = failed r,
      r_successRate = successRate (passed r) (total r),
      r_allPassed = (failed r = 0), r_tests = tests r\<rparr>"

section \<open>Facts about the built-ins\<close>

lemma starts_with_iff: "starts_with s p \<longleftrightarrow> (\<exists>r. s = p @ r)"
  by (induction p arbitrary: s) (auto split: list.splits)

lemma js_includes_iff: "js_includes s n \<longleftrightarrow> (\<exists>a b. s = a @ n @ b)"
proof (induction s)
  case Nil
  then show ?case by simp
next
  case (Cons c cs)
  show ?case
  proof
    assume "js_includes (c # cs) n"
    then consider "starts_with (c # cs) n" | "js_includes cs n" by auto
    then show "\<exists>a b. c # cs = a @ n @ b"
    proof cases
      case 1
      then obtain r where "c # cs = [] @ n @ r" by (auto simp: starts_with_iff)
      then show ?thesis by blast
    next
      case 2
      with Cons.IH obtain a b where "cs = a @ n @ b" by blast
      then have "c # cs = (c # a) @ n @ b" by simp
      then show ?thesis by blast
    qed
  next
    assume "\<exists>a b. c # cs = a @ n @ b"
    then obtain a b where ab: "c # cs = a @ n @ b" by blast
    show "js_includes (c # cs) n"
    proof (cases a)
      case Nil
      with ab have "c # cs = n @ b" by simp
      then have "starts_with (c # cs) n" unfolding starts_with_iff ..
      then show ?thesis by simp
    next
      case (Cons d ds)
      with ab have "cs = ds @ n @ b" by simp
      with Cons.IH show ?thesis by auto
    qed
  qed
qed

section \<open>Facts about logging and recording\<close>

lemma log_frame [simp, frame]:
  "results (log l m t) = results t" "console (log l m t) = console t"
  "exitCode (log l m t) = exitCode t" "provider (log l m t) = provider t"
  "wallet (log l m t) = wallet t" "broker (log l m t) = broker t"
  "services (log l m t) = services t" "serviceEndpoint (log l m t) = serviceEndpoint t"
  "serviceModel (log l m t) = serviceModel t"
  "written (log l m t) = written t @ [(Stderr, Line l m)]"
  by (simp_all add: log_def)

lemma stdout_of_simps [simp]:
  "stdout_of (log l m t) = stdout_of t"
  "stdout_of (t\<lparr>results := r\<rparr>) = stdout_of t"
  "stdout_of (t\<lparr>console := c\<rparr>) = stdout_of t"
  "stdout_of (t\<lparr>provider := p\<rparr>) = stdout_of t"
  "stdout_of (t\<lparr>wallet := k\<rparr>) = stdout_of t"
  "stdout_of (t\<lparr>broker := b\<rparr>) = stdout_of t"
  "stdout_of (t\<lparr>services := s\<rparr>) = stdout_of t"
  "stdout_of (t\<lparr>serviceEndpoint := e\<rparr>) = stdout_of t"
  "stdout_of (t\<lparr>serviceModel := d\<rparr>) = stdout_of t"
  "stdout_of (t\<lparr>exitCode := x\<rparr>) = stdout_of t"
  by (simp_all add: stdout_of_def)

lemma recordTest_eq:
  "recordTest name success message details' t =
     (log (if success then ''SUCCESS'' else ''ERROR'') (name @ '': '' @ message) t)
       \<lparr>results := add_result \<lparr>t_name = name, t_success = success, t_message = message,
                                t_details = details'\<rparr> (results t)\<rparr>"
  by (simp add: recordTest_def add_result_def log_def Let_def)

lemma recordTest_frame [simp, frame]:
  "results (recordTest n s m d t) =
     add_result \<lparr>t_name = n, t_success = s, t_message = m, t_details = d\<rparr> (results t)"
  "console (recordTest n s m d t) = console t" "exitCode (recordTest n s m d t) = exitCode t"
  "stdout_of (recordTest n s m d t) = stdout_of t"
  by (simp_all add: recordTest_eq)

lemma add_result_simps [simp]:
  "total (add_result e r) = Suc (total r)"
  "passed (add_result e r) = passed r + (if t_success e then 1 else 0)"
  "failed (add_result e r) = failed r + (if t_success e then 0 else 1)"
  "tests (add_result e r) = tests r @ [e]"
  by (simp_all add: add_result_def)

lemma fold_add_result:
  "total (fold add_result es r) = total r + length es"
  "passed (fold add_result es r) = passed r + length (filter t_success es)"
  "failed (fold add_result es r) = failed r + length (filter (\<lambda>e. \<not> t_success e) es)"
  "tests (fold add_result es r) = tests r @ es"
  by (induction es arbitrary: r) simp_all

lemma log_services_frame [simp, frame]:
  "results (log_services svcs t) = results t" "console (log_services svcs t) = console t"
  "exitCode (log_services svcs t) = exitCode t" "stdout_of (log_services svcs t) = stdout_of t"
  unfolding log_services_def
  by (rule fold_frame; simp add: case_prod_unfold)+

lemma generateReport_eq:
  "generateReport t =
     (if failed (results t) = 0 then 0 else 1,
      t\<lparr>written := written t @ [(log_stream (console t), Report (report_of (results t)))]\<rparr>)"
  by (simp add: generateReport_def report_of_def Let_def)

lemma generateReport_frame [simp, frame]:
  "fst (generateReport t) = (if failed (results t) = 0 then 0 else 1)"
  "results (snd (generateReport t)) = results t"
  "console (snd (generateReport t)) = console t"
  "exitCode (snd (generateReport t)) = exitCode t"
  "written (snd (generateReport t)) =
     written t @ [(log_stream (console t), Report (report_of (results t)))]"
  by (simp_all add: generateReport_eq)

lemma stdout_of_report:
  "stdout_of (snd (generateReport t)) =
     stdout_of t @ (if log_stream (console t) = Stdout then [Report (report_of (results t))] else [])"
  by (simp add: stdout_of_def)

lemma log_stream_simps [simp]:
  "log_stream native_console = Stdout" "log_stream redirected = Stderr"
  by (simp_all add: log_stream_def native_console_def redirected_def)

end
