(* ===== verification/TesterRun.thy ===== *)
theory TesterRun
  imports Tester
begin

text \<open>
  What a run of \<^verbatim>\<open>test-serving-capability.js\<close> records, reports and returns.

  \<^item> \<open>stage_spec\<close> says what each of the seven tests does to the results and the streams;
    \<open>traced\<close> says what a run of a list of such stages has recorded when it ends in each
    of the three ways (completed, returned early, thrown).
  \<^item> \<open>runAllTests_cases\<close> is the case analysis of a whole run that the properties at the
    end of the theory are proved with.
  \<^item> \<open>demo_sdk\<close>, \<open>demo_no_service\<close> and \<open>demo_odd_rejection\<close> are three worlds, one for
    each way a run ends.
\<close>

section \<open>Definitions\<close>

text \<open>
  A stage records exactly one test under its name, successful exactly when it returns
  \<^verbatim>\<open>true\<close>, or throws without recording anything; it writes to the standard error stream
  only and leaves the console and the exit code alone (\<open>quiet_step\<close>).
\<close>

definition quiet_step :: "tester \<Rightarrow> tester \<Rightarrow> bool" where
  "quiet_step t t' \<longleftrightarrow>
     console t' = console t \<and> exitCode t' = exitCode t \<and> stdout_of t' = stdout_of t"

definition stage_spec :: "string \<Rightarrow> (tester \<Rightarrow> bool outcome \<times> tester) \<Rightarrow> bool" where
  "stage_spec name f \<longleftrightarrow>
     (\<forall>t. quiet_step t (snd (f t)) \<and>
        (case fst (f t) of
           Returns b \<Rightarrow>
             results (snd (f t)) = add_result (last (tests (results (snd (f t))))) (results t) \<and>
             t_name (last (tests (results (snd (f t))))) = name \<and>
             t_success (last (tests (results (snd (f t))))) = b
         | Raises error \<Rightarrow> results (snd (f t)) = results t))"

text \<open>
  \<open>ran names t es t'\<close>: from \<open>t\<close> to \<open>t'\<close> the tests \<open>es\<close> have been recorded, under the first
  names of \<open>names\<close> in their order, and nothing else has happened to the results, the
  console, the exit code or the standard output. \<open>traced names t es r\<close>: the run with
  result \<open>r\<close> has recorded \<open>es\<close>, all of them passed when it completed or threw, all but
  the last when it returned early, and then the report has been generated.
\<close>

definition ran :: "string list \<Rightarrow> tester \<Rightarrow> test list \<Rightarrow> tester \<Rightarrow> bool" where
  "ran names t es t' \<longleftrightarrow>
     results t' = fold add_result es (results t) \<and>
     map t_name es = take (length es) names \<and> length es \<le> length names \<and> quiet_step t t'"

definition traced :: "string list \<Rightarrow> tester \<Rightarrow> test list \<Rightarrow> flow \<times> tester \<Rightarrow> bool" where
  "traced names t es r \<longleftrightarrow>
     (case fst r of
        Completed \<Rightarrow> ran names t es (snd r) \<and> length es = length names \<and> list_all t_success es
      | Return code \<Rightarrow>
          (\<exists>t1. ran names t es t1 \<and> generateReport t1 = (code, snd r)) \<and>
          es \<noteq> [] \<and> list_all t_success (butlast es) \<and> \<not> t_success (last es)
      | Thrown_out error \<Rightarrow>
          ran names t es (snd r) \<and> length es < length names \<and> list_all t_success es)"

text \<open>
  \<open>before_try\<close> is the state in which the \<^verbatim>\<open>try\<close> block of \<^verbatim>\<open>runAllTests\<close> starts.
\<close>

definition before_try :: "tester \<Rightarrow> tester" where
  "before_try t =
     (log ''INFO'' ''==========================================''
        (log ''INFO'' ''Starting 0G Serving Capability Test Suite'' t))\<lparr>console := redirected\<rparr>"

text \<open>
  \<open>demo_sdk\<close> is a world in which every call succeeds, except that the ledger account
  exists already; in \<open>demo_no_service\<close> the provider lists no service, and in
  \<open>demo_odd_rejection\<close> the ledger call is rejected with a value that has no message.
\<close>

definition demo_sdk :: sdk_world where
  "demo_sdk =
     \<lparr>ZG_PRIVATE_KEY = None, newProvider = (\<lambda>url. None), newWallet = (\<lambda>k. None),
      getBlockNumber = Resolved 12,
      createZGComputeNetworkBroker = (\<lambda>wallet' a b c. None),
      addLedger = Some (Thrown (Some ''execution reverted: account already exists'')),
      listService = Resolved [Some ''svc''],
      getServiceMetadata = (\<lambda>p. Resolved (Some ''http://localhost:3000/v1/proxy'', Some ''llama'')),
      acknowledgeProviderSigner = (\<lambda>p. None), getRequestHeaders = (\<lambda>p ms. None),
      chat_create = (\<lambda>url model ms. Resolved \<lparr>c_id = ''chat-1'', c_content = Some ''Paris''\<rparr>),
      processResponse = (\<lambda>p c i. Resolved True)\<rparr>"

definition demo_no_service :: sdk_world where
  "demo_no_service = demo_sdk\<lparr>listService := Resolved []\<rparr>"

definition demo_odd_rejection :: sdk_world where
  "demo_odd_rejection = demo_sdk\<lparr>addLedger := Some (Thrown None)\<rparr>"

section \<open>The seven stages\<close>

lemma quiet_step_refl [simp]: "quiet_step t t"
  by (simp add: quiet_step_def)

lemma quiet_step_trans: "quiet_step t t' \<Longrightarrow> quiet_step t' t'' \<Longrightarrow> quiet_step t t''"
  by (simp add: quiet_step_def)

lemma failed_with_frame [simp]:
  "fst (failed_with name error t) = False"
  "results (snd (failed_with name error t)) =
     add_result \<lparr>t_name = name, t_success = False,
                 t_message = ''Failed: '' @ opt_toString (message_of error),
                 t_details = NoDetails\<rparr> (results t)"
  "console (snd (failed_with name error t)) = console t"
  "exitCode (snd (failed_with name error t)) = exitCode t"
  "stdout_of (snd (failed_with name error t)) = stdout_of t"
  by (simp_all add: failed_with_def)

lemma plain_simps [simp]:
  "fst (plain f t) = Returns (fst (f t))" "snd (plain f t) = snd (f t)"
  by (simp_all add: plain_def case_prod_unfold)

lemma stage_setupProvider: "stage_spec ''Provider Setup'' (plain (setupProvider w))"
  unfolding stage_spec_def
  by (auto simp: setupProvider_def Let_def quiet_step_def split: option.splits result.splits)

lemma stage_createBroker: "stage_spec ''Broker Creation'' (plain (createBroker w))"
  unfolding stage_spec_def
  by (auto simp: createBroker_def Let_def quiet_step_def split: option.splits result.splits)

lemma stage_createAccount: "stage_spec ''Account Creation'' (createAccount w)"
  unfolding stage_spec_def
  by (auto simp: createAccount_def Let_def quiet_step_def split: option.splits result.splits)

lemma stage_listServices: "stage_spec ''Service Discovery'' (plain (listServices w))"
  unfolding stage_spec_def
  by (auto simp: listServices_def Let_def quiet_step_def split: option.splits result.splits)

lemma stage_testServiceMetadata: "stage_spec ''Service Metadata'' (plain (testServiceMetadata w))"
  unfolding stage_spec_def
  by (auto simp: testServiceMetadata_def Let_def quiet_step_def
        split: option.splits result.splits prod.splits)

lemma stage_testProviderAcknowledgment:
  "stage_spec ''Provider Acknowledgment'' (plain (testProviderAcknowledgment w))"
  unfolding stage_spec_def
  by (auto simp: testProviderAcknowledgment_def Let_def quiet_step_def
        split: option.splits result.splits)

lemma stage_testServingCapability:
  "stage_spec ''Serving Capability'' (plain (testServingCapability w))"
  unfolding stage_spec_def
  by (auto simp: testServingCapability_def Let_def quiet_step_def
        split: option.splits result.splits)

lemma stages_spec: "list_all2 stage_spec STAGE_NAMES (stages w)"
  by (simp add: STAGE_NAMES_def stages_def stage_setupProvider stage_createBroker
      stage_createAccount stage_listServices stage_testServiceMetadata
      stage_testProviderAcknowledgment stage_testServingCapability)

lemma try_block_run_stages: "try_block w t = run_stages (stages w) t"
  by (simp add: try_block_def stages_def plain_def split: prod.splits bool.splits outcome.splits)

section \<open>What a run of stages records\<close>

lemma ran_Nil [simp]: "ran names t [] t"
  by (simp add: ran_def)

lemma ran_Cons:
  assumes "results t1 = add_result e (results t)" and "t_name e = name" and "quiet_step t t1"
    and "ran names t1 es t'"
  shows "ran (name # names) t (e # es) t'"
  using assms by (auto simp: ran_def intro: quiet_step_trans)

lemma ranD:
  assumes "ran names t es t'"
  shows "results t' = fold add_result es (results t)"
    and "map t_name es = take (length es) names" and "length es \<le> length names"
    and "console t' = console t" and "exitCode t' = exitCode t" and "stdout_of t' = stdout_of t"
  using assms by (simp_all add: ran_def quiet_step_def)

lemma stage_specD:
  assumes "stage_spec name f"
  shows "quiet_step t (snd (f t))"
    and "fst (f t) = Returns b \<Longrightarrow>
         \<exists>e. results (snd (f t)) = add_result e (results t) \<and> t_name e = name \<and> t_success e = b"
    and "fst (f t) = Raises error \<Longrightarrow> results (snd (f t)) = results t"
  using assms unfolding stage_spec_def by (auto dest!: spec [of _ t])

lemma traced_Nil: "traced [] t [] (Completed, t)"
  by (simp add: traced_def)

lemma traced_raise:
  assumes "quiet_step t t1" and "results t1 = results t"
  shows "traced (name # names) t [] (Thrown_out error, t1)"
  using assms by (simp add: traced_def ran_def)

lemma traced_fail:
  assumes "results t1 = add_result e (results t)" and "t_name e = name" and "quiet_step t t1"
    and "\<not> t_success e"
  shows "traced (name # names) t [e] (early_return t1)"
proof -
  from assms(1-3) have "ran (name # names) t [e] t1" by (rule ran_Cons) simp
  with assms(4) show ?thesis
    by (auto simp: traced_def early_return_def case_prod_unfold prod_eq_iff
        intro!: exI [of _ t1])
qed

lemma traced_pass:
  assumes "results t1 = add_result e (results t)" and "t_name e = name" and "quiet_step t t1"
    and "t_success e" and "traced names t1 es r"
  shows "traced (name # names) t (e # es) r"
proof -
  have up: "ran (name # names) t (e # es') t'" if "ran names t1 es' t'" for t' es'
    using assms(1-3) that by (rule ran_Cons)
  from assms(4,5) show ?thesis
    by (auto simp: traced_def split: flow.splits intro: up)
qed

lemma run_stages_trace:
  assumes "list_all2 stage_spec names fs"
  shows "\<exists>es. traced names t es (run_stages fs t)"
  using assms
proof (induction arbitrary: t rule: list_all2_induct)
  case Nil
  show ?case using traced_Nil [of t] by auto
next
  case (Cons name names f fs)
  note q = stage_specD(1) [OF Cons.hyps(1), of t]
  show ?case
  proof (cases "fst (f t)")
    case (Raises error)
    then have "run_stages (f # fs) t = (Thrown_out error, snd (f t))"
      by (simp add: case_prod_unfold)
    with traced_raise [OF q stage_specD(3) [OF Cons.hyps(1) Raises]] show ?thesis by auto
  next
    case (Returns b)
    from stage_specD(2) [OF Cons.hyps(1) Returns]
    obtain e where e: "results (snd (f t)) = add_result e (results t)" "t_name e = name"
      and b: "t_success e = b" by blast
    show ?thesis
    proof (cases b)
      case False
      with Returns have "run_stages (f # fs) t = early_return (snd (f t))"
        by (simp add: case_prod_unfold)
      with traced_fail [OF e q] b False show ?thesis by auto
    next
      case True
      with Returns have r: "run_stages (f # fs) t = run_stages fs (snd (f t))"
        by (simp add: case_prod_unfold)
      from Cons.IH [of "snd (f t)"] obtain es
        where "traced names (snd (f t)) es (run_stages fs (snd (f t)))" ..
      with e q b True have "traced (name # names) t (e # es) (run_stages (f # fs) t)"
        unfolding r by (intro traced_pass) simp_all
      then show ?thesis ..
    qed
  qed
qed

section \<open>The three ways a run ends\<close>

lemma before_try_frame [simp, frame]:
  "results (before_try t) = results t" "console (before_try t) = redirected"
  "exitCode (before_try t) = exitCode t" "stdout_of (before_try t) = stdout_of t"
  by (simp_all add: before_try_def)

lemma catch_block_frame [simp, frame]:
  "results (catch_block error t) =
     add_result \<lparr>t_name = ''Unexpected Error'', t_success = False,
                 t_message = (case message_of error of None \<Rightarrow> '''' | Some m \<Rightarrow> m),
                 t_details = NoDetails\<rparr> (results t)"
  "console (catch_block error t) = console t" "exitCode (catch_block error t) = exitCode t"
  "stdout_of (catch_block error t) = stdout_of t"
  by (simp_all add: catch_block_def Let_def)

lemma runAllTests_eq:
  "runAllTests w t =
     (case run_stages (stages w) (before_try t) of
        (Return code, t4) \<Rightarrow> (code, t4\<lparr>console := console t\<rparr>)
      | (Completed, t4) \<Rightarrow> generateReport (t4\<lparr>console := console t\<rparr>)
      | (Thrown_out error, t4) \<Rightarrow>
          generateReport ((catch_block error t4)\<lparr>console := console t\<rparr>))"
  by (simp add: runAllTests_def try_block_run_stages before_try_def Let_def
      split: prod.splits flow.splits)

text \<open>
  Every test passed: the report is generated after the \<^verbatim>\<open>finally\<close> block, with the console
  of the caller.
\<close>

lemma run_completed:
  assumes "run_stages (stages w) (before_try t) = (Completed, t4)"
    and "traced STAGE_NAMES (before_try t) es (Completed, t4)"
  shows "snd (runAllTests w t) = snd (generateReport (t4\<lparr>console := console t\<rparr>))"
    and "results t4 = fold add_result es (results t)" and "map t_name es = STAGE_NAMES"
    and "list_all t_success es" and "stdout_of t4 = stdout_of t" and "exitCode t4 = exitCode t"
proof -
  from assms(2) have r: "ran STAGE_NAMES (before_try t) es t4"
    and l: "length es = length STAGE_NAMES" and s: "list_all t_success es"
    by (simp_all add: traced_def)
  show "snd (runAllTests w t) = snd (generateReport (t4\<lparr>console := console t\<rparr>))"
    by (simp add: runAllTests_eq assms(1))
  show "list_all t_success es" by (rule s)
  from ranD [OF r] l show "results t4 = fold add_result es (results t)"
    and "map t_name es = STAGE_NAMES" and "stdout_of t4 = stdout_of t"
    and "exitCode t4 = exitCode t"
    by simp_all
qed

text \<open>
  A test returned \<^verbatim>\<open>false\<close>: the report has been generated inside the \<^verbatim>\<open>try\<close> block, with the
  redirected console.
\<close>

lemma run_returned:
  assumes "run_stages (stages w) (before_try t) = (Return code, t4)"
    and "traced STAGE_NAMES (before_try t) es (Return code, t4)"
  shows "runAllTests w t = (code, t4\<lparr>console := console t\<rparr>)"
    and "results t4 = fold add_result es (results t)"
    and "map t_name es = take (length es) STAGE_NAMES" and "length es \<le> length STAGE_NAMES"
    and "es \<noteq> []" and "list_all t_success (butlast es)" and "\<not> t_success (last es)"
    and "stdout_of t4 = stdout_of t" and "exitCode t4 = exitCode t"
    and "last (written t4) = (Stderr, Report (report_of (results t4)))"
    and "code = (if failed (results t4) = 0 then 0 else 1)"
proof -
  from assms(2) obtain t1 where r: "ran STAGE_NAMES (before_try t) es t1"
    and g: "generateReport t1 = (code, t4)"
    and s: "es \<noteq> []" "list_all t_success (butlast es)" "\<not> t_success (last es)"
    by (auto simp: traced_def)
  from g have t4: "t4 = snd (generateReport t1)" and c: "code = fst (generateReport t1)"
    by (simp_all add: prod_eq_iff)
  show "runAllTests w t = (code, t4\<lparr>console := console t\<rparr>)"
    by (simp add: runAllTests_eq assms(1))
  show "es \<noteq> []" "list_all t_success (butlast es)" "\<not> t_success (last es)" by (rule s)+
  from ranD [OF r] show "results t4 = fold add_result es (results t)"
    and "map t_name es = take (length es) STAGE_NAMES" and "length es \<le> length STAGE_NAMES"
    and "stdout_of t4 = stdout_of t" and "exitCode t4 = exitCode t"
    and "last (written t4) = (Stderr, Report (report_of (results t4)))"
    and "code = (if failed (results t4) = 0 then 0 else 1)"
    by (simp_all add: t4 c stdout_of_report)
qed

text \<open>
  A test threw: the \<^verbatim>\<open>catch\<close> block records the unexpected error, and the report is
  generated after the \<^verbatim>\<open>finally\<close> block.
\<close>

lemma run_thrown:
  assumes "run_stages (stages w) (before_try t) = (Thrown_out error, t4)"
    and "traced STAGE_NAMES (before_try t) es (Thrown_out error, t4)"
  shows "snd (runAllTests w t) =
           snd (generateReport ((catch_block error t4)\<lparr>console := console t\<rparr>))"
    and "results t4 = fold add_result es (results t)"
    and "map t_name es = take (length es) STAGE_NAMES" and "length es < length STAGE_NAMES"
    and "list_all t_success es" and "stdout_of t4 = stdout_of t" and "exitCode t4 = exitCode t"
proof -
  from assms(2) have r: "ran STAGE_NAMES (before_try t) es t4"
    and l: "length es < length STAGE_NAMES" and s: "list_all t_success es"
    by (simp_all add: traced_def)
  show "snd (runAllTests w t) =
      snd (generateReport ((catch_block error t4)\<lparr>console := console t\<rparr>))"
    by (simp add: runAllTests_eq assms(1))
  show "length es < length STAGE_NAMES" by (rule l)
  show "list_all t_success es" by (rule s)
  from ranD [OF r] show "results t4 = fold add_result es (results t)"
    and "map t_name es = take (length es) STAGE_NAMES" and "stdout_of t4 = stdout_of t"
    and "exitCode t4 = exitCode t"
    by simp_all
qed

lemma runAllTests_cases [consumes 1, case_names all_pass failure unexpected]:
  assumes run: "runAllTests w t = (code, t')"
  obtains
    (all_pass) es where "results t' = fold add_result es (results t)"
      and "map t_name es = STAGE_NAMES" and "list_all t_success es"
      and "stdout_of t' = stdout_of t @
             (if log_stream (console t) = Stdout then [Report (report_of (results t'))] else [])"
  | (failure) es where "results t' = fold add_result es (results t)"
      and "es \<noteq> []" and "map t_name es = take (length es) STAGE_NAMES"
      and "length es \<le> length STAGE_NAMES"
      and "list_all t_success (butlast es)" and "\<not> t_success (last es)"
      and "stdout_of t' = stdout_of t"
      and "last (written t') = (Stderr, Report (report_of (results t')))"
  | (unexpected) es e where "results t' = fold add_result (es @ [e]) (results t)"
      and "map t_name es = take (length es) STAGE_NAMES" and "length es < length STAGE_NAMES"
      and "list_all t_success es" and "t_name e = ''Unexpected Error''" and "\<not> t_success e"
      and "stdout_of t' = stdout_of t @
             (if log_stream (console t) = Stdout then [Report (report_of (results t'))] else [])"
proof -
  obtain fl t4 where r: "run_stages (stages w) (before_try t) = (fl, t4)" by force
  from run_stages_trace [OF stages_spec [of w], of "before_try t"] obtain es
    where tr: "traced STAGE_NAMES (before_try t) es (fl, t4)" unfolding r ..
  from run have t': "t' = snd (runAllTests w t)" by simp
  show thesis
  proof (cases fl)
    case Completed
    note R = run_completed [OF r [unfolded Completed] tr [unfolded Completed]]
    from R(2-5) show ?thesis
      by (intro all_pass [of es]) (simp_all add: t' R(1) stdout_of_report)
  next
    case (Return c)
    note R = run_returned [OF r [unfolded Return] tr [unfolded Return]]
    from R(2-10) show ?thesis
      by (intro failure [of es]) (simp_all add: t' R(1))
  next
    case (Thrown_out error)
    note R = run_thrown [OF r [unfolded Thrown_out] tr [unfolded Thrown_out]]
    from R(2-6) show ?thesis
      by (intro unexpected [of es "\<lparr>t_name = ''Unexpected Error'', t_success = False,
            t_message = (case message_of error of None \<Rightarrow> '''' | Some m \<Rightarrow> m),
            t_details = NoDetails\<rparr>"])
         (simp_all add: t' R(1) stdout_of_report)
  qed
qed

lemma runAllTests_code:
  assumes "runAllTests w t = (code, t')"
  shows "code = (if failed (results t') = 0 then 0 else 1)"
    and "console t' = console t" and "exitCode t' = exitCode t"
proof -
  obtain fl t4 where r: "run_stages (stages w) (before_try t) = (fl, t4)" by force
  from run_stages_trace [OF stages_spec [of w], of "before_try t"] obtain es
    where tr: "traced STAGE_NAMES (before_try t) es (fl, t4)" unfolding r ..
  have "code = (if failed (results t') = 0 then 0 else 1) \<and> console t' = console t \<and>
        exitCode t' = exitCode t"
  proof (cases fl)
    case Completed
    from run_completed(6) [OF r [unfolded Completed] tr [unfolded Completed]] assms
    show ?thesis by (auto simp: runAllTests_eq r Completed prod_eq_iff)
  next
    case (Return c)
    from run_returned(1,9,11) [OF r [unfolded Return] tr [unfolded Return]] assms
    show ?thesis by auto
  next
    case (Thrown_out error)
    from run_thrown(7) [OF r [unfolded Thrown_out] tr [unfolded Thrown_out]] assms
    show ?thesis by (auto simp: runAllTests_eq r Thrown_out prod_eq_iff)
  qed
  then show "code = (if failed (results t') = 0 then 0 else 1)"
    and "console t' = console t" and "exitCode t' = exitCode t" by simp_all
qed

section \<open>Example worlds\<close>

lemmas demo_defs = demo_sdk_def demo_no_service_def demo_odd_rejection_def


lemma demo_sdk_run:
  "fst (runAllTests demo_sdk new_tester) = 0"
  "map t_name (tests (results (snd (runAllTests demo_sdk new_tester)))) = STAGE_NAMES"
  "total (results (snd (runAllTests demo_sdk new_tester))) = 7"
  by (simp_all add: tester_defs demo_defs Let_def STAGE_NAMES_def)

lemma demo_no_service_run:
  "fst (runAllTests demo_no_service new_tester) = 1"
  "map t_name (tests (results (snd (runAllTests demo_no_service new_tester)))) =
     [''Provider Setup'', ''Broker Creation'', ''Account Creation'', ''Service Discovery'']"
  "map t_success (tests (results (snd (runAllTests demo_no_service new_tester)))) =
     [True, True, True, False]"
  by (simp_all add: tester_defs demo_defs Let_def)

lemma demo_odd_rejection_run:
  "fst (runAllTests demo_odd_rejection new_tester) = 1"
  "map t_name (tests (results (snd (runAllTests demo_odd_rejection new_tester)))) =
     [''Provider Setup'', ''Broker Creation'', ''Unexpected Error'']"
  by (simp_all add: tester_defs demo_defs Let_def)

section \<open>Properties of a run\<close>

lemma new_tester_simps [simp]:
  "results new_tester = \<lparr>total = 0, passed = 0, failed = 0, tests = []\<rparr>"
  "console new_tester = native_console" "exitCode new_tester = None"
  "stdout_of new_tester = []"
  by (simp_all add: new_tester_def stdout_of_def)

lemma fresh_results:
  assumes "results t = fold add_result es (results new_tester)"
  shows "tests (results t) = es" and "total (results t) = length es"
    and "passed (results t) = length (filter t_success es)"
    and "failed (results t) = length (filter (\<lambda>e. \<not> t_success e) es)"
  by (simp_all add: assms fold_add_result)

lemma length_filter_split:
  "length xs = length (filter P xs) + length (filter (\<lambda>x. \<not> P x) xs)"
  by (induction xs) simp_all

lemma stage_names_simps [simp]:
  "length STAGE_NAMES = 7" "''Unexpected Error'' \<notin> set STAGE_NAMES"
  by (simp_all add: STAGE_NAMES_def)

lemma not_unexpected_take: "''Unexpected Error'' \<notin> set (take n STAGE_NAMES)"
  using set_take_subset [of n STAGE_NAMES] by auto

lemma successRate_le: "p \<le> n \<Longrightarrow> successRate p n \<le> 10000"
proof (cases "n = 0")
  case False
  assume "p \<le> n"
  with False have "20000 * p + n < 10001 * (2 * n)" by simp
  then have "(20000 * p + n) div (2 * n) < 10001" by (rule less_mult_imp_div_less)
  with False show ?thesis by (simp add: successRate_def)
qed (simp add: successRate_def)

lemma successRate_nearest:
  assumes "0 < n"
  shows "2 * n * successRate p n \<le> 20000 * p + n"
    and "20000 * p + n < 2 * n * (successRate p n + 1)"
proof -
  from assms have s: "successRate p n = (20000 * p + n) div (2 * n)"
    by (simp add: successRate_def)
  show "2 * n * successRate p n \<le> 20000 * p + n"
    unfolding s by (rule times_div_less_eq_dividend)
  from assms have "0 < 2 * n" by simp
  from dividend_less_times_div [OF this, of "20000 * p + n"]
  show "20000 * p + n < 2 * n * (successRate p n + 1)"
    unfolding s by simp
qed

text \<open>
  The two ways \<^verbatim>\<open>createAccount\<close> leaves its \<^verbatim>\<open>catch\<close> block other than by recording a failure:
  a rejection that says the account exists counts as a success, and a rejection
  without a message makes the \<^verbatim>\<open>catch\<close> block itself throw, with nothing recorded.
\<close>

lemma createAccount_existing:
  assumes "broker t" and "addLedger w = Some (Thrown (Some m))"
    and "js_includes m ''account already exists'' \<or> js_includes m ''already have an account''"
  shows "fst (createAccount w t) = Returns True"
  using assms by (auto simp: createAccount_def via_broker_do_def message_of_def Let_def)

lemma createAccount_throws:
  assumes "broker t" and "addLedger w = Some (Thrown None)"
  shows "fst (createAccount w t) = Raises (Thrown (Some INCLUDES_TYPE_ERROR))"
    and "results (snd (createAccount w t)) = results t"
  using assms by (simp_all add: createAccount_def via_broker_do_def message_of_def Let_def)

text \<open>
  A test that is called before \<^verbatim>\<open>createBroker\<close> has succeeded fails with the \<^verbatim>\<open>TypeError\<close> of
  the access to \<^verbatim>\<open>this.broker\<close>, and the SDK is not called.
\<close>

lemma without_broker:
  assumes "\<not> broker t"
  shows "listServices w t =
      failed_with ''Service Discovery'' (Thrown (Some (UNDEFINED_READ ''inference'')))
        (log ''INFO'' ''Listing available services...'' t)"
    and "testProviderAcknowledgment w t =
      failed_with ''Provider Acknowledgment'' (Thrown (Some (UNDEFINED_READ ''inference'')))
        (log ''INFO'' ''Testing provider signer acknowledgment...'' t)"
    and "createAccount w t =
      (Returns False, recordTest ''Account Creation'' False
         (''Failed: '' @ UNDEFINED_READ ''ledger'') NoDetails
         (log ''INFO'' ''Creating ledger account...'' t))"
    and "askLLM w t a q h = Rejected (Thrown (Some (UNDEFINED_READ ''inference'')))"
  using assms
  by (simp_all add: listServices_def testProviderAcknowledgment_def createAccount_def
      askLLM_def via_broker_def via_broker_do_def message_of_def UNDEFINED_READ_def Let_def)



text \<open>
  \<^bold>\<open>C30\<close> (invariant). The counters of a run agree with the recorded tests: \<^verbatim>\<open>total\<close> is the
  number of entries, \<^verbatim>\<open>passed\<close> and \<^verbatim>\<open>failed\<close> are the numbers of successful and of failed
  entries, and they add up to \<^verbatim>\<open>total\<close>. A run records at least one test and at most seven,
  and the reported success rate is at most 100.00.
\<close>

theorem report_counts:
  assumes "runAllTests w new_tester = (code, t)"
  shows "total (results t) = length (tests (results t)) \<and>
         passed (results t) = length (filter t_success (tests (results t))) \<and>
         failed (results t) = length (filter (\<lambda>e. \<not> t_success e) (tests (results t))) \<and>
         total (results t) = passed (results t) + failed (results t) \<and>
         1 \<le> total (results t) \<and> total (results t) \<le> 7 \<and>
         r_successRate (report_of (results t)) \<le> 10000"
proof -
  have "\<exists>es. results t = fold add_result es (results new_tester) \<and> 1 \<le> length es \<and> length es \<le> 7"
    using assms
  proof (cases rule: runAllTests_cases)
    case (all_pass es)
    from arg_cong [OF all_pass(2), of length] have "length es = 7" by simp
    with all_pass(1) show ?thesis by auto
  next
    case (failure es)
    then have "1 \<le> length es" "length es \<le> 7" by (simp_all add: Suc_le_eq)
    with failure(1) show ?thesis by auto
  next
    case (unexpected es e)
    then have "1 \<le> length (es @ [e])" "length (es @ [e]) \<le> 7" by simp_all
    with unexpected(1) show ?thesis by blast
  qed
  then obtain es where es: "results t = fold add_result es (results new_tester)"
    and l: "1 \<le> length es" "length es \<le> 7" by blast
  note f = fresh_results [OF es]
  have "passed (results t) \<le> total (results t)" by (simp add: f)
  then have "r_successRate (report_of (results t)) \<le> 10000"
    by (simp add: report_of_def successRate_le)
  with l length_filter_split [of es t_success] show ?thesis by (simp add: f)
qed

theorem report_counts_witness:
  "runAllTests demo_no_service new_tester =
     (fst (runAllTests demo_no_service new_tester), snd (runAllTests demo_no_service new_tester)) \<and>
   total (results (snd (runAllTests demo_no_service new_tester))) = 4 \<and>
   passed (results (snd (runAllTests demo_no_service new_tester))) = 3 \<and>
   failed (results (snd (runAllTests demo_no_service new_tester))) = 1"
proof -
  have a: "runAllTests demo_no_service new_tester =
     (fst (runAllTests demo_no_service new_tester), snd (runAllTests demo_no_service new_tester))"
    by simp
  have "total (results (snd (runAllTests demo_no_service new_tester))) = 4"
    and "passed (results (snd (runAllTests demo_no_service new_tester))) = 3"
    by (simp_all add: tester_defs demo_defs Let_def add_result_def)
  with report_counts [OF a] a show ?thesis by simp
qed

text \<open>
  \<^bold>\<open>C29\<close> (functional). The exit status of the script: it is 0 when no test failed and 1
  otherwise, and it is 0 exactly when all seven tests are recorded, in the order of
  \<^verbatim>\<open>runAllTests\<close>, each as passed. \<^verbatim>\<open>main\<close> exits with this status.
\<close>

theorem exit_code_meaning:
  assumes "runAllTests w new_tester = (code, t)"
  shows "code = (if failed (results t) = 0 then 0 else 1) \<and>
         (code = 0 \<longleftrightarrow>
            map t_name (tests (results t)) = STAGE_NAMES \<and> list_all t_success (tests (results t))) \<and>
         exitCode (tester_main w) = Some code"
proof -
  note c = runAllTests_code(1) [OF assms]
  have "failed (results t) = 0 \<longleftrightarrow>
        map t_name (tests (results t)) = STAGE_NAMES \<and> list_all t_success (tests (results t))"
    using assms
  proof (cases rule: runAllTests_cases)
    case (all_pass es)
    with fresh_results [OF all_pass(1)] show ?thesis
      by (simp add: list_all_iff filter_empty_conv)
  next
    case (failure es)
    note f = fresh_results [OF failure(1)]
    from failure(2,6) have "\<not> list_all t_success es"
      by (auto simp: list_all_iff dest: last_in_set)
    then show ?thesis by (auto simp: f list_all_iff filter_empty_conv)
  next
    case (unexpected es e)
    note f = fresh_results [OF unexpected(1)]
    from unexpected(6) show ?thesis by (auto simp: f list_all_iff filter_empty_conv)
  qed
  with c assms show ?thesis by (simp add: tester_main_def)
qed

theorem exit_code_meaning_witness:
  "runAllTests demo_sdk new_tester =
     (fst (runAllTests demo_sdk new_tester), snd (runAllTests demo_sdk new_tester)) \<and>
   fst (runAllTests demo_sdk new_tester) = 0 \<and> exitCode (tester_main demo_sdk) = Some 0"
proof -
  have a: "runAllTests demo_sdk new_tester =
     (fst (runAllTests demo_sdk new_tester), snd (runAllTests demo_sdk new_tester))"
    by simp
  from exit_code_meaning [OF a] demo_sdk_run(1) a show ?thesis by simp
qed

text \<open>
  \<^bold>\<open>C9\<close> (error). Where the report goes. \<^verbatim>\<open>generateReport\<close> prints with \<^verbatim>\<open>console.log\<close>. On the
  early returns it runs inside the \<^verbatim>\<open>try\<close> block, while \<^verbatim>\<open>console.log\<close> is still redirected to
  \<^verbatim>\<open>console.error\<close>, and the \<^verbatim>\<open>finally\<close> block restores the console only afterwards. So when a
  test returns \<^verbatim>\<open>false\<close>, nothing at all is written to the standard output and the report
  is the last thing written to the standard error stream; the report reaches the
  standard output only when every test passed or when a test threw.
\<close>

theorem failure_report_not_on_stdout:
  assumes "runAllTests w new_tester = (code, t)"
  shows "stdout_of t =
           (if code = 0 \<or> ''Unexpected Error'' \<in> set (map t_name (tests (results t)))
            then [Report (report_of (results t))] else []) \<and>
         (code \<noteq> 0 \<and> ''Unexpected Error'' \<notin> set (map t_name (tests (results t))) \<longrightarrow>
            last (written t) = (Stderr, Report (report_of (results t))))"
  using assms
proof (cases rule: runAllTests_cases)
  case (all_pass es)
  note f = fresh_results [OF all_pass(1)]
  from all_pass(3) have "failed (results t) = 0" by (simp add: f list_all_iff filter_empty_conv)
  with runAllTests_code(1) [OF assms] all_pass(4) show ?thesis by simp
next
  case (failure es)
  note f = fresh_results [OF failure(1)]
  from failure(2,6) have "failed (results t) \<noteq> 0"
    by (auto simp: f filter_empty_conv dest: last_in_set)
  with runAllTests_code(1) [OF assms] have "code \<noteq> 0" by simp
  moreover have "''Unexpected Error'' \<notin> set (map t_name (tests (results t)))"
    using not_unexpected_take [of "length es"] by (simp add: f failure(3))
  ultimately show ?thesis using failure(7,8) by simp
next
  case (unexpected es e)
  note f = fresh_results [OF unexpected(1)]
  from unexpected(5) have "''Unexpected Error'' \<in> set (map t_name (tests (results t)))"
    by (simp add: f)
  with unexpected(7) show ?thesis by simp
qed

theorem failure_report_not_on_stdout_witness:
  "runAllTests demo_no_service new_tester =
     (fst (runAllTests demo_no_service new_tester), snd (runAllTests demo_no_service new_tester)) \<and>
   fst (runAllTests demo_no_service new_tester) = 1 \<and>
   stdout_of (snd (runAllTests demo_no_service new_tester)) = []"
proof -
  have a: "runAllTests demo_no_service new_tester =
     (fst (runAllTests demo_no_service new_tester), snd (runAllTests demo_no_service new_tester))"
    by simp
  from failure_report_not_on_stdout [OF a] demo_no_service_run(1,2) a show ?thesis by simp
qed

end
