(* ===== verification/Spec2Isabelle.thy ===== *)
theory Spec2Isabelle
  imports Schedules TesterRun
begin

text \<open>
  \<^bold>\<open>A verification development for the high-availability router manager and its
  serving capability test\<close> (\<^verbatim>\<open>src/api/inference/integration/router/router-ha.js\<close> and
  \<^verbatim>\<open>src/api/inference/integration/all-in-one/test-serving-capability.js\<close>).

  \<^bold>\<open>The programs.\<close> \<^verbatim>\<open>class RouterManager\<close> of \<^verbatim>\<open>router-ha.js\<close> supervises a pool of worker
  processes (\<^verbatim>\<open>0g-compute-cli router-serve\<close>), one per key: it reads its configuration
  from the environment, spawns each worker and waits until it answers a probe, polls
  the workers every 30 s, fronts them with one HTTP listener that forwards each request
  to a healthy worker chosen in round-robin order, restarts a worker 5 s after it exits
  with a failure, and on \<^verbatim>\<open>SIGTERM\<close> or \<^verbatim>\<open>SIGINT\<close> signals the workers, waits 3 s and exits.
  All of this runs in callbacks of one event loop. \<^verbatim>\<open>class ServingCapabilityTester\<close> of
  \<^verbatim>\<open>test-serving-capability.js\<close> runs seven tests against a third-party SDK, each recording
  one result, stops at the first failure, prints a report and exits with a status.

  \<^bold>\<open>How the model is built.\<close> Each synchronous block of the source (a method up to its
  next \<^verbatim>\<open>await\<close>, a handler, a timer callback) is one function on an explicit state. What
  the outside world decides is an argument: the outcome and the duration of every probe,
  whether a spawn succeeds, the exit code of a child, the answers of the SDK. Thrown
  exceptions and early returns are values of the result types. JavaScript objects have
  identity, and handlers keep references to objects that a restart replaces in the
  \<^verbatim>\<open>Map\<close>; the instance objects therefore live in a store and the \<^verbatim>\<open>Map\<close> holds references.

  \<^bold>\<open>Theories.\<close>
  \<^item> \<open>Prelude\<close>: type names (\<open>ref\<close>, \<open>millis\<close>), the theorem collections \<open>op_defs\<close>, \<open>frame\<close>
    and \<open>wf_keep\<close>, and generic facts on lists and association lists.
  \<^item> \<open>JsLib\<close>: the built-ins of the router: numbers with \<^verbatim>\<open>NaN\<close>, \<^verbatim>\<open>toString\<close>, \<^verbatim>\<open>findIndex\<close>,
    \<^verbatim>\<open>||\<close>, indexing, truthiness; \<^verbatim>\<open>%\<close> is \<open>smod\<close> of the library. Printing a number is
    injective.
  \<^item> \<open>Config\<close>: lines 6 to 24 of \<^verbatim>\<open>router-ha.js\<close>, the constants computed from
    \<^verbatim>\<open>process.env\<close> (\<open>load_config\<close>), with \<^verbatim>\<open>split\<close>, \<^verbatim>\<open>trim\<close> and \<^verbatim>\<open>parseInt\<close>. Parsing inverts
    printing for numbers, lists and provider entries.
  \<^item> \<open>Registry\<close>: the state. \<open>inst\<close> is the object literal of \<^verbatim>\<open>startInstance\<close>, \<open>child\<close> what
    the program uses of a \<^verbatim>\<open>ChildProcess\<close>, \<open>manager\<close> the fields of \<^verbatim>\<open>RouterManager\<close> and the
    runtime state its callbacks use (clock, pending timers, console, exit status).
    \<open>wf\<close> is the well-formedness of the store, kept by every operation.
  \<^item> \<open>RoundRobinSpec\<close>: the abstract round robin of the specification (\<open>rr_next\<close>,
    \<open>rr_step\<close>, \<open>rr_picks\<close>) and its rotation in closed form.
  \<^item> \<open>LoadBalancer\<close>: \<^verbatim>\<open>getHealthyInstance\<close> and the request handler of
    \<^verbatim>\<open>startLoadBalancer\<close> with its two proxy callbacks. The selection refines \<open>rr_step\<close>,
    rotates over a stable healthy set and never returns an unhealthy instance; each
    branch of the handler is characterised, including the 503 and 502 replies.
  \<^item> \<open>HealthMonitor\<close>: \<^verbatim>\<open>checkInstanceHealth\<close>, the interval callback of
    \<^verbatim>\<open>startHealthCheck\<close> (\<open>healthCheckTick\<close>) and \<^verbatim>\<open>waitForInstanceReady\<close> (\<open>waitLoop\<close>). The
    readiness gate is a total function; its result refines \<open>ready_within\<close>, a function of
    the probe outcomes alone, and its number of probes and its duration are bounded.
  \<^item> \<open>Supervisor\<close>: \<^verbatim>\<open>startInstance\<close> with the argument list of the worker, the \<^verbatim>\<open>close\<close> and
    \<^verbatim>\<open>error\<close> handlers and the restart timer. A restart keeps id, key and port and
    replaces the registered object; the restart count stays on the replaced object.
  \<^item> \<open>Shutdown\<close>: \<^verbatim>\<open>setupSignalHandlers\<close> and the \<^verbatim>\<open>shutdown\<close> closure in its two synchronous
    parts. \<open>kill\<close> follows the Node runtime: a delivered signal sets the \<^verbatim>\<open>killed\<close> flag.
    The second loop of \<^verbatim>\<open>shutdown\<close> therefore never delivers \<^verbatim>\<open>SIGKILL\<close>.
  \<^item> \<open>Startup\<close>: \<^verbatim>\<open>RouterManager.start\<close> and the entry point. A valid configuration leads to
    one registered instance per key with the expected id, port and arguments; an invalid
    one to exit status 1 before anything is launched.
  \<^item> \<open>System\<close>: the running manager as a transition system. \<open>event\<close> lists the callbacks,
    \<open>apply_event\<close> runs the operation of the component theory, \<open>step\<close> and \<open>reachable\<close> are the
    transition relation and its closure, \<open>run\<close> is the executable form. \<open>sys_inv\<close> is
    proved for every reachable state by rule induction; the properties of the theory
    (one live child per id, restart counts, shutdown is terminal, a crash leads to a
    restart) follow from it.
  \<^item> \<open>EventLoop\<close>: the manager at the grain of the event loop. The \<^verbatim>\<open>async\<close> methods
    (\<^verbatim>\<open>start\<close>, \<^verbatim>\<open>startInstance\<close> with \<^verbatim>\<open>waitForInstanceReady\<close>, the interval callback) run from
    one \<^verbatim>\<open>await\<close> to the next, the suspended calls are part of the state (\<open>gate\<close>, \<open>pass\<close>,
    \<open>booting\<close>), and any callback may run in between (\<open>loop_event\<close>, \<open>loop_apply\<close>,
    \<open>loop_step\<close>, \<open>loop_reachable\<close>, \<open>loop_run\<close>).
  \<^item> \<open>Interleaving\<close>: \<open>loop_inv\<close> holds in every state reachable from the first line of
    \<^verbatim>\<open>start()\<close>, so the invariant of \<open>System\<close> holds under every interleaving; no readiness
    gate can raise; \<^verbatim>\<open>start()\<close> is sequential and sets up signal handlers, periodic check
    and listener only at its end.
  \<^item> \<open>Schedules\<close>: every run of \<open>System\<close> is the run of the event loop under the schedule
    that lets each \<^verbatim>\<open>async\<close> call finish before anything else runs (\<open>start_events\<close>,
    \<open>schedules\<close>).
  \<^item> \<open>Tester\<close> and \<open>TesterRun\<close>: \<^verbatim>\<open>ServingCapabilityTester\<close> with every method, the redirection
    of the console, and the entry point; then what a run records, reports and returns.
  \<^item> This theory holds the property that spans start-up, readiness and selection.

  \<^bold>\<open>Bounds and measures.\<close> No definition uses fuel. The one loop that is not structural,
  the \<^verbatim>\<open>while\<close> of \<^verbatim>\<open>waitForInstanceReady\<close>, terminates because the clock advances by the
  duration of each probe and by the 1000 ms sleep; the distance to the deadline is its
  measure, also for the schedule of an uninterrupted gate (\<open>gate_events\<close>). The event loop
  itself is a relation: it has runs of any length, and what is proved of it holds for
  every state it can reach. The constants are those of the source: 60000 ms readiness ceiling, 1000 ms
  between readiness probes, 5000 ms probe timeout, 30000 ms between health checks,
  5000 ms restart delay, 3000 ms grace period, 2000 ms between two launches. Times are
  natural numbers of milliseconds, ports and counters are the integers that JavaScript
  numbers represent exactly. The success rate of the test report is kept in hundredths
  of a percent with exact rounding, which agrees with \<^verbatim>\<open>toFixed(2)\<close> on the double for
  fewer than 32 recorded tests; a run records at most 7. Examples are evaluated by the
  simplifier on a registry of three instances (\<open>demo3\<close>), on the start-up of the example
  environment (\<open>demo_started\<close>), and on three worlds of the test script.

  \<^bold>\<open>Assumptions about the world.\<close> A worker is seen through its spawn, its exit and its
  HTTP status codes. \<^verbatim>\<open>ChildProcess.kill\<close> delivers a signal to a running child and then
  sets \<^verbatim>\<open>killed\<close>; a child that has been signalled keeps running until its exit is
  reported. In theory \<open>System\<close> the interval callback and the readiness gate of a restart
  run as one step each, and in theory \<open>Startup\<close> no child exits before the listener is
  open; theories \<open>EventLoop\<close> and \<open>Interleaving\<close> drop both restrictions. There the answer of a probe may
  arrive at any time and in any order with other events; that a probe is answered
  within its 5 s timeout is not assumed. A termination signal that arrives before the
  handlers are installed ends the manager by the default action of the runtime, which
  is outside the model. Values thrown by the SDK are objects or primitives with or
  without a \<^verbatim>\<open>message\<close>.

  \<^bold>\<open>Not modelled.\<close> The bytes of HTTP requests and replies and the piping of a forwarded
  request; the worker executable; the forwarding of the workers' output to the console
  and log lines other than the health transitions of the router; time stamps in the
  log and the report of the test script; the order in which the runtime delivers
  events that are ready at the same time (every order is allowed); a second
  termination signal racing the first, which the specification leaves open.
\<close>

section \<open>From the environment to the first requests\<close>

text \<open>
  \<^bold>\<open>C11\<close> (functional). Start-up, readiness and selection together: after \<^verbatim>\<open>start()\<close> with a
  valid configuration, in a world where the readiness gate of every worker succeeds
  within 60 s, all instances are healthy, and \<open>n\<close> consecutive selections of the front
  door return the instances in the order of their keys, cyclically, beginning with the
  first: the \<open>j\<close>-th request goes to instance \<open>j mod count\<close>.
\<close>

theorem start_then_rotate:
  assumes "valid_config cfg" and "start cfg w (new_manager t) = Normal s"
    and "list_all (\<lambda>j. ready_within (snd (w j)) 0 0 READY_TIMEOUT) [0..<instance_count cfg]"
  shows "healthy_refs s = [0..<instance_count cfg] \<and>
         select_n n s = map (\<lambda>j. j mod instance_count cfg) [0..<n]"
proof -
  let ?N = "instance_count cfg"
  from start_valid [OF assms(1), of w t] assms(2)
  have w: "wf s" and v: "value_refs s = [0..<?N]"
    and h: "\<forall>j<?N. healthy (deref s j) = ready_within (snd (w j)) 0 0 READY_TIMEOUT"
    and c: "currentActiveInstance s = None"
    by auto
  from h assms(3) have hs: "healthy_refs s = [0..<?N]"
    by (auto simp: healthy_refs_def v list_all_iff intro!: filter_True)
  have nx: "rr_next (map (id_of s) (healthy_refs s)) (cursor_id s) =
      Some (id_of s (healthy_refs s ! 0))"
    using instance_count_pos [of cfg]
    by (simp add: rr_next_def cursor_id_def c hs hd_map hd_conv_nth)
  have "select_n n s = map (\<lambda>j. healthy_refs s ! ((0 + j) mod length (healthy_refs s))) [0..<n]"
    using instance_count_pos [of cfg] by (intro select_n_rotation [OF w _ nx]) (simp add: hs)
  also have "\<dots> = map (\<lambda>j. j mod ?N) [0..<n]"
    using instance_count_pos [of cfg] by (simp add: hs)
  finally show ?thesis using hs by simp
qed

theorem start_then_rotate_witness:
  "valid_config demo_cfg \<and> start demo_cfg demo_world (new_manager 0) = Normal demo_started \<and>
   list_all (\<lambda>j. ready_within (snd (demo_world j)) 0 0 READY_TIMEOUT) [0..<instance_count demo_cfg] \<and>
   select_n 4 demo_started = [0, 1, 2, 0]"
proof -
  have r: "list_all (\<lambda>j. ready_within (snd (demo_world j)) 0 0 READY_TIMEOUT)
      [0..<instance_count demo_cfg]"
    by (simp add: list_all_iff demo_world_ready)
  from start_then_rotate [OF demo_cfg_valid demo_start r, of 4] r demo_cfg_valid demo_start
  show ?thesis by (simp add: demo_cfg_count upt_rec)
qed

end
